(* ===== verification/Hsb_Prelude.thy ===== *)
theory Hsb_Prelude
  imports Main "HOL-Library.Word" "HOL-Library.Monad_Syntax"
begin

text \<open>
  The shared vocabulary of the development: the C integer types as words, the partiality
  monad in which every handler is written, fixed-size C arrays, the \<^verbatim>\<open>for\<close> loops of the
  source, the GLib queue operations and the bit test \<^verbatim>\<open>CHECK_BIT\<close>.

  A handler returns \<^typ>\<open>'a option\<close>. \<^term>\<open>None\<close> is a run of the C code that has no
  defined meaning or no continuation: an access outside a fixed array or buffer, a
  dereference of a NULL or freed pointer, or locking a mutex the running thread
  already holds. The error codes the code returns on purpose are ordinary values.
  \<^term>\<open>runs m P\<close> states that \<^term>\<open>m\<close> is defined and that its result satisfies
  \<^term>\<open>P\<close>; its rules push it through \<^verbatim>\<open>do\<close> blocks.
\<close>

unbundle bit_operations_syntax

type_synonym u8 = "8 word"
type_synonym u16 = "16 word"
type_synonym u32 = "32 word"
type_synonym buf = "u8 list"

named_theorems hsb_defs \<open>definitions that proofs about the handlers unfold\<close>
named_theorems hsb_frame \<open>which parts of the state an operation leaves alone\<close>

section \<open>Defined runs\<close>

definition runs :: "'a option \<Rightarrow> ('a \<Rightarrow> bool) \<Rightarrow> bool" where
  "runs m P \<longleftrightarrow> (\<exists>x. m = Some x \<and> P x)"

lemma runs_Some [simp]: "runs (Some x) P \<longleftrightarrow> P x"
  by (simp add: runs_def)

lemma runs_None [simp]: "\<not> runs None P"
  by (simp add: runs_def)

lemma runs_bind [simp]: "runs (Option.bind m f) P \<longleftrightarrow> runs m (\<lambda>x. runs (f x) P)"
  by (cases m) auto

lemma runs_if [simp]: "runs (if b then m else n) P \<longleftrightarrow> (if b then runs m P else runs n P)"
  by simp

lemma runs_mono: "runs m P \<Longrightarrow> (\<And>x. P x \<Longrightarrow> Q x) \<Longrightarrow> runs m Q"
  by (auto simp: runs_def)

lemma runs_conj: "runs m (\<lambda>x. P x \<and> Q x) \<longleftrightarrow> runs m P \<and> runs m Q"
  by (auto simp: runs_def)

lemma runsE: "runs m P \<Longrightarrow> (\<And>x. m = Some x \<Longrightarrow> P x \<Longrightarrow> R) \<Longrightarrow> R"
  by (auto simp: runs_def)

lemma runs_pairE:
  "runs m (\<lambda>(x, y). P x y) \<Longrightarrow> (\<And>x y. m = Some (x, y) \<Longrightarrow> P x y \<Longrightarrow> R) \<Longrightarrow> R"
  by (auto simp: runs_def)

lemma runs_tripleE:
  "runs m (\<lambda>(x, y, z). P x y z) \<Longrightarrow> (\<And>x y z. m = Some (x, y, z) \<Longrightarrow> P x y z \<Longrightarrow> R) \<Longrightarrow> R"
  by (auto simp: runs_def)

lemma runs_cases [simp]:
  "runs (case p of (x, y) \<Rightarrow> f x y) P \<longleftrightarrow> (case p of (x, y) \<Rightarrow> runs (f x y) P)"
  by (cases p) simp

lemma runs_map [simp]: "runs (map_option f m) P \<longleftrightarrow> runs m (\<lambda>x. P (f x))"
  by (cases m) simp_all

section \<open>Fixed-size arrays\<close>

definition arr_get :: "'a list \<Rightarrow> nat \<Rightarrow> 'a option" where
  "arr_get xs i = (if i < length xs then Some (xs ! i) else None)"

definition arr_set :: "'a list \<Rightarrow> nat \<Rightarrow> 'a \<Rightarrow> 'a list option" where
  "arr_set xs i x = (if i < length xs then Some (xs[i := x]) else None)"

lemma arr_get_in [simp]: "i < length xs \<Longrightarrow> arr_get xs i = Some (xs ! i)"
  by (simp add: arr_get_def)

lemma arr_set_in [simp]: "i < length xs \<Longrightarrow> arr_set xs i x = Some (xs[i := x])"
  by (simp add: arr_set_def)

lemma arr_get_out: "length xs \<le> i \<Longrightarrow> arr_get xs i = None"
  by (simp add: arr_get_def)

lemma arr_set_out: "length xs \<le> i \<Longrightarrow> arr_set xs i x = None"
  by (simp add: arr_set_def)

section \<open>Counting loops\<close>

primrec for_list :: "('i \<Rightarrow> 's \<Rightarrow> 's option) \<Rightarrow> 'i list \<Rightarrow> 's \<Rightarrow> 's option" where
  "for_list f [] s = Some s"
| "for_list f (i # is) s = Option.bind (f i s) (for_list f is)"

lemma for_list_Nil [simp]: "for_list f [] = Some"
  by (rule ext) simp

lemma for_list_append:
  "for_list f (is @ js) s = Option.bind (for_list f is s) (for_list f js)"
  by (induction "is" arbitrary: s) (auto split: Option.bind_splits)

lemma for_list_runs:
  assumes "\<And>i s. i \<in> set is \<Longrightarrow> I s \<Longrightarrow> runs (f i s) I" and "I s"
  shows "runs (for_list f is s) I"
  using assms
proof (induction "is" arbitrary: s)
  case Nil
  then show ?case by simp
next
  case (Cons i "is")
  from Cons.prems have "runs (f i s) I" by simp
  moreover have "runs (for_list f is t) I" if "I t" for t
    using that by (intro Cons.IH) (simp_all add: Cons.prems(1))
  ultimately show ?case by (auto elim!: runsE)
qed

section \<open>GLib queues\<close>

text \<open>A \<^verbatim>\<open>GQueue\<close> is the list of the data pointers it holds, head first.\<close>

definition g_queue_push_tail :: "'a list \<Rightarrow> 'a \<Rightarrow> 'a list" where
  "g_queue_push_tail q x = q @ [x]"

definition g_queue_pop_nth :: "'a list \<Rightarrow> nat \<Rightarrow> 'a list" where
  "g_queue_pop_nth q n = take n q @ drop (Suc n) q"

lemma set_push_tail [simp]: "set (g_queue_push_tail q x) = insert x (set q)"
  by (simp add: g_queue_push_tail_def)

lemma length_push_tail [simp]: "length (g_queue_push_tail q x) = Suc (length q)"
  by (simp add: g_queue_push_tail_def)

lemma map_push_tail: "map f (g_queue_push_tail q x) = g_queue_push_tail (map f q) (f x)"
  by (simp add: g_queue_push_tail_def)

lemma distinct_push_tail [simp]: "distinct (g_queue_push_tail q x) \<longleftrightarrow> distinct q \<and> x \<notin> set q"
  by (auto simp: g_queue_push_tail_def)

lemma set_pop_nth_subset: "set (g_queue_pop_nth q n) \<subseteq> set q"
  by (auto simp: g_queue_pop_nth_def dest: in_set_takeD in_set_dropD)

lemma mset_pop_nth_split: "n < length q \<Longrightarrow> q = take n q @ q ! n # drop (Suc n) q"
  by (rule id_take_nth_drop)

lemma distinct_pop_nth: "distinct q \<Longrightarrow> distinct (g_queue_pop_nth q n)"
proof (cases "n < length q")
  case True
  assume "distinct q"
  then have "distinct (take n q @ q ! n # drop (Suc n) q)"
    using mset_pop_nth_split [OF True] by simp
  then show ?thesis by (simp add: g_queue_pop_nth_def)
qed (simp add: g_queue_pop_nth_def)

lemma set_pop_nth:
  assumes "distinct q" and "n < length q"
  shows "set (g_queue_pop_nth q n) = set q - {q ! n}"
proof -
  let ?q = "take n q @ q ! n # drop (Suc n) q"
  have "distinct ?q" using assms mset_pop_nth_split by metis
  then have "set (g_queue_pop_nth q n) = set ?q - {q ! n}"
    by (auto simp: g_queue_pop_nth_def)
  with assms(2) show ?thesis using mset_pop_nth_split by metis
qed

section \<open>Bits\<close>

definition CHECK_BIT :: "'a::len word \<Rightarrow> nat \<Rightarrow> bool" where
  "CHECK_BIT a b \<longleftrightarrow> a AND push_bit b 1 \<noteq> 0"

lemma CHECK_BIT_bit: "CHECK_BIT a b \<longleftrightarrow> bit a b"
proof -
  have "bit (a AND push_bit b 1) n \<longleftrightarrow> n = b \<and> bit a b" for n
    by (auto simp: bit_simps dest: bit_imp_le_length)
  then show ?thesis
    unfolding CHECK_BIT_def by (metis bit_0_eq bot_apply bot_bool_def bit_eqI)
qed

lemma CHECK_BIT_zero [simp]: "\<not> CHECK_BIT 0 b"
  by (simp add: CHECK_BIT_def)

text \<open>Equality of bytes, bit by bit.\<close>

lemma bit8_eqI: "(\<And>n. n \<in> {0, 1, 2, 3, 4, 5, 6, 7} \<Longrightarrow> bit a n = bit b n) \<Longrightarrow> a = (b :: u8)"
proof (rule bit_word_eqI)
  fix n
  assume h: "\<And>n. n \<in> {0, 1, 2, 3, 4, 5, 6, 7} \<Longrightarrow> bit a n = bit b n" and "n < LENGTH(8)"
  then have "n < 8" by simp
  then have "n = 0 \<or> n = 1 \<or> n = 2 \<or> n = 3 \<or> n = 4 \<or> n = 5 \<or> n = 6 \<or> n = 7" by linarith
  then have "n \<in> {0, 1, 2, 3, 4, 5, 6, 7}" by blast
  with h show "bit a n = bit b n" by blast
qed

lemma bit8_high: "8 \<le> n \<Longrightarrow> bit (x :: u8) n = False"
  by (auto dest: bit_imp_le_length)

end
