(* ===== verification/Cmd_Field.thy ===== *)
theory Cmd_Field
  imports Hsb_Prelude
begin

text \<open>
  The field accessors of \<^verbatim>\<open>include/network_utils.h\<close>: \<^verbatim>\<open>GET_CMD_FIELD\<close> and
  \<^verbatim>\<open>SET_CMD_FIELD\<close> at the three widths the sources use, little endian as on the target
  machines, on a byte buffer. An access that does not lie inside the array is
  \<^term>\<open>None\<close>. The locale \<open>cmd_field\<close> states what the protocol code relies on for one
  width and \<open>cmd_field_pair\<close> for two fields of a packet; both are interpreted for
  every width.
\<close>

section \<open>Bytes of a word\<close>

definition le16 :: "u16 \<Rightarrow> buf" where
  "le16 v = [ucast v, ucast (drop_bit 8 v)]"

definition le32 :: "u32 \<Rightarrow> buf" where
  "le32 v = [ucast v, ucast (drop_bit 8 v), ucast (drop_bit 16 v), ucast (drop_bit 24 v)]"

definition of_le16 :: "u8 \<Rightarrow> u8 \<Rightarrow> u16" where
  "of_le16 a b = ucast a OR push_bit 8 (ucast b)"

definition of_le32 :: "u8 \<Rightarrow> u8 \<Rightarrow> u8 \<Rightarrow> u8 \<Rightarrow> u32" where
  "of_le32 a b c d =
     ucast a OR push_bit 8 (ucast b) OR push_bit 16 (ucast c) OR push_bit 24 (ucast d)"

lemma length_le16 [simp]: "length (le16 v) = 2"
  by (simp add: le16_def)

lemma length_le32 [simp]: "length (le32 v) = 4"
  by (simp add: le32_def)

lemma of_le16_le16 [simp]: "of_le16 (ucast v) (ucast (drop_bit 8 v)) = v"
  by (rule bit_word_eqI) (auto simp: of_le16_def bit_simps)

lemma of_le32_le32 [simp]:
  "of_le32 (ucast v) (ucast (drop_bit 8 v)) (ucast (drop_bit 16 v)) (ucast (drop_bit 24 v)) = v"
proof (rule bit_word_eqI)
  fix n assume "n < LENGTH(32)"
  then consider "n < 8" | "8 \<le> n \<and> n < 16" | "16 \<le> n \<and> n < 24" | "24 \<le> n \<and> n < 32"
    by force
  then show "bit (of_le32 (ucast v) (ucast (drop_bit 8 v)) (ucast (drop_bit 16 v))
      (ucast (drop_bit 24 v))) n = bit v n"
    by cases (auto simp: of_le32_def bit_simps)
qed

lemma le16_of_le16 [simp]: "le16 (of_le16 a b) = [a, b]"
proof -
  have "ucast (of_le16 a b) = a"
    by (rule bit_word_eqI) (auto simp: of_le16_def bit_simps)
  moreover have "ucast (drop_bit 8 (of_le16 a b)) = b"
    by (rule bit_word_eqI) (auto simp: of_le16_def bit_simps dest: bit_imp_le_length)
  ultimately show ?thesis by (simp add: le16_def)
qed

lemma le32_of_le32 [simp]: "le32 (of_le32 a b c d) = [a, b, c, d]"
proof -
  have "ucast (of_le32 a b c d) = a"
    by (rule bit_word_eqI) (auto simp: of_le32_def bit_simps)
  moreover have "ucast (drop_bit 8 (of_le32 a b c d)) = b"
    by (rule bit_word_eqI) (auto simp: of_le32_def bit_simps dest: bit_imp_le_length)
  moreover have "ucast (drop_bit 16 (of_le32 a b c d)) = c"
    by (rule bit_word_eqI) (auto simp: of_le32_def bit_simps dest: bit_imp_le_length)
  moreover have "ucast (drop_bit 24 (of_le32 a b c d)) = d"
    by (rule bit_word_eqI) (auto simp: of_le32_def bit_simps dest: bit_imp_le_length)
  ultimately show ?thesis by (simp add: le32_def)
qed

section \<open>The accessors\<close>

definition GET_u8 :: "buf \<Rightarrow> nat \<Rightarrow> u8 option" where
  "GET_u8 b off = (if off + 1 \<le> length b then Some (b ! off) else None)"

definition GET_u16 :: "buf \<Rightarrow> nat \<Rightarrow> u16 option" where
  "GET_u16 b off =
     (if off + 2 \<le> length b then Some (of_le16 (b ! off) (b ! (off + 1))) else None)"

definition GET_u32 :: "buf \<Rightarrow> nat \<Rightarrow> u32 option" where
  "GET_u32 b off =
     (if off + 4 \<le> length b
      then Some (of_le32 (b ! off) (b ! (off + 1)) (b ! (off + 2)) (b ! (off + 3))) else None)"

definition put_bytes :: "buf \<Rightarrow> nat \<Rightarrow> buf \<Rightarrow> buf option" where
  "put_bytes b off bs =
     (if off + length bs \<le> length b
      then Some (take off b @ bs @ drop (off + length bs) b) else None)"

definition SET_u8 :: "buf \<Rightarrow> nat \<Rightarrow> u8 \<Rightarrow> buf option" where
  "SET_u8 b off v = put_bytes b off [v]"

definition SET_u16 :: "buf \<Rightarrow> nat \<Rightarrow> u16 \<Rightarrow> buf option" where
  "SET_u16 b off v = put_bytes b off (le16 v)"

definition SET_u32 :: "buf \<Rightarrow> nat \<Rightarrow> u32 \<Rightarrow> buf option" where
  "SET_u32 b off v = put_bytes b off (le32 v)"

lemma put_bytes_length: "put_bytes b off bs = Some b' \<Longrightarrow> length b' = length b"
  by (auto simp: put_bytes_def split: if_splits)

lemma put_bytes_in:
  "put_bytes b off bs = Some b' \<Longrightarrow> i < length bs \<Longrightarrow> b' ! (off + i) = bs ! i"
  by (auto simp: put_bytes_def nth_append split: if_splits)

lemma put_bytes_out:
  "put_bytes b off bs = Some b' \<Longrightarrow> i < off \<or> off + length bs \<le> i \<Longrightarrow> i < length b
   \<Longrightarrow> b' ! i = b ! i"
  by (auto simp: put_bytes_def nth_append split: if_splits)

section \<open>The contract of a field\<close>

locale cmd_field =
  fixes get :: "buf \<Rightarrow> nat \<Rightarrow> 'v option"
    and put :: "buf \<Rightarrow> nat \<Rightarrow> 'v \<Rightarrow> buf option"
    and w :: nat
  assumes get_defined: "(\<exists>v. get b off = Some v) \<longleftrightarrow> off + w \<le> length b"
    and put_defined: "(\<exists>b'. put b off v = Some b') \<longleftrightarrow> off + w \<le> length b"
    and put_length: "put b off v = Some b' \<Longrightarrow> length b' = length b"
    and put_frame: "put b off v = Some b' \<Longrightarrow> i < off \<or> off + w \<le> i \<Longrightarrow> i < length b
      \<Longrightarrow> b' ! i = b ! i"
    and get_put: "put b off v = Some b' \<Longrightarrow> get b' off = Some v"
    and get_local: "length b = length b' \<Longrightarrow> (\<And>i. off \<le> i \<Longrightarrow> i < off + w \<Longrightarrow> b ! i = b' ! i)
      \<Longrightarrow> get b off = get b' off"
begin

lemma get_out_of_bounds: "get b off = None \<longleftrightarrow> length b < off + w"
  using get_defined [of b off] by (metis linorder_not_le not_Some_eq)

lemma put_out_of_bounds: "put b off v = None \<longleftrightarrow> length b < off + w"
  using put_defined [of b off v] by (metis linorder_not_le not_Some_eq)

lemma put_put:
  assumes "put b off v = Some b'"
  shows "runs (put b' off u) (\<lambda>b''. get b'' off = Some u)"
proof -
  from assms put_defined have "off + w \<le> length b'" by (metis put_length)
  with put_defined obtain b'' where "put b' off u = Some b''" by blast
  then show ?thesis using get_put by simp
qed

end

locale cmd_field_pair = f: cmd_field getf putf wf + g: cmd_field getg putg wg
  for getf :: "buf \<Rightarrow> nat \<Rightarrow> 'v option" and putf :: "buf \<Rightarrow> nat \<Rightarrow> 'v \<Rightarrow> buf option" and wf :: nat
    and getg :: "buf \<Rightarrow> nat \<Rightarrow> 'u option" and putg :: "buf \<Rightarrow> nat \<Rightarrow> 'u \<Rightarrow> buf option" and wg :: nat
begin

lemma get_put_disjoint:
  assumes "putg b off v = Some b'" and "i + wf \<le> off \<or> off + wg \<le> i"
  shows "getf b' i = getf b i"
proof (cases "i + wf \<le> length b")
  case True
  show ?thesis
  proof (rule f.get_local)
    show "length b' = length b" using assms(1) by (rule g.put_length)
  next
    fix k assume "i \<le> k" and "k < i + wf"
    with assms(2) True show "b' ! k = b ! k"
      by (intro g.put_frame [OF assms(1)]) auto
  qed
next
  case False
  with g.put_length [OF assms(1)] f.get_out_of_bounds show ?thesis
    by (metis linorder_not_le)
qed

end

interpretation f8: cmd_field GET_u8 SET_u8 1
proof unfold_locales
  show "length b = length b' \<Longrightarrow> (\<And>i. off \<le> i \<Longrightarrow> i < off + 1 \<Longrightarrow> b ! i = b' ! i)
      \<Longrightarrow> GET_u8 b off = GET_u8 b' off" for b b' off
    by (simp add: GET_u8_def)
qed (auto simp: GET_u8_def SET_u8_def put_bytes_out put_bytes_def nth_append split: if_splits)

interpretation f16: cmd_field GET_u16 SET_u16 2
proof unfold_locales
  show "SET_u16 b off v = Some b' \<Longrightarrow> i < off \<or> off + 2 \<le> i \<Longrightarrow> i < length b
      \<Longrightarrow> b' ! i = b ! i" for b b' off v i
    using put_bytes_out [of b off "le16 v" b' i] by (simp add: SET_u16_def)
  show "SET_u16 b off v = Some b' \<Longrightarrow> GET_u16 b' off = Some v" for b b' off v
    by (auto simp: GET_u16_def SET_u16_def put_bytes_def nth_append le16_def split: if_splits)
  show "length b = length b' \<Longrightarrow> (\<And>i. off \<le> i \<Longrightarrow> i < off + 2 \<Longrightarrow> b ! i = b' ! i)
      \<Longrightarrow> GET_u16 b off = GET_u16 b' off" for b b' off
    by (simp add: GET_u16_def)
qed (auto simp: GET_u16_def SET_u16_def put_bytes_def nth_append split: if_splits)

interpretation f32: cmd_field GET_u32 SET_u32 4
proof unfold_locales
  show "SET_u32 b off v = Some b' \<Longrightarrow> GET_u32 b' off = Some v" for b b' off v
    by (auto simp: GET_u32_def SET_u32_def put_bytes_def nth_append le32_def split: if_splits)
  show "length b = length b' \<Longrightarrow> (\<And>i. off \<le> i \<Longrightarrow> i < off + 4 \<Longrightarrow> b ! i = b' ! i)
      \<Longrightarrow> GET_u32 b off = GET_u32 b' off" for b b' off
    by (simp add: GET_u32_def)
qed (auto simp: GET_u32_def SET_u32_def put_bytes_def nth_append split: if_splits)

interpretation f8_8: cmd_field_pair GET_u8 SET_u8 1 GET_u8 SET_u8 1 ..
interpretation f8_16: cmd_field_pair GET_u8 SET_u8 1 GET_u16 SET_u16 2 ..
interpretation f8_32: cmd_field_pair GET_u8 SET_u8 1 GET_u32 SET_u32 4 ..
interpretation f16_8: cmd_field_pair GET_u16 SET_u16 2 GET_u8 SET_u8 1 ..
interpretation f16_16: cmd_field_pair GET_u16 SET_u16 2 GET_u16 SET_u16 2 ..
interpretation f16_32: cmd_field_pair GET_u16 SET_u16 2 GET_u32 SET_u32 4 ..
interpretation f32_8: cmd_field_pair GET_u32 SET_u32 4 GET_u8 SET_u8 1 ..
interpretation f32_16: cmd_field_pair GET_u32 SET_u32 4 GET_u16 SET_u16 2 ..
interpretation f32_32: cmd_field_pair GET_u32 SET_u32 4 GET_u32 SET_u32 4 ..

section \<open>Packets written front to back\<close>

text \<open>
  The reply builders clear a buffer with \<^verbatim>\<open>memset\<close> and then store consecutive fields:
  the buffer is then a prefix followed by zero bytes.
\<close>

definition fill :: "nat \<Rightarrow> buf \<Rightarrow> buf" where
  "fill n p = p @ replicate (n - length p) 0"

lemma length_fill [simp]: "length p \<le> n \<Longrightarrow> length (fill n p) = n"
  by (simp add: fill_def)

lemma put_bytes_fill:
  "length p = off \<Longrightarrow> off + length bs \<le> n \<Longrightarrow> put_bytes (fill n p) off bs = Some (fill n (p @ bs))"
  by (auto simp: put_bytes_def fill_def)

lemma SET_u8_fill [simp]:
  "length p = off \<Longrightarrow> off + 1 \<le> n \<Longrightarrow> SET_u8 (fill n p) off v = Some (fill n (p @ [v]))"
  by (simp add: SET_u8_def put_bytes_fill)

lemma SET_u16_fill [simp]:
  "length p = off \<Longrightarrow> off + 2 \<le> n \<Longrightarrow> SET_u16 (fill n p) off v = Some (fill n (p @ le16 v))"
  by (simp add: SET_u16_def put_bytes_fill)

lemma SET_u32_fill [simp]:
  "length p = off \<Longrightarrow> off + 4 \<le> n \<Longrightarrow> SET_u32 (fill n p) off v = Some (fill n (p @ le32 v))"
  by (simp add: SET_u32_def put_bytes_fill)

lemma take_fill: "length p \<le> k \<Longrightarrow> k \<le> n \<Longrightarrow> take k (fill n p) = p @ replicate (k - length p) 0"
  by (simp add: fill_def)

lemma replicate_fill: "replicate n 0 = fill n []"
  by (simp add: fill_def)

text \<open>The same for a buffer that was not cleared: a prefix over the old contents.\<close>

definition front :: "buf \<Rightarrow> buf \<Rightarrow> buf" where
  "front junk p = p @ drop (length p) junk"

lemma front_Nil [simp]: "front junk [] = junk"
  by (simp add: front_def)

lemma fill_front: "fill n p = front (replicate n 0) p"
  by (simp add: fill_def front_def)

lemma length_front [simp]: "length p \<le> length junk \<Longrightarrow> length (front junk p) = length junk"
  by (simp add: front_def)

lemma put_bytes_front:
  "length p = off \<Longrightarrow> off + length bs \<le> length junk \<Longrightarrow>
   put_bytes (front junk p) off bs = Some (front junk (p @ bs))"
  by (auto simp: put_bytes_def front_def add.commute)

lemma SET_u16_front [simp]:
  "length p = off \<Longrightarrow> off + 2 \<le> length junk \<Longrightarrow> SET_u16 (front junk p) off v = Some (front junk (p @ le16 v))"
  by (simp add: SET_u16_def put_bytes_front)

lemma SET_u32_front [simp]:
  "length p = off \<Longrightarrow> off + 4 \<le> length junk \<Longrightarrow> SET_u32 (front junk p) off v = Some (front junk (p @ le32 v))"
  by (simp add: SET_u32_def put_bytes_front)

lemma SET_u16_start [simp]: "2 \<le> length junk \<Longrightarrow> SET_u16 junk 0 v = Some (front junk (le16 v))"
  using SET_u16_front [of "[]" 0 junk v] by simp

lemma take_front [simp]: "take (length p) (front junk p) = p"
  by (simp add: front_def)

lemma GET_u16_append: "2 \<le> length r \<Longrightarrow> GET_u16 (p @ r) (length p) = GET_u16 r 0"
  by (simp add: GET_u16_def nth_append)

lemma GET_u16_le16 [simp]: "GET_u16 (le16 v @ r) 0 = Some v"
  by (simp add: GET_u16_def le16_def)

lemma GET_u32_le32 [simp]: "GET_u32 (le32 v @ r) 0 = Some v"
  by (simp add: GET_u32_def le32_def)

lemma GET_u16_drop: "off \<le> length b \<Longrightarrow> GET_u16 b (off + k) = GET_u16 (drop off b) k"
  by (auto simp: GET_u16_def add.assoc)

end
