(* ===== verification/Hsb_Types.thy ===== *)
theory Hsb_Types
  imports Cmd_Field
begin

text \<open>
  The data of the daemon: the enums of \<^verbatim>\<open>include/hsb_device.h\<close>, \<^verbatim>\<open>include/hsb_error.h\<close>
  and \<^verbatim>\<open>include/net_protocol.h\<close> and the structs of \<^verbatim>\<open>core_daemon/device.h\<close>. A struct is a
  record whose field names carry a prefix for the struct, a tagged union is a datatype
  with one constructor per tag, an array is a list whose length the invariants fix, a
  pointer to a statically allocated driver or operation table is that table as an
  \<^typ>\<open>'a option\<close> with \<^term>\<open>None\<close> for NULL.
\<close>

section \<open>Enumerations\<close>

datatype HSB_ERROR_NO_T =
    HSB_E_OK | HSB_E_INVALID_MSG | HSB_E_NOT_SUPPORTED | HSB_E_BAD_PARAM | HSB_E_NO_MEMORY
  | HSB_E_ENTRY_EXISTS | HSB_E_ENTRY_NOT_FOUND | HSB_E_ACT_FAILED | HSB_E_OTHERS

primrec errno :: "HSB_ERROR_NO_T \<Rightarrow> int" where
  "errno HSB_E_OK = 0"
| "errno HSB_E_INVALID_MSG = 1"
| "errno HSB_E_NOT_SUPPORTED = 2"
| "errno HSB_E_BAD_PARAM = 3"
| "errno HSB_E_NO_MEMORY = 4"
| "errno HSB_E_ENTRY_EXISTS = 5"
| "errno HSB_E_ENTRY_NOT_FOUND = 6"
| "errno HSB_E_ACT_FAILED = 7"
| "errno HSB_E_OTHERS = 8"

lemma errno_inject [simp]: "errno a = errno b \<longleftrightarrow> a = b"
  by (cases a; cases b) simp_all

abbreviation (input) HSB_STATUS_TYPE_WORK_MODE :: u16 where "HSB_STATUS_TYPE_WORK_MODE \<equiv> 4"

abbreviation (input) HSB_WORK_MODE_HOME :: u32 where "HSB_WORK_MODE_HOME \<equiv> 0"
abbreviation (input) HSB_WORK_MODE_OUTSIDE :: u32 where "HSB_WORK_MODE_OUTSIDE \<equiv> 1"
abbreviation (input) HSB_WORK_MODE_GUARD :: u32 where "HSB_WORK_MODE_GUARD \<equiv> 2"
abbreviation (input) HSB_WORK_MODE_LAST :: u32 where "HSB_WORK_MODE_LAST \<equiv> 3"
abbreviation (input) HSB_WORK_MODE_ALL :: u32 where "HSB_WORK_MODE_ALL \<equiv> 0xFF"

definition HSB_WORK_MODE_VALID :: "u32 \<Rightarrow> bool" where
  "HSB_WORK_MODE_VALID x \<longleftrightarrow> HSB_WORK_MODE_HOME \<le> x \<and> x < HSB_WORK_MODE_LAST"

abbreviation (input) HSB_ACT_TYPE_ALARM :: u16 where "HSB_ACT_TYPE_ALARM \<equiv> 0"
abbreviation (input) HSB_ACT_TYPE_REMOTE_CONTROL :: u16 where "HSB_ACT_TYPE_REMOTE_CONTROL \<equiv> 1"

abbreviation (input) HSB_EVT_TYPE_STATUS_UPDATED :: u16 where "HSB_EVT_TYPE_STATUS_UPDATED \<equiv> 0"
abbreviation (input) HSB_EVT_TYPE_DEV_UPDATED :: u16 where "HSB_EVT_TYPE_DEV_UPDATED \<equiv> 1"
abbreviation (input) HSB_EVT_TYPE_SENSOR_TRIGGERED :: u16 where "HSB_EVT_TYPE_SENSOR_TRIGGERED \<equiv> 2"
abbreviation (input) HSB_EVT_TYPE_SENSOR_RECOVERED :: u16 where "HSB_EVT_TYPE_SENSOR_RECOVERED \<equiv> 3"
abbreviation (input) HSB_EVT_TYPE_MODE_CHANGED :: u16 where "HSB_EVT_TYPE_MODE_CHANGED \<equiv> 4"
abbreviation (input) HSB_EVT_TYPE_IR_KEY :: u16 where "HSB_EVT_TYPE_IR_KEY \<equiv> 5"

abbreviation (input) HSB_DEV_UPDATED_TYPE_OFFLINE :: u16 where "HSB_DEV_UPDATED_TYPE_OFFLINE \<equiv> 0"
abbreviation (input) HSB_DEV_UPDATED_TYPE_NEW_ADD :: u16 where "HSB_DEV_UPDATED_TYPE_NEW_ADD \<equiv> 1"
abbreviation (input) HSB_DEV_UPDATED_TYPE_ONLINE :: u16 where "HSB_DEV_UPDATED_TYPE_ONLINE \<equiv> 2"

section \<open>Requests and responses\<close>

record HSB_ACTION_T =
  act_devid :: u32
  act_id :: u16
  act_param1 :: u16
  act_param2 :: u32

record HSB_EVT_T =
  evt_devid :: u32
  evt_id :: u16
  evt_param1 :: u16
  evt_param2 :: u32

record HSB_STATUS_T =
  st_devid :: u32
  st_num :: u32
  st_id :: "u16 list"
  st_val :: "u16 list"

record HSB_PROBE_T =
  probe_drvid :: u32

text \<open>
  The \<^verbatim>\<open>void *reply\<close> of a request is NULL or points to the context of the TCP client that
  waits for the answer: the index of that context in the client pool.
\<close>

type_synonym reply = "nat option"

datatype HSB_ACT_T =
    HSB_ACT_TYPE_PROBE reply HSB_PROBE_T
  | HSB_ACT_TYPE_SET_STATUS reply HSB_STATUS_T
  | HSB_ACT_TYPE_GET_STATUS reply HSB_STATUS_T
  | HSB_ACT_TYPE_DO_ACTION reply HSB_ACTION_T

datatype HSB_RESP_T =
    HSB_RESP_TYPE_RESULT reply int
  | HSB_RESP_TYPE_EVENT reply HSB_EVT_T
  | HSB_RESP_TYPE_STATUS reply HSB_STATUS_T

primrec resp_reply :: "HSB_RESP_T \<Rightarrow> reply" where
  "resp_reply (HSB_RESP_TYPE_RESULT r v) = r"
| "resp_reply (HSB_RESP_TYPE_EVENT r e) = r"
| "resp_reply (HSB_RESP_TYPE_STATUS r st) = r"

primrec is_event :: "HSB_RESP_T \<Rightarrow> bool" where
  "is_event (HSB_RESP_TYPE_RESULT r v) = False"
| "is_event (HSB_RESP_TYPE_EVENT r e) = True"
| "is_event (HSB_RESP_TYPE_STATUS r st) = False"

section \<open>Drivers and devices\<close>

datatype HSB_DEV_OP_T = virtual_switch_op | sample_op

datatype HSB_DEV_DRV_OP_T = virtual_switch_drv_op | cz_drv_op

record HSB_DEV_DRV_T =
  drv_name :: string
  drv_id :: u32
  drv_op :: "HSB_DEV_DRV_OP_T option"

record HSB_TIMER_T =
  tm_id :: u16
  tm_work_mode :: u8
  tm_flag :: u8
  tm_hour :: u8
  tm_min :: u8
  tm_sec :: u8
  tm_wday :: u8
  tm_act_id :: u16
  tm_act_param1 :: u16
  tm_act_param2 :: u32

record HSB_TIMER_STATUS_T =
  ts_active :: bool
  ts_expired :: bool

record HSB_DELAY_T =
  dl_id :: u16
  dl_work_mode :: u8
  dl_flag :: u8
  dl_evt_id :: u16
  dl_evt_param1 :: u16
  dl_evt_param2 :: u32
  dl_act_id :: u16
  dl_act_param1 :: u16
  dl_act_param2 :: u32
  dl_delay_sec :: u32

record HSB_DELAY_STATUS_T =
  ds_active :: bool
  ds_started :: bool
  ds_start_tm :: int

record HSB_LINKAGE_T =
  lk_id :: u16
  lk_work_mode :: u8
  lk_flag :: u8
  lk_evt_id :: u16
  lk_evt_param1 :: u16
  lk_evt_param2 :: u32
  lk_act_devid :: u32
  lk_act_id :: u16
  lk_act_param1 :: u16
  lk_act_param2 :: u32

record HSB_LINKAGE_STATUS_T =
  ls_active :: bool

abbreviation (input) HSB_DEV_MAX_TIMER_NUM :: nat where "HSB_DEV_MAX_TIMER_NUM \<equiv> 32"
abbreviation (input) HSB_DEV_MAX_DELAY_NUM :: nat where "HSB_DEV_MAX_DELAY_NUM \<equiv> 8"
abbreviation (input) HSB_DEV_MAX_LINKAGE_NUM :: nat where "HSB_DEV_MAX_LINKAGE_NUM \<equiv> 8"

record HSB_DEV_INFO_T =
  info_cls :: u32
  info_interface :: u32
  info_mac :: buf

record HSB_DEV_T =
  dev_id :: u32
  dev_status :: u32
  dev_info :: HSB_DEV_INFO_T
  dev_work_mode :: u32
  dev_timer :: "HSB_TIMER_T list"
  dev_timer_status :: "HSB_TIMER_STATUS_T list"
  dev_delay :: "HSB_DELAY_T list"
  dev_delay_status :: "HSB_DELAY_STATUS_T list"
  dev_link :: "HSB_LINKAGE_T list"
  dev_link_status :: "HSB_LINKAGE_STATUS_T list"
  dev_ip :: u32
  dev_idle_time :: u32
  dev_driver :: "HSB_DEV_DRV_T option"
  dev_op :: "HSB_DEV_OP_T option"
  dev_priv_data :: nat

text \<open>The all-zero objects that \<^verbatim>\<open>g_slice_new0\<close> and \<^verbatim>\<open>memset\<close> produce.\<close>

definition zero_timer :: HSB_TIMER_T where
  "zero_timer = \<lparr>tm_id = 0, tm_work_mode = 0, tm_flag = 0, tm_hour = 0, tm_min = 0, tm_sec = 0,
     tm_wday = 0, tm_act_id = 0, tm_act_param1 = 0, tm_act_param2 = 0\<rparr>"

definition zero_timer_status :: HSB_TIMER_STATUS_T where
  "zero_timer_status = \<lparr>ts_active = False, ts_expired = False\<rparr>"

definition zero_delay :: HSB_DELAY_T where
  "zero_delay = \<lparr>dl_id = 0, dl_work_mode = 0, dl_flag = 0, dl_evt_id = 0, dl_evt_param1 = 0,
     dl_evt_param2 = 0, dl_act_id = 0, dl_act_param1 = 0, dl_act_param2 = 0, dl_delay_sec = 0\<rparr>"

definition zero_delay_status :: HSB_DELAY_STATUS_T where
  "zero_delay_status = \<lparr>ds_active = False, ds_started = False, ds_start_tm = 0\<rparr>"

definition zero_linkage :: HSB_LINKAGE_T where
  "zero_linkage = \<lparr>lk_id = 0, lk_work_mode = 0, lk_flag = 0, lk_evt_id = 0, lk_evt_param1 = 0,
     lk_evt_param2 = 0, lk_act_devid = 0, lk_act_id = 0, lk_act_param1 = 0, lk_act_param2 = 0\<rparr>"

definition zero_linkage_status :: HSB_LINKAGE_STATUS_T where
  "zero_linkage_status = \<lparr>ls_active = False\<rparr>"

definition zero_status :: HSB_STATUS_T where
  "zero_status = \<lparr>st_devid = 0, st_num = 0, st_id = replicate 8 0, st_val = replicate 8 0\<rparr>"

definition zero_dev :: HSB_DEV_T where
  "zero_dev = \<lparr>dev_id = 0, dev_status = 0,
     dev_info = \<lparr>info_cls = 0, info_interface = 0, info_mac = replicate 8 0\<rparr>,
     dev_work_mode = 0,
     dev_timer = replicate HSB_DEV_MAX_TIMER_NUM zero_timer,
     dev_timer_status = replicate HSB_DEV_MAX_TIMER_NUM zero_timer_status,
     dev_delay = replicate HSB_DEV_MAX_DELAY_NUM zero_delay,
     dev_delay_status = replicate HSB_DEV_MAX_DELAY_NUM zero_delay_status,
     dev_link = replicate HSB_DEV_MAX_LINKAGE_NUM zero_linkage,
     dev_link_status = replicate HSB_DEV_MAX_LINKAGE_NUM zero_linkage_status,
     dev_ip = 0, dev_idle_time = 0, dev_driver = None, dev_op = None, dev_priv_data = 0\<rparr>"

lemmas zero_defs = zero_timer_def zero_timer_status_def zero_delay_def zero_delay_status_def
  zero_linkage_def zero_linkage_status_def zero_status_def zero_dev_def

section \<open>Shapes\<close>

definition status_shape :: "HSB_STATUS_T \<Rightarrow> bool" where
  "status_shape st \<longleftrightarrow> length (st_id st) = 8 \<and> length (st_val st) = 8"

text \<open>A request the drivers can carry out: they read at most the eight statuses the struct has.\<close>

primrec act_ok :: "HSB_ACT_T \<Rightarrow> bool" where
  "act_ok (HSB_ACT_TYPE_PROBE r p) = True"
| "act_ok (HSB_ACT_TYPE_SET_STATUS r st) = (status_shape st \<and> unat (st_num st) \<le> 8)"
| "act_ok (HSB_ACT_TYPE_GET_STATUS r st) = (status_shape st \<and> unat (st_num st) \<le> 1)"
| "act_ok (HSB_ACT_TYPE_DO_ACTION r a) = True"

text \<open>A response that fits the 64-byte buffer it is sent from.\<close>

primrec resp_ok :: "HSB_RESP_T \<Rightarrow> bool" where
  "resp_ok (HSB_RESP_TYPE_RESULT r v) = True"
| "resp_ok (HSB_RESP_TYPE_EVENT r e) = True"
| "resp_ok (HSB_RESP_TYPE_STATUS r st) = (status_shape st \<and> unat (st_num st) \<le> 8)"

lemma resp_ok_event: "is_event m \<Longrightarrow> resp_ok m"
  by (cases m) simp_all

definition dev_shape :: "HSB_DEV_T \<Rightarrow> bool" where
  "dev_shape d \<longleftrightarrow>
     length (info_mac (dev_info d)) = 8 \<and>
     length (dev_timer d) = HSB_DEV_MAX_TIMER_NUM \<and>
     length (dev_timer_status d) = HSB_DEV_MAX_TIMER_NUM \<and>
     length (dev_delay d) = HSB_DEV_MAX_DELAY_NUM \<and>
     length (dev_delay_status d) = HSB_DEV_MAX_DELAY_NUM \<and>
     length (dev_link d) = HSB_DEV_MAX_LINKAGE_NUM \<and>
     length (dev_link_status d) = HSB_DEV_MAX_LINKAGE_NUM"

lemma zero_dev_shape: "dev_shape zero_dev"
  by (simp add: dev_shape_def zero_defs)

lemma zero_status_shape: "status_shape zero_status"
  by (simp add: status_shape_def zero_defs)

end
