(* ===== verification/Hsb_State.thy ===== *)
theory Hsb_State
  imports Hsb_Types
begin

text \<open>
  The global state of the daemon: \<^verbatim>\<open>gl_dev_cb\<close> of \<^verbatim>\<open>device.c\<close> with its asynchronous
  request queue (\<^verbatim>\<open>lib/thread_utils.c\<close>), \<^verbatim>\<open>client_pool\<close> of \<^verbatim>\<open>network.c\<close>, the two driver
  contexts \<^verbatim>\<open>gl_ctx\<close>, the heap of device objects, and a log of what the daemon sends.
  Devices are shared by pointer between the queues of the registry and the callers of
  \<^verbatim>\<open>_find_dev\<close>, so they live in an explicit store; the two drivers' own device tables
  are single-owner queues and hold their elements by value. \<open>stk_status\<close> and
  \<open>stk_buf\<close> are the indeterminate contents of uninitialised locals: any value is
  allowed there and no theorem fixes one.
\<close>

type_synonym ptr = nat

abbreviation (input) NULL :: ptr where "NULL \<equiv> 0"

section \<open>Components\<close>

record thread_data_control =
  tc_data_queue :: "HSB_ACT_T list"
  tc_mutex :: bool
  tc_active :: bool

record HSB_DEVICE_CB_T =
  cb_queue :: "ptr list"
  cb_mutex :: bool
  cb_offq :: "ptr list"
  cb_driverq :: "HSB_DEV_DRV_T list"
  cb_dev_id :: u32
  cb_work_mode :: u32
  cb_sec_today :: u32
  cb_async_thread_ctl :: thread_data_control

record tcp_client_context =
  ctx_tcp_sockfd :: int
  ctx_un_sockfd :: int
  ctx_listen_path :: string
  ctx_queue :: "HSB_RESP_T list"
  ctx_using :: bool
  ctx_un_msgs :: nat

abbreviation (input) MAX_TCP_CLIENT_NUM :: nat where "MAX_TCP_CLIENT_NUM \<equiv> 5"

record tcp_client_pool =
  pool_context :: "tcp_client_context list"
  pool_mutex :: bool

record VS_INFO_T =
  vsi_dev_class :: u16
  vsi_interface :: u16
  vsi_mac :: buf
  vsi_resv :: buf
  vsi_status_bm :: u32
  vsi_event_bm :: u32
  vsi_action_bm :: u32

record VS_DEV_T =
  vs_id :: u32
  vs_ip :: u32
  vs_idle_time :: u32
  vs_info :: VS_INFO_T

record CZ_INFO_T =
  czi_dev_class :: u16
  czi_interface :: u16
  czi_mac :: buf
  czi_status_bm :: u32
  czi_event_bm :: u32
  czi_action_bm :: u32

record CZ_DEV_T =
  cz_id :: u32
  cz_short_addr :: u16
  cz_end_point :: u16
  cz_idle_time :: u32
  cz_info :: CZ_INFO_T

record CZ_CONTEXT_T =
  cz_queue :: "CZ_DEV_T list"
  cz_condition :: bool
  cz_is_waiting :: bool
  cz_send_buf :: buf
  cz_recv_buf :: buf
  cz_send_len :: nat
  cz_recv_len :: nat
  cz_trans_id :: u16
  cz_cond_mutex :: bool
  cz_un_msgs :: nat

text \<open>What leaves the daemon: bytes on a TCP connection, datagrams, bytes on the UART.\<close>

datatype outgoing =
    TCP_WRITE int buf
  | UDP_REPLY buf
  | UDP_SENDTO u32 nat buf
  | UDP_BROADCAST nat buf
  | UART_WRITE buf

record box =
  dev_heap :: "ptr \<Rightarrow> HSB_DEV_T option"
  next_ptr :: ptr
  dev_cb :: HSB_DEVICE_CB_T
  client_pool :: tcp_client_pool
  vs_queue :: "VS_DEV_T list"
  cz_ctx :: CZ_CONTEXT_T
  sent :: "outgoing list"
  stk_status :: HSB_STATUS_T
  stk_buf :: buf

section \<open>Locks\<close>

text \<open>
  GLib's \<^verbatim>\<open>GMutex\<close> and the default POSIX mutex are not recursive: a thread that locks one
  it holds never continues.
\<close>

definition HSB_DEVICE_CB_LOCK :: "box \<Rightarrow> box option" where
  "HSB_DEVICE_CB_LOCK s =
     (if cb_mutex (dev_cb s) then None else Some (dev_cb_update (cb_mutex_update (\<lambda>_. True)) s))"

definition HSB_DEVICE_CB_UNLOCK :: "box \<Rightarrow> box" where
  "HSB_DEVICE_CB_UNLOCK s = dev_cb_update (cb_mutex_update (\<lambda>_. False)) s"

section \<open>The device store\<close>

definition deref :: "box \<Rightarrow> ptr \<Rightarrow> HSB_DEV_T option" where
  "deref s p = (if p = NULL then None else dev_heap s p)"

definition dev_write :: "box \<Rightarrow> ptr \<Rightarrow> HSB_DEV_T \<Rightarrow> box" where
  "dev_write s p d = s\<lparr>dev_heap := (dev_heap s)(p \<mapsto> d)\<rparr>"

definition g_slice_new0_dev :: "box \<Rightarrow> ptr \<times> box" where
  "g_slice_new0_dev s =
     (next_ptr s, s\<lparr>dev_heap := (dev_heap s)(next_ptr s \<mapsto> zero_dev), next_ptr := next_ptr s + 1\<rparr>)"

definition g_slice_free_dev :: "box \<Rightarrow> ptr \<Rightarrow> box" where
  "g_slice_free_dev s p = s\<lparr>dev_heap := (dev_heap s)(p := None)\<rparr>"

section \<open>The asynchronous request queue (\<^verbatim>\<open>lib/thread_utils.c\<close>)\<close>

definition thread_control_init :: "thread_data_control \<Rightarrow> thread_data_control" where
  "thread_control_init c = c\<lparr>tc_mutex := False, tc_data_queue := [], tc_active := False\<rparr>"

definition thread_control_activate :: "thread_data_control \<Rightarrow> thread_data_control option" where
  "thread_control_activate c =
     (if tc_mutex c then None else Some (c\<lparr>tc_active := True\<rparr>))"

definition thread_control_deactivate :: "thread_data_control \<Rightarrow> thread_data_control option" where
  "thread_control_deactivate c =
     (if tc_mutex c then None else Some (c\<lparr>tc_active := False\<rparr>))"

definition thread_control_push_data ::
  "thread_data_control \<Rightarrow> HSB_ACT_T \<Rightarrow> thread_data_control option" where
  "thread_control_push_data c data =
     (if tc_mutex c then None
      else Some (c\<lparr>tc_data_queue := g_queue_push_tail (tc_data_queue c) data\<rparr>))"

definition thread_control_push_data_head ::
  "thread_data_control \<Rightarrow> HSB_ACT_T \<Rightarrow> thread_data_control option" where
  "thread_control_push_data_head c data =
     (if tc_mutex c then None else Some (c\<lparr>tc_data_queue := data # tc_data_queue c\<rparr>))"

abbreviation async_queue :: "box \<Rightarrow> HSB_ACT_T list" where
  "async_queue s \<equiv> tc_data_queue (cb_async_thread_ctl (dev_cb s))"

definition push_async :: "box \<Rightarrow> HSB_ACT_T \<Rightarrow> box option" where
  "push_async s a =
     Option.bind (thread_control_push_data (cb_async_thread_ctl (dev_cb s)) a)
       (\<lambda>c. Some (dev_cb_update (cb_async_thread_ctl_update (\<lambda>_. c)) s))"

definition send_out :: "box \<Rightarrow> outgoing \<Rightarrow> box" where
  "send_out s x = s\<lparr>sent := sent s @ [x]\<rparr>"

lemmas state_defs [hsb_defs] = HSB_DEVICE_CB_LOCK_def HSB_DEVICE_CB_UNLOCK_def deref_def
  dev_write_def g_slice_new0_dev_def g_slice_free_dev_def thread_control_push_data_def
  push_async_def send_out_def

end
