(* ===== verification/Client_Pool.thy ===== *)
theory Client_Pool
  imports Hsb_State
begin

text \<open>
  The pool of TCP client contexts of \<^verbatim>\<open>core_daemon/network.c\<close> and \<^verbatim>\<open>notify_resp\<close>, through
  which the device layer answers clients: \<^verbatim>\<open>init_client_pool\<close>, \<^verbatim>\<open>get_client_context\<close>,
  \<^verbatim>\<open>put_client_context\<close>, \<^verbatim>\<open>notify_resp\<close>. \<open>ctx_un_msgs\<close> counts the datagrams waiting on the
  context's Unix socket; freeing that socket drops them. The locale \<open>mailboxes\<close> states
  what the rest of the daemon relies on.
\<close>

section \<open>Operations\<close>

definition digit :: "nat \<Rightarrow> char" where
  "digit n = char_of (48 + n)"

definition zero_context :: tcp_client_context where
  "zero_context = \<lparr>ctx_tcp_sockfd = 0, ctx_un_sockfd = 0, ctx_listen_path = [], ctx_queue = [],
     ctx_using = False, ctx_un_msgs = 0\<rparr>"

definition init_client_pool :: "box \<Rightarrow> box" where
  "init_client_pool s = s\<lparr>client_pool :=
     \<lparr>pool_context = map (\<lambda>cnt. zero_context\<lparr>ctx_listen_path :=
        ''/tmp/hsb/core_client_'' @ [digit cnt] @ ''.listen''\<rparr>) [0..<MAX_TCP_CLIENT_NUM],
      pool_mutex = False\<rparr>\<rparr>"

definition pool_lock :: "box \<Rightarrow> box option" where
  "pool_lock s = (if pool_mutex (client_pool s) then None
     else Some (client_pool_update (pool_mutex_update (\<lambda>_. True)) s))"

definition pool_unlock :: "box \<Rightarrow> box" where
  "pool_unlock s = client_pool_update (pool_mutex_update (\<lambda>_. False)) s"

definition ctx_write :: "box \<Rightarrow> nat \<Rightarrow> tcp_client_context \<Rightarrow> box" where
  "ctx_write s i c = client_pool_update (pool_context_update (\<lambda>cs. cs[i := c])) s"

abbreviation contexts :: "box \<Rightarrow> tcp_client_context list" where
  "contexts s \<equiv> pool_context (client_pool s)"

fun find_free :: "nat \<Rightarrow> tcp_client_context list \<Rightarrow> nat" where
  "find_free cnt [] = cnt"
| "find_free cnt (c # cs) = (if \<not> ctx_using c then cnt else find_free (Suc cnt) cs)"

text \<open>\<open>unfd\<close> is what \<^verbatim>\<open>unix_socket_new_listen\<close> returns.\<close>

definition get_client_context :: "box \<Rightarrow> int \<Rightarrow> int \<Rightarrow> (nat option \<times> box) option" where
  "get_client_context s sockfd unfd = do {
     s \<leftarrow> pool_lock s;
     let cnt = find_free 0 (contexts s);
     if cnt = MAX_TCP_CLIENT_NUM then Some (None, pool_unlock s)
     else do {
       c \<leftarrow> arr_get (contexts s) cnt;
       let s = ctx_write s cnt (c\<lparr>ctx_using := True, ctx_tcp_sockfd := sockfd,
                 ctx_un_sockfd := unfd, ctx_un_msgs := 0\<rparr>);
       Some (Some cnt, pool_unlock s)
     }
   }"

definition put_client_context :: "box \<Rightarrow> nat \<Rightarrow> (int \<times> box) option" where
  "put_client_context s i = do {
     s \<leftarrow> pool_lock s;
     c \<leftarrow> arr_get (contexts s) i;
     let s = ctx_write s i (c\<lparr>ctx_using := False, ctx_un_msgs := 0\<rparr>);
     Some (0, pool_unlock s)
   }"

definition notify_body :: "HSB_RESP_T \<Rightarrow> nat \<Rightarrow> box \<Rightarrow> box option" where
  "notify_body msg cnt s = do {
     c \<leftarrow> arr_get (contexts s) cnt;
     if \<not> ctx_using c then Some s
     else if \<not> is_event msg \<and> resp_reply msg \<noteq> Some cnt then Some s
     else Some (ctx_write s cnt (c\<lparr>ctx_queue := g_queue_push_tail (ctx_queue c) msg,
                  ctx_un_msgs := ctx_un_msgs c + 1\<rparr>))
   }"

definition notify_resp :: "box \<Rightarrow> HSB_RESP_T \<Rightarrow> box option" where
  "notify_resp s msg = for_list (notify_body msg) [0..<MAX_TCP_CLIENT_NUM] s"

section \<open>Behaviour\<close>

definition pool_ok :: "box \<Rightarrow> bool" where
  "pool_ok s \<longleftrightarrow> length (contexts s) = MAX_TCP_CLIENT_NUM \<and> \<not> pool_mutex (client_pool s)"

definition addressed :: "HSB_RESP_T \<Rightarrow> nat \<Rightarrow> tcp_client_context \<Rightarrow> bool" where
  "addressed msg i c \<longleftrightarrow> ctx_using c \<and> (is_event msg \<or> resp_reply msg = Some i)"

definition deliver :: "HSB_RESP_T \<Rightarrow> nat \<Rightarrow> tcp_client_context \<Rightarrow> tcp_client_context" where
  "deliver msg i c =
     (if addressed msg i c
      then c\<lparr>ctx_queue := ctx_queue c @ [msg], ctx_un_msgs := Suc (ctx_un_msgs c)\<rparr> else c)"

lemma notify_body_deliver:
  "cnt < length (contexts s) \<Longrightarrow>
   notify_body msg cnt s = Some (ctx_write s cnt (deliver msg cnt (contexts s ! cnt)))"
  by (auto simp: notify_body_def deliver_def addressed_def g_queue_push_tail_def ctx_write_def)

lemma contexts_ctx_write [simp]: "contexts (ctx_write s i c) = (contexts s)[i := c]"
  by (simp add: ctx_write_def)

lemma pool_mutex_ctx_write [simp]: "pool_mutex (client_pool (ctx_write s i c)) = pool_mutex (client_pool s)"
  by (simp add: ctx_write_def)

lemma ctx_write_ctx_write [simp]:
  "ctx_write (ctx_write s i c) j d = client_pool_update (pool_context_update (\<lambda>cs. cs[i := c, j := d])) s"
  by (simp add: ctx_write_def o_def)

text \<open>The loop of \<^verbatim>\<open>notify_resp\<close> updates every context once.\<close>

lemma notify_loop:
  assumes "n \<le> length (contexts s)"
  shows "for_list (notify_body msg) [0..<n] s =
    Some (client_pool_update (pool_context_update
      (\<lambda>cs. map (\<lambda>i. deliver msg i (cs ! i)) [0..<n] @ drop n cs)) s)"
  using assms
proof (induction n)
  case 0
  show ?case by simp
next
  case (Suc n)
  let ?f = "\<lambda>cs. map (\<lambda>i. deliver msg i (cs ! i)) [0..<n] @ drop n cs"
  let ?t = "client_pool_update (pool_context_update ?f) s"
  from Suc have loop: "for_list (notify_body msg) [0..<n] s = Some ?t" by simp
  have lt: "n < length (contexts ?t)" using Suc.prems by simp
  have nth: "contexts ?t ! n = contexts s ! n"
    using Suc.prems by (simp add: nth_append)
  have upd: "(?f (contexts s))[n := d] = map (\<lambda>i. deliver msg i (contexts s ! i)) [0..<n] @ d # drop (Suc n) (contexts s)"
    for d using Suc.prems by (simp add: list_update_append Cons_nth_drop_Suc [symmetric])
  have "for_list (notify_body msg) [0..<Suc n] s = notify_body msg n ?t"
    by (simp add: for_list_append loop)
  also have "\<dots> = Some (ctx_write ?t n (deliver msg n (contexts s ! n)))"
    using notify_body_deliver [OF lt] nth by simp
  also have "ctx_write ?t n (deliver msg n (contexts s ! n)) =
      client_pool_update (pool_context_update
        (\<lambda>cs. map (\<lambda>i. deliver msg i (cs ! i)) [0..<Suc n] @ drop (Suc n) cs)) s"
    using upd by (cases "client_pool s") (simp add: ctx_write_def)
  finally show ?case .
qed

lemma notify_resp_eq:
  assumes "pool_ok s"
  shows "notify_resp s msg = Some (client_pool_update (pool_context_update
      (\<lambda>cs. map (\<lambda>i. deliver msg i (cs ! i)) [0..<MAX_TCP_CLIENT_NUM])) s)"
  using assms notify_loop [of MAX_TCP_CLIENT_NUM s msg]
  by (simp add: notify_resp_def pool_ok_def)

definition delivered :: "box \<Rightarrow> HSB_RESP_T \<Rightarrow> box" where
  "delivered s msg = client_pool_update (pool_context_update
      (\<lambda>cs. map (\<lambda>i. deliver msg i (cs ! i)) [0..<MAX_TCP_CLIENT_NUM])) s"

lemma notify_resp_delivered: "pool_ok s \<Longrightarrow> notify_resp s msg = Some (delivered s msg)"
  by (simp add: notify_resp_eq delivered_def)

lemma pool_ok_delivered [simp]: "pool_ok s \<Longrightarrow> pool_ok (delivered s msg)"
  by (simp add: pool_ok_def delivered_def)

lemma contexts_delivered:
  "i < MAX_TCP_CLIENT_NUM \<Longrightarrow> contexts (delivered s msg) ! i = deliver msg i (contexts s ! i)"
  by (simp add: delivered_def)

section \<open>The contract of the pool\<close>

definition inbox :: "box \<Rightarrow> nat \<Rightarrow> HSB_RESP_T list" where
  "inbox s i = (if i < MAX_TCP_CLIENT_NUM then ctx_queue (contexts s ! i) else [])"

definition client_live :: "box \<Rightarrow> nat \<Rightarrow> bool" where
  "client_live s i \<longleftrightarrow> i < MAX_TCP_CLIENT_NUM \<and> ctx_using (contexts s ! i)"

definition msg_for :: "nat \<Rightarrow> HSB_RESP_T \<Rightarrow> bool" where
  "msg_for i msg \<longleftrightarrow> is_event msg \<or> resp_reply msg = Some i"

locale mailboxes =
  fixes send :: "HSB_RESP_T \<Rightarrow> 's \<Rightarrow> 's option"
    and ok :: "'s \<Rightarrow> bool"
    and live :: "'s \<Rightarrow> nat \<Rightarrow> bool"
    and box_of :: "'s \<Rightarrow> nat \<Rightarrow> HSB_RESP_T list"
  assumes send_ok: "ok s \<Longrightarrow> runs (send msg s) ok"
    and send_live: "ok s \<Longrightarrow> send msg s = Some t \<Longrightarrow> live t i = live s i"
    and send_box: "ok s \<Longrightarrow> send msg s = Some t \<Longrightarrow>
      box_of t i = box_of s i @ (if live s i \<and> msg_for i msg then [msg] else [])"
begin

lemma send_all_ok: "ok s \<Longrightarrow> runs (for_list send msgs s) ok"
  by (rule for_list_runs) (auto intro: send_ok)

lemma send_all_box:
  assumes "ok s" and "for_list send msgs s = Some t"
  shows "box_of t i = box_of s i @ (if live s i then filter (msg_for i) msgs else [])"
  using assms
proof (induction msgs arbitrary: s)
  case Nil
  then show ?case by simp
next
  case (Cons msg msgs)
  then obtain u where u: "send msg s = Some u" and t: "for_list send msgs u = Some t"
    by (auto simp: Option.bind_eq_Some_conv)
  from send_ok [OF Cons.prems(1), of msg] u have "ok u" by simp
  from Cons.IH [OF this t] send_box [OF Cons.prems(1) u] send_live [OF Cons.prems(1) u]
  show ?case by simp
qed

lemma send_all_live:
  assumes "ok s" and "for_list send msgs s = Some t"
  shows "live t i = live s i"
  using assms
proof (induction msgs arbitrary: s)
  case (Cons msg msgs)
  then obtain u where u: "send msg s = Some u" and t: "for_list send msgs u = Some t"
    by (auto simp: Option.bind_eq_Some_conv)
  from send_ok [OF Cons.prems(1), of msg] u have "ok u" by simp
  from Cons.IH [OF this t] send_live [OF Cons.prems(1) u] show ?case by simp
qed simp

end

interpretation pool_boxes: mailboxes "\<lambda>msg s. notify_resp s msg" pool_ok client_live inbox
proof unfold_locales
  fix s t msg i
  assume ok: "pool_ok s" and t: "notify_resp s msg = Some t"
  then have "t = delivered s msg" by (simp add: notify_resp_delivered)
  then show "client_live t i = client_live s i"
    and "inbox t i = inbox s i @ (if client_live s i \<and> msg_for i msg then [msg] else [])"
    by (auto simp: client_live_def inbox_def contexts_delivered deliver_def addressed_def msg_for_def
      split: if_splits)
qed (simp add: notify_resp_delivered)

section \<open>Contexts\<close>

lemma find_free_bounds: "cnt \<le> find_free cnt cs \<and> find_free cnt cs \<le> cnt + length cs"
proof (induction cs arbitrary: cnt)
  case (Cons c cs)
  from Cons [of "Suc cnt"] show ?case by simp
qed simp

lemma find_free_found:
  "find_free cnt cs < cnt + length cs \<Longrightarrow> \<not> ctx_using (cs ! (find_free cnt cs - cnt))"
proof (induction cs arbitrary: cnt)
  case (Cons c cs)
  show ?case
  proof (cases "ctx_using c")
    case True
    then have "find_free cnt (c # cs) = find_free (Suc cnt) cs" by simp
    moreover have "Suc cnt \<le> find_free (Suc cnt) cs" using find_free_bounds by blast
    ultimately show ?thesis using Cons by (simp add: nth_Cons')
  qed simp
qed simp

lemma find_free_full: "find_free cnt cs = cnt + length cs \<longleftrightarrow> (\<forall>c \<in> set cs. ctx_using c)"
proof (induction cs arbitrary: cnt)
  case (Cons c cs)
  show ?case
  proof (cases "ctx_using c")
    case True
    with Cons [of "Suc cnt"] show ?thesis by simp
  qed simp
qed simp

end
