(* ===== verification/Dev_Registry.thy ===== *)
theory Dev_Registry
  imports Client_Pool
begin

text \<open>
  The device registry of \<^verbatim>\<open>core_daemon/device.c\<close>: look-up, creation and registration of
  devices, \<^verbatim>\<open>dev_online\<close> and \<^verbatim>\<open>dev_offline\<close>, the driver list, and the events the registry
  raises (\<^verbatim>\<open>_dev_event\<close> with the linkage rules it triggers). The work mode of the box and
  the pushes onto the asynchronous queue belong here too, since events use them.
\<close>

section \<open>Look-up\<close>

fun get_dev_id_list_loop ::
  "box \<Rightarrow> ptr list \<Rightarrow> u32 list \<Rightarrow> nat \<Rightarrow> (u32 list \<times> nat) option" where
  "get_dev_id_list_loop s [] ids num = Some (ids, num)"
| "get_dev_id_list_loop s (p # ps) ids num =
     (if p = NULL then Some (ids, 0)
      else do {
        d \<leftarrow> deref s p;
        ids \<leftarrow> arr_set ids num (dev_id d);
        get_dev_id_list_loop s ps ids (num + 1)
      })"

definition get_dev_id_list :: "box \<Rightarrow> u32 list \<Rightarrow> (int \<times> u32 list \<times> nat \<times> box) option" where
  "get_dev_id_list s ids = do {
     s \<leftarrow> HSB_DEVICE_CB_LOCK s;
     (ids, num) \<leftarrow> get_dev_id_list_loop s (cb_queue (dev_cb s)) ids 0;
     let s = HSB_DEVICE_CB_UNLOCK s;
     Some (0, ids, num, s)
   }"

fun find_dev_loop :: "box \<Rightarrow> ptr list \<Rightarrow> u32 \<Rightarrow> ptr option" where
  "find_dev_loop s [] devid = Some NULL"
| "find_dev_loop s (p # ps) devid =
     (if p = NULL then find_dev_loop s ps devid
      else do {
        d \<leftarrow> deref s p;
        if dev_id d = devid then Some p else find_dev_loop s ps devid
      })"

definition find_dev :: "box \<Rightarrow> u32 \<Rightarrow> ptr option" where
  "find_dev s devid = find_dev_loop s (cb_queue (dev_cb s)) devid"

definition get_dev_drv :: "box \<Rightarrow> u32 \<Rightarrow> (HSB_DEV_DRV_T option \<times> box) option" where
  "get_dev_drv s devid = do {
     s \<leftarrow> HSB_DEVICE_CB_LOCK s;
     p \<leftarrow> find_dev s devid;
     if p = NULL then Some (None, s)
     else do {
       d \<leftarrow> deref s p;
       case dev_driver d of
         None \<Rightarrow> Some (None, s)
       | Some drv \<Rightarrow> Some (Some drv, HSB_DEVICE_CB_UNLOCK s)
     }
   }"

text \<open>The copy of the device goes to the caller's structure, \<open>out\<close> before the call.\<close>

definition get_dev_info :: "box \<Rightarrow> u32 \<Rightarrow> HSB_DEV_T \<Rightarrow> (int \<times> HSB_DEV_T \<times> box) option" where
  "get_dev_info s devid out = do {
     s \<leftarrow> HSB_DEVICE_CB_LOCK s;
     p \<leftarrow> find_dev s devid;
     (ret, out) \<leftarrow> (if p \<noteq> NULL then do { d \<leftarrow> deref s p; Some (0, d) } else Some (- 1, out));
     Some (ret, out, HSB_DEVICE_CB_UNLOCK s)
   }"

fun find_dev_by_ip_loop :: "box \<Rightarrow> ptr list \<Rightarrow> u32 \<Rightarrow> ptr option" where
  "find_dev_by_ip_loop s [] ip = Some NULL"
| "find_dev_by_ip_loop s (p # ps) ip =
     (if p = NULL then find_dev_by_ip_loop s ps ip
      else do {
        d \<leftarrow> deref s p;
        if ip = dev_ip d then Some p else find_dev_by_ip_loop s ps ip
      })"

definition find_dev_by_ip :: "box \<Rightarrow> u32 \<Rightarrow> ptr option" where
  "find_dev_by_ip s ip = find_dev_by_ip_loop s (cb_queue (dev_cb s)) ip"

section \<open>Drivers\<close>

fun find_drv_loop :: "HSB_DEV_DRV_T list \<Rightarrow> u32 \<Rightarrow> HSB_DEV_DRV_T option" where
  "find_drv_loop [] drvid = None"
| "find_drv_loop (d # ds) drvid = (if drv_id d = drvid then Some d else find_drv_loop ds drvid)"

definition find_drv :: "box \<Rightarrow> u32 \<Rightarrow> HSB_DEV_DRV_T option" where
  "find_drv s drvid = find_drv_loop (cb_driverq (dev_cb s)) drvid"

definition register_dev_drv :: "box \<Rightarrow> HSB_DEV_DRV_T option \<Rightarrow> int \<times> box" where
  "register_dev_drv s drv =
     (case drv of
        None \<Rightarrow> (errno HSB_E_BAD_PARAM, s)
      | Some drv \<Rightarrow>
          (case find_drv_loop (cb_driverq (dev_cb s)) (drv_id drv) of
             Some pdrv \<Rightarrow> (errno HSB_E_ENTRY_EXISTS, s)
           | None \<Rightarrow> (errno HSB_E_OK,
               dev_cb_update (cb_driverq_update (\<lambda>q. g_queue_push_tail q drv)) s)))"

section \<open>Requests for the asynchronous thread\<close>

definition probe_dev_async :: "box \<Rightarrow> HSB_PROBE_T \<Rightarrow> reply \<Rightarrow> (int \<times> box) option" where
  "probe_dev_async s probe reply = do {
     s \<leftarrow> push_async s (HSB_ACT_TYPE_PROBE reply probe);
     Some (errno HSB_E_OK, s)
   }"

definition set_dev_status_async :: "box \<Rightarrow> HSB_STATUS_T \<Rightarrow> reply \<Rightarrow> (int \<times> box) option" where
  "set_dev_status_async s status reply = do {
     s \<leftarrow> push_async s (HSB_ACT_TYPE_SET_STATUS reply status);
     Some (errno HSB_E_OK, s)
   }"

definition get_dev_status_async :: "box \<Rightarrow> u32 \<Rightarrow> reply \<Rightarrow> (int \<times> box) option" where
  "get_dev_status_async s devid reply = do {
     s \<leftarrow> push_async s (HSB_ACT_TYPE_GET_STATUS reply (zero_status\<lparr>st_devid := devid\<rparr>));
     Some (errno HSB_E_OK, s)
   }"

definition set_dev_action_async :: "box \<Rightarrow> HSB_ACTION_T \<Rightarrow> reply \<Rightarrow> (int \<times> box) option" where
  "set_dev_action_async s act reply = do {
     s \<leftarrow> push_async s (HSB_ACT_TYPE_DO_ACTION reply act);
     Some (errno HSB_E_OK, s)
   }"

section \<open>Events and linkage\<close>

text \<open>
  The local \<^verbatim>\<open>HSB_STATUS_T stat\<close> of the linkage, timer and delay code is uninitialised but
  for the three members it sets.
\<close>

definition one_status :: "box \<Rightarrow> u32 \<Rightarrow> u16 \<Rightarrow> u16 \<Rightarrow> HSB_STATUS_T option" where
  "one_status s devid sid v = do {
     ids \<leftarrow> arr_set (st_id (stk_status s)) 0 sid;
     vals \<leftarrow> arr_set (st_val (stk_status s)) 0 v;
     Some \<lparr>st_devid = devid, st_num = 1, st_id = ids, st_val = vals\<rparr>
   }"

definition check_linkage_body ::
  "HSB_DEV_T \<Rightarrow> u32 \<Rightarrow> HSB_EVT_T \<Rightarrow> nat \<Rightarrow> box \<Rightarrow> box option" where
  "check_linkage_body d work_mode evt i s = do {
     link \<leftarrow> arr_get (dev_link d) i;
     status \<leftarrow> arr_get (dev_link_status d) i;
     if \<not> ls_active status then Some s
     else if \<not> CHECK_BIT (lk_work_mode link) (unat work_mode) then Some s
     else if evt_id evt \<noteq> lk_evt_id link \<or> evt_param1 evt \<noteq> lk_evt_param1 link \<or>
             evt_param2 evt \<noteq> lk_evt_param2 link then Some s
     else if CHECK_BIT (lk_flag link) 0 then do {
       (r, s) \<leftarrow> set_dev_action_async s
         \<lparr>act_devid = lk_act_devid link, act_id = lk_act_id link,
          act_param1 = lk_act_param1 link, act_param2 = lk_act_param2 link\<rparr> None;
       Some s
     } else do {
       stat \<leftarrow> one_status s (lk_act_devid link) (lk_act_id link) (lk_act_param1 link);
       (r, s) \<leftarrow> set_dev_status_async s stat None;
       Some s
     }
   }"

definition check_linkage :: "box \<Rightarrow> u32 \<Rightarrow> HSB_EVT_T \<Rightarrow> (int \<times> box) option" where
  "check_linkage s devid evt = do {
     p \<leftarrow> find_dev s devid;
     if p = NULL then Some (errno HSB_E_OTHERS, s)
     else do {
       d \<leftarrow> deref s p;
       let work_mode = cb_work_mode (dev_cb s);
       if \<not> CHECK_BIT (dev_work_mode d) (unat work_mode) then Some (errno HSB_E_OTHERS, s)
       else do {
         s \<leftarrow> for_list (check_linkage_body d work_mode evt) [0..<HSB_DEV_MAX_LINKAGE_NUM] s;
         Some (errno HSB_E_OK, s)
       }
     }
   }"

definition dev_event :: "box \<Rightarrow> u32 \<Rightarrow> u16 \<Rightarrow> u16 \<Rightarrow> u32 \<Rightarrow> box option" where
  "dev_event s devid type param1 param2 = do {
     let evt = \<lparr>evt_devid = devid, evt_id = type, evt_param1 = param1, evt_param2 = param2\<rparr>;
     (r, s) \<leftarrow> check_linkage s devid evt;
     notify_resp s (HSB_RESP_TYPE_EVENT None evt)
   }"

definition dev_status_updated :: "box \<Rightarrow> u32 \<Rightarrow> HSB_STATUS_T \<Rightarrow> box option" where
  "dev_status_updated s devid status = do {
     sid \<leftarrow> arr_get (st_id status) 0;
     v \<leftarrow> arr_get (st_val status) 0;
     dev_event s devid HSB_EVT_TYPE_STATUS_UPDATED sid (ucast v)
   }"

definition dev_updated :: "box \<Rightarrow> u32 \<Rightarrow> u16 \<Rightarrow> box option" where
  "dev_updated s devid type = dev_event s devid HSB_EVT_TYPE_DEV_UPDATED type 0"

definition dev_sensor_triggered :: "box \<Rightarrow> u32 \<Rightarrow> u16 \<Rightarrow> box option" where
  "dev_sensor_triggered s devid type = dev_event s devid HSB_EVT_TYPE_SENSOR_TRIGGERED type 0"

definition dev_sensor_recovered :: "box \<Rightarrow> u32 \<Rightarrow> u16 \<Rightarrow> box option" where
  "dev_sensor_recovered s devid type = dev_event s devid HSB_EVT_TYPE_SENSOR_RECOVERED type 0"

definition dev_ir_key :: "box \<Rightarrow> u32 \<Rightarrow> u16 \<Rightarrow> u32 \<Rightarrow> box option" where
  "dev_ir_key s devid param1 param2 = dev_event s devid HSB_EVT_TYPE_IR_KEY param1 param2"

definition dev_mode_changed :: "box \<Rightarrow> u32 \<Rightarrow> box option" where
  "dev_mode_changed s mode = dev_event s 0 HSB_EVT_TYPE_MODE_CHANGED (ucast mode) 0"

definition set_box_work_mode :: "box \<Rightarrow> u32 \<Rightarrow> (int \<times> box) option" where
  "set_box_work_mode s mode =
     (if \<not> HSB_WORK_MODE_VALID mode then Some (errno HSB_E_BAD_PARAM, s)
      else do {
        let s = dev_cb_update (cb_work_mode_update (\<lambda>_. mode)) s;
        s \<leftarrow> dev_mode_changed s mode;
        Some (errno HSB_E_OK, s)
      })"

definition get_box_work_mode :: "box \<Rightarrow> u32" where
  "get_box_work_mode s = cb_work_mode (dev_cb s)"

section \<open>Creating, registering and moving devices\<close>

definition alloc_dev_id :: "box \<Rightarrow> (u32 \<times> box) option" where
  "alloc_dev_id s = do {
     s \<leftarrow> HSB_DEVICE_CB_LOCK s;
     let devid = cb_dev_id (dev_cb s);
     let s = dev_cb_update (cb_dev_id_update (\<lambda>i. i + 1)) s;
     Some (devid, HSB_DEVICE_CB_UNLOCK s)
   }"

definition create_dev :: "box \<Rightarrow> (ptr \<times> box) option" where
  "create_dev s = do {
     let (p, s) = g_slice_new0_dev s;
     (devid, s) \<leftarrow> alloc_dev_id s;
     d \<leftarrow> deref s p;
     Some (p, dev_write s p (d\<lparr>dev_id := devid, dev_work_mode := HSB_WORK_MODE_ALL\<rparr>))
   }"

definition destroy_dev :: "box \<Rightarrow> ptr \<Rightarrow> int \<times> box" where
  "destroy_dev s p = (0, g_slice_free_dev s p)"

definition register_dev :: "box \<Rightarrow> ptr \<Rightarrow> (int \<times> box) option" where
  "register_dev s p = do {
     s \<leftarrow> HSB_DEVICE_CB_LOCK s;
     let s = dev_cb_update (cb_queue_update (\<lambda>q. g_queue_push_tail q p)) s;
     let s = HSB_DEVICE_CB_UNLOCK s;
     d \<leftarrow> deref s p;
     s \<leftarrow> dev_updated s (dev_id d) HSB_DEV_UPDATED_TYPE_NEW_ADD;
     Some (0, s)
   }"

definition remove_dev :: "box \<Rightarrow> ptr \<Rightarrow> (int \<times> box) option" where
  "remove_dev s p = do {
     s \<leftarrow> HSB_DEVICE_CB_LOCK s;
     let s = dev_cb_update (cb_queue_update (\<lambda>q. remove1 p q)) s;
     let s = HSB_DEVICE_CB_UNLOCK s;
     d \<leftarrow> deref s p;
     s \<leftarrow> dev_updated s (dev_id d) HSB_DEV_UPDATED_TYPE_OFFLINE;
     Some (0, s)
   }"

text \<open>
  The scans of \<^verbatim>\<open>dev_online\<close> and \<^verbatim>\<open>dev_offline\<close> keep the index at which they stop and the
  pointer found there; an index equal to the length means not found.
\<close>

fun offq_scan :: "box \<Rightarrow> ptr list \<Rightarrow> u32 \<Rightarrow> buf \<Rightarrow> nat \<Rightarrow> (nat \<times> ptr) option" where
  "offq_scan s [] drvid mac i = Some (i, NULL)"
| "offq_scan s (p # ps) drvid mac i =
     (if p = NULL then offq_scan s ps drvid mac (i + 1)
      else do {
        d \<leftarrow> deref s p;
        drv \<leftarrow> dev_driver d;
        if drv_id drv = drvid \<and> info_mac (dev_info d) = mac then Some (i, p)
        else offq_scan s ps drvid mac (i + 1)
      })"

definition dev_online ::
  "box \<Rightarrow> u32 \<Rightarrow> HSB_DEV_INFO_T \<Rightarrow> HSB_DEV_OP_T \<Rightarrow> (int \<times> u32 \<times> box) option" where
  "dev_online s drvid info op = do {
     s \<leftarrow> HSB_DEVICE_CB_LOCK s;
     let len = length (cb_offq (dev_cb s));
     (i, pdev) \<leftarrow> offq_scan s (cb_offq (dev_cb s)) drvid (info_mac info) 0;
     let s = HSB_DEVICE_CB_UNLOCK s;
     if i = len then do {
       (pdev, s) \<leftarrow> create_dev s;
       d \<leftarrow> deref s pdev;
       let s = dev_write s pdev (d\<lparr>dev_driver := find_drv s drvid, dev_op := Some op,
                 dev_info := info\<rparr>);
       s \<leftarrow> HSB_DEVICE_CB_LOCK s;
       let s = dev_cb_update (cb_queue_update (\<lambda>q. g_queue_push_tail q pdev)) s;
       let s = HSB_DEVICE_CB_UNLOCK s;
       d \<leftarrow> deref s pdev;
       s \<leftarrow> dev_updated s (dev_id d) HSB_DEV_UPDATED_TYPE_NEW_ADD;
       Some (errno HSB_E_OK, dev_id d, s)
     } else do {
       let s = dev_cb_update (cb_offq_update (\<lambda>q. g_queue_pop_nth q i)) s;
       s \<leftarrow> HSB_DEVICE_CB_LOCK s;
       let s = dev_cb_update (cb_queue_update (\<lambda>q. g_queue_push_tail q pdev)) s;
       let s = HSB_DEVICE_CB_UNLOCK s;
       d \<leftarrow> deref s pdev;
       s \<leftarrow> dev_updated s (dev_id d) HSB_DEV_UPDATED_TYPE_ONLINE;
       Some (errno HSB_E_OK, dev_id d, s)
     }
   }"

fun queue_scan :: "box \<Rightarrow> ptr list \<Rightarrow> u32 \<Rightarrow> nat \<Rightarrow> (nat \<times> ptr) option" where
  "queue_scan s [] devid i = Some (i, NULL)"
| "queue_scan s (p # ps) devid i =
     (if p = NULL then queue_scan s ps devid (i + 1)
      else do {
        d \<leftarrow> deref s p;
        if dev_id d = devid then Some (i, p) else queue_scan s ps devid (i + 1)
      })"

definition dev_offline :: "box \<Rightarrow> u32 \<Rightarrow> (int \<times> box) option" where
  "dev_offline s devid = do {
     s \<leftarrow> HSB_DEVICE_CB_LOCK s;
     let len = length (cb_queue (dev_cb s));
     (i, pdev) \<leftarrow> queue_scan s (cb_queue (dev_cb s)) devid 0;
     if i = len then Some (errno HSB_E_OTHERS, HSB_DEVICE_CB_UNLOCK s)
     else do {
       let s = dev_cb_update (cb_queue_update (\<lambda>q. g_queue_pop_nth q i)) s;
       let s = dev_cb_update (cb_offq_update (\<lambda>q. g_queue_push_tail q pdev)) s;
       let s = HSB_DEVICE_CB_UNLOCK s;
       s \<leftarrow> dev_updated s devid HSB_DEV_UPDATED_TYPE_OFFLINE;
       Some (errno HSB_E_OK, s)
     }
   }"

section \<open>The invariant of the registry\<close>

definition dev_obj_ok :: "box \<Rightarrow> ptr \<Rightarrow> HSB_DEV_T \<Rightarrow> bool" where
  "dev_obj_ok s p d \<longleftrightarrow> 0 < p \<and> p < next_ptr s \<and> dev_id d = of_nat p \<and> dev_shape d"

definition dev_ok :: "box \<Rightarrow> bool" where
  "dev_ok s \<longleftrightarrow>
     distinct (cb_queue (dev_cb s) @ cb_offq (dev_cb s)) \<and>
     (\<forall>p \<in> set (cb_queue (dev_cb s) @ cb_offq (dev_cb s)).
        \<exists>d. dev_heap s p = Some d \<and> dev_driver d \<noteq> None) \<and>
     (\<forall>p d. dev_heap s p = Some d \<longrightarrow> dev_obj_ok s p d) \<and>
     0 < next_ptr s \<and> cb_dev_id (dev_cb s) = of_nat (next_ptr s) \<and>
     \<not> cb_mutex (dev_cb s) \<and> \<not> tc_mutex (cb_async_thread_ctl (dev_cb s)) \<and>
     HSB_WORK_MODE_VALID (cb_work_mode (dev_cb s)) \<and>
     status_shape (stk_status s) \<and> (\<forall>a \<in> set (async_queue s). act_ok a) \<and> pool_ok s"

lemma dev_okD:
  assumes "dev_ok s"
  shows "distinct (cb_queue (dev_cb s))" "distinct (cb_offq (dev_cb s))"
    "set (cb_queue (dev_cb s)) \<inter> set (cb_offq (dev_cb s)) = {}"
    "0 < next_ptr s" "cb_dev_id (dev_cb s) = of_nat (next_ptr s)"
    "\<not> cb_mutex (dev_cb s)" "\<not> tc_mutex (cb_async_thread_ctl (dev_cb s))"
    "HSB_WORK_MODE_VALID (cb_work_mode (dev_cb s))" "status_shape (stk_status s)" "pool_ok s"
  using assms by (auto simp: dev_ok_def)

lemma dev_ok_obj: "dev_ok s \<Longrightarrow> dev_heap s p = Some d \<Longrightarrow> dev_obj_ok s p d"
  by (simp add: dev_ok_def)

lemma dev_ok_queue:
  "dev_ok s \<Longrightarrow> p \<in> set (cb_queue (dev_cb s)) \<Longrightarrow> \<exists>d. deref s p = Some d \<and> dev_driver d \<noteq> None"
  unfolding dev_ok_def deref_def dev_obj_ok_def by (metis UnCI less_not_refl set_append)

lemma dev_ok_offq:
  "dev_ok s \<Longrightarrow> p \<in> set (cb_offq (dev_cb s)) \<Longrightarrow> \<exists>d. deref s p = Some d \<and> dev_driver d \<noteq> None"
  unfolding dev_ok_def deref_def dev_obj_ok_def by (metis UnCI less_not_refl set_append)

text \<open>The device object behind a pointer that is known to be live.\<close>

definition dev_at :: "box \<Rightarrow> ptr \<Rightarrow> HSB_DEV_T" where
  "dev_at s p = the (dev_heap s p)"

definition live_list :: "box \<Rightarrow> ptr list \<Rightarrow> bool" where
  "live_list s ps \<longleftrightarrow> (\<forall>p \<in> set ps. deref s p = Some (dev_at s p) \<and> dev_driver (dev_at s p) \<noteq> None)"

lemma deref_live: "deref s p = Some d \<Longrightarrow> p \<noteq> 0 \<and> dev_heap s p = Some d \<and> dev_at s p = d"
  by (auto simp: deref_def dev_at_def split: if_splits)

lemma live_queue: "dev_ok s \<Longrightarrow> live_list s (cb_queue (dev_cb s))"
  using dev_ok_queue deref_live by (fastforce simp: live_list_def)

lemma live_offq: "dev_ok s \<Longrightarrow> live_list s (cb_offq (dev_cb s))"
  using dev_ok_offq deref_live by (fastforce simp: live_list_def)

lemma live_list_Cons [simp]:
  "live_list s (p # ps) \<longleftrightarrow>
     0 < p \<and> deref s p = Some (dev_at s p) \<and> dev_driver (dev_at s p) \<noteq> None \<and> live_list s ps"
  by (auto simp: live_list_def deref_def split: if_splits)

lemma deref_null [simp]: "deref s 0 = None"
  by (simp add: deref_def)

section \<open>Look-up computes a search\<close>

definition ptr_or_null :: "ptr option \<Rightarrow> ptr" where
  "ptr_or_null r = (case r of None \<Rightarrow> 0 | Some p \<Rightarrow> p)"

lemma ptr_or_null_simps [simp]: "ptr_or_null None = 0" "ptr_or_null (Some p) = p"
  by (simp_all add: ptr_or_null_def)

lemma find_dev_loop_find:
  "live_list s ps \<Longrightarrow>
   find_dev_loop s ps devid = Some (ptr_or_null (find (\<lambda>p. dev_id (dev_at s p) = devid) ps))"
  by (induction ps) auto

lemma find_dev_find:
  "dev_ok s \<Longrightarrow> find_dev s devid =
     Some (ptr_or_null (find (\<lambda>p. dev_id (dev_at s p) = devid) (cb_queue (dev_cb s))))"
  by (simp add: find_dev_def find_dev_loop_find live_queue)

lemma find_dev_cases:
  assumes "dev_ok s"
  obtains (absent) "find_dev s devid = Some 0"
      "\<forall>p \<in> set (cb_queue (dev_cb s)). dev_id (dev_at s p) \<noteq> devid"
  | (present) p d where "find_dev s devid = Some p" "p \<in> set (cb_queue (dev_cb s))" "p \<noteq> 0"
      "deref s p = Some d" "dev_id d = devid" "dev_shape d" "dev_at s p = d" "dev_driver d \<noteq> None"
proof (cases "find (\<lambda>p. dev_id (dev_at s p) = devid) (cb_queue (dev_cb s))")
  case None
  then have "find_dev s devid = Some 0" using assms by (simp add: find_dev_find)
  then show ?thesis using None by (intro absent) (auto simp: find_None_iff)
next
  case (Some p)
  then have p: "p \<in> set (cb_queue (dev_cb s))" and i: "dev_id (dev_at s p) = devid"
    by (auto simp: find_Some_iff)
  from dev_ok_queue [OF assms p] obtain d where d: "deref s p = Some d" "dev_driver d \<noteq> None"
    by blast
  with deref_live have "p \<noteq> 0" "dev_heap s p = Some d" "dev_at s p = d" by auto
  moreover from this dev_ok_obj [OF assms] have "dev_shape d" by (simp add: dev_obj_ok_def)
  ultimately show ?thesis using present [of p d] p i d Some assms
    by (simp add: find_dev_find)
qed

section \<open>What an event does\<close>

definition pushed :: "box \<Rightarrow> HSB_ACT_T list \<Rightarrow> box" where
  "pushed s acts =
     dev_cb_update (cb_async_thread_ctl_update (tc_data_queue_update (\<lambda>q. q @ acts))) s"

lemma pushed_Nil [simp]: "pushed s [] = s"
  by (simp add: pushed_def)

lemma pushed_pushed [simp]: "pushed (pushed s a) b = pushed s (a @ b)"
  by (simp add: pushed_def o_def)

lemma push_async_pushed:
  "\<not> tc_mutex (cb_async_thread_ctl (dev_cb s)) \<Longrightarrow> push_async s a = Some (pushed s [a])"
  by (simp add: push_async_def thread_control_push_data_def pushed_def g_queue_push_tail_def)

lemma pushed_simps [simp]:
  "dev_heap (pushed s acts) = dev_heap s" "next_ptr (pushed s acts) = next_ptr s"
  "client_pool (pushed s acts) = client_pool s" "vs_queue (pushed s acts) = vs_queue s"
  "cz_ctx (pushed s acts) = cz_ctx s" "sent (pushed s acts) = sent s"
  "stk_status (pushed s acts) = stk_status s" "stk_buf (pushed s acts) = stk_buf s"
  "cb_queue (dev_cb (pushed s acts)) = cb_queue (dev_cb s)"
  "cb_offq (dev_cb (pushed s acts)) = cb_offq (dev_cb s)"
  "cb_mutex (dev_cb (pushed s acts)) = cb_mutex (dev_cb s)"
  "cb_driverq (dev_cb (pushed s acts)) = cb_driverq (dev_cb s)"
  "cb_dev_id (dev_cb (pushed s acts)) = cb_dev_id (dev_cb s)"
  "cb_work_mode (dev_cb (pushed s acts)) = cb_work_mode (dev_cb s)"
  "cb_sec_today (dev_cb (pushed s acts)) = cb_sec_today (dev_cb s)"
  "tc_mutex (cb_async_thread_ctl (dev_cb (pushed s acts))) = tc_mutex (cb_async_thread_ctl (dev_cb s))"
  "tc_active (cb_async_thread_ctl (dev_cb (pushed s acts))) = tc_active (cb_async_thread_ctl (dev_cb s))"
  "async_queue (pushed s acts) = async_queue s @ acts"
  by (simp_all add: pushed_def)

lemma delivered_simps [simp]:
  "dev_heap (delivered s m) = dev_heap s" "next_ptr (delivered s m) = next_ptr s"
  "dev_cb (delivered s m) = dev_cb s" "vs_queue (delivered s m) = vs_queue s"
  "cz_ctx (delivered s m) = cz_ctx s" "sent (delivered s m) = sent s"
  "stk_status (delivered s m) = stk_status s" "stk_buf (delivered s m) = stk_buf s"
  by (simp_all add: delivered_def)

lemma pool_ok_pushed [simp]: "pool_ok (pushed s acts) = pool_ok s"
  by (simp add: pool_ok_def)

text \<open>The reference description of the linkage rules of one device, slot by slot.\<close>

definition link_fires :: "HSB_DEV_T \<Rightarrow> u32 \<Rightarrow> HSB_EVT_T \<Rightarrow> nat \<Rightarrow> bool" where
  "link_fires d mode evt i \<longleftrightarrow>
     (let link = dev_link d ! i in
      ls_active (dev_link_status d ! i) \<and> bit (lk_work_mode link) (unat mode) \<and>
      evt_id evt = lk_evt_id link \<and> evt_param1 evt = lk_evt_param1 link \<and>
      evt_param2 evt = lk_evt_param2 link)"

definition set_one :: "HSB_STATUS_T \<Rightarrow> u32 \<Rightarrow> u16 \<Rightarrow> u16 \<Rightarrow> HSB_STATUS_T" where
  "set_one stk devid sid v =
     \<lparr>st_devid = devid, st_num = 1, st_id = (st_id stk)[0 := sid], st_val = (st_val stk)[0 := v]\<rparr>"

definition link_act :: "HSB_STATUS_T \<Rightarrow> HSB_LINKAGE_T \<Rightarrow> HSB_ACT_T" where
  "link_act stk link =
     (if bit (lk_flag link) 0
      then HSB_ACT_TYPE_DO_ACTION None
             \<lparr>act_devid = lk_act_devid link, act_id = lk_act_id link,
              act_param1 = lk_act_param1 link, act_param2 = lk_act_param2 link\<rparr>
      else HSB_ACT_TYPE_SET_STATUS None
             (set_one stk (lk_act_devid link) (lk_act_id link) (lk_act_param1 link)))"

definition device_links :: "HSB_STATUS_T \<Rightarrow> HSB_DEV_T \<Rightarrow> u32 \<Rightarrow> HSB_EVT_T \<Rightarrow> HSB_ACT_T list" where
  "device_links stk d mode evt =
     map (\<lambda>i. link_act stk (dev_link d ! i)) (filter (link_fires d mode evt) [0..<HSB_DEV_MAX_LINKAGE_NUM])"

definition linkage_acts :: "box \<Rightarrow> u32 \<Rightarrow> HSB_EVT_T \<Rightarrow> HSB_ACT_T list" where
  "linkage_acts s devid evt =
     (case find (\<lambda>p. dev_id (dev_at s p) = devid) (cb_queue (dev_cb s)) of
        None \<Rightarrow> []
      | Some p \<Rightarrow>
          if bit (dev_work_mode (dev_at s p)) (unat (cb_work_mode (dev_cb s)))
          then device_links (stk_status s) (dev_at s p) (cb_work_mode (dev_cb s)) evt else [])"

lemma one_status_set_one:
  "status_shape (stk_status s) \<Longrightarrow> one_status s devid sid v = Some (set_one (stk_status s) devid sid v)"
  by (simp add: one_status_def set_one_def status_shape_def)

lemma check_linkage_body_eq:
  assumes "dev_shape d" and "status_shape (stk_status s)"
    and "\<not> tc_mutex (cb_async_thread_ctl (dev_cb s))" and "i < HSB_DEV_MAX_LINKAGE_NUM"
  shows "check_linkage_body d mode evt i s =
    Some (pushed s (if link_fires d mode evt i then [link_act (stk_status s) (dev_link d ! i)] else []))"
  using assms
  by (simp add: check_linkage_body_def dev_shape_def link_fires_def link_act_def Let_def
      set_dev_action_async_def set_dev_status_async_def one_status_set_one push_async_pushed
      CHECK_BIT_bit)

lemma check_linkage_loop:
  assumes "dev_shape d" and "status_shape (stk_status s)"
    and "\<not> tc_mutex (cb_async_thread_ctl (dev_cb s))" and "\<forall>i \<in> set is. i < HSB_DEV_MAX_LINKAGE_NUM"
  shows "for_list (check_linkage_body d mode evt) is s =
    Some (pushed s (map (\<lambda>i. link_act (stk_status s) (dev_link d ! i)) (filter (link_fires d mode evt) is)))"
  using assms
proof (induction "is" arbitrary: s)
  case (Cons i "is")
  then show ?case by (simp add: check_linkage_body_eq)
qed simp

lemma check_linkage_eq:
  assumes "dev_ok s"
  shows "\<exists>r. check_linkage s devid evt = Some (r, pushed s (linkage_acts s devid evt))"
proof (cases "find (\<lambda>p. dev_id (dev_at s p) = devid) (cb_queue (dev_cb s))")
  case None
  with assms show ?thesis by (simp add: check_linkage_def find_dev_find linkage_acts_def)
next
  case (Some p)
  then have p: "p \<in> set (cb_queue (dev_cb s))" by (auto simp: find_Some_iff)
  from dev_ok_queue [OF assms p] deref_live have d: "deref s p = Some (dev_at s p)" "p \<noteq> 0"
    by fastforce+
  then have "dev_heap s p = Some (dev_at s p)" by (simp add: deref_def)
  with dev_ok_obj [OF assms] have "dev_shape (dev_at s p)" by (simp add: dev_obj_ok_def)
  with Some d assms show ?thesis
    by (auto simp: check_linkage_def find_dev_find linkage_acts_def check_linkage_loop dev_okD
        device_links_def CHECK_BIT_bit)
qed

definition event_out :: "box \<Rightarrow> u32 \<Rightarrow> u16 \<Rightarrow> u16 \<Rightarrow> u32 \<Rightarrow> box" where
  "event_out s devid type param1 param2 =
     (let evt = \<lparr>evt_devid = devid, evt_id = type, evt_param1 = param1, evt_param2 = param2\<rparr>
      in delivered (pushed s (linkage_acts s devid evt)) (HSB_RESP_TYPE_EVENT None evt))"

lemma dev_event_eq:
  "dev_ok s \<Longrightarrow> dev_event s devid type param1 param2 = Some (event_out s devid type param1 param2)"
  using check_linkage_eq [of s devid
      "\<lparr>evt_devid = devid, evt_id = type, evt_param1 = param1, evt_param2 = param2\<rparr>"]
  by (auto simp: dev_event_def event_out_def Let_def notify_resp_delivered dev_okD)

lemma dev_ok_pushed: "dev_ok s \<Longrightarrow> \<forall>a \<in> set acts. act_ok a \<Longrightarrow> dev_ok (pushed s acts)"
  by (auto simp: dev_ok_def dev_obj_ok_def)

lemma set_one_simps [simp]:
  "status_shape (set_one stk devid sid v) = status_shape stk" "st_num (set_one stk devid sid v) = 1"
  "st_devid (set_one stk devid sid v) = devid"
  by (simp_all add: set_one_def status_shape_def)

lemma act_ok_linkage: "status_shape (stk_status s) \<Longrightarrow> \<forall>a \<in> set (linkage_acts s devid evt). act_ok a"
  by (auto simp: linkage_acts_def device_links_def link_act_def split: option.splits)

lemma dev_ok_delivered [simp]: "dev_ok s \<Longrightarrow> dev_ok (delivered s msg)"
  by (simp add: dev_ok_def dev_obj_ok_def)

lemma dev_ok_event_out: "dev_ok s \<Longrightarrow> dev_ok (event_out s devid type param1 param2)"
  unfolding event_out_def Let_def
  by (intro dev_ok_delivered dev_ok_pushed act_ok_linkage) (simp_all add: dev_okD)

lemma event_out_simps [simp]:
  "dev_heap (event_out s i ty p q) = dev_heap s" "next_ptr (event_out s i ty p q) = next_ptr s"
  "vs_queue (event_out s i ty p q) = vs_queue s" "cz_ctx (event_out s i ty p q) = cz_ctx s"
  "sent (event_out s i ty p q) = sent s" "stk_status (event_out s i ty p q) = stk_status s"
  "stk_buf (event_out s i ty p q) = stk_buf s"
  "cb_queue (dev_cb (event_out s i ty p q)) = cb_queue (dev_cb s)"
  "cb_offq (dev_cb (event_out s i ty p q)) = cb_offq (dev_cb s)"
  "cb_driverq (dev_cb (event_out s i ty p q)) = cb_driverq (dev_cb s)"
  "cb_work_mode (dev_cb (event_out s i ty p q)) = cb_work_mode (dev_cb s)"
  "cb_dev_id (dev_cb (event_out s i ty p q)) = cb_dev_id (dev_cb s)"
  "cb_sec_today (dev_cb (event_out s i ty p q)) = cb_sec_today (dev_cb s)"
  "tc_active (cb_async_thread_ctl (dev_cb (event_out s i ty p q))) =
     tc_active (cb_async_thread_ctl (dev_cb s))"
  "dev_at (event_out s i ty p q) = dev_at s"
  "find_drv (event_out s i ty p q) = find_drv s"
  by (simp_all add: event_out_def Let_def dev_at_def find_drv_def fun_eq_iff)

lemma async_event_out:
  "async_queue (event_out s devid type param1 param2) = async_queue s @
     linkage_acts s devid \<lparr>evt_devid = devid, evt_id = type, evt_param1 = param1, evt_param2 = param2\<rparr>"
  by (simp add: event_out_def Let_def)

section \<open>Work mode\<close>

lemma set_box_work_mode_bad:
  "\<not> HSB_WORK_MODE_VALID mode \<Longrightarrow> set_box_work_mode s mode = Some (errno HSB_E_BAD_PARAM, s)"
  by (simp add: set_box_work_mode_def)

lemma dev_ok_work_mode:
  "dev_ok s \<Longrightarrow> HSB_WORK_MODE_VALID mode \<Longrightarrow> dev_ok (dev_cb_update (cb_work_mode_update (\<lambda>_. mode)) s)"
  by (simp add: dev_ok_def dev_obj_ok_def pool_ok_def)

lemma set_box_work_mode_good:
  assumes "dev_ok s" and "HSB_WORK_MODE_VALID mode"
  shows "set_box_work_mode s mode = Some (errno HSB_E_OK,
    event_out (dev_cb_update (cb_work_mode_update (\<lambda>_. mode)) s) 0 HSB_EVT_TYPE_MODE_CHANGED (ucast mode) 0)"
  using assms by (simp add: set_box_work_mode_def dev_mode_changed_def dev_event_eq dev_ok_work_mode)

lemma set_box_work_mode_runs:
  assumes "dev_ok s"
  shows "runs (set_box_work_mode s mode) (\<lambda>(r, t). dev_ok t)"
  using assms by (cases "HSB_WORK_MODE_VALID mode")
    (simp_all add: set_box_work_mode_bad set_box_work_mode_good dev_ok_event_out dev_ok_work_mode)

section \<open>Scans\<close>

definition off_match :: "box \<Rightarrow> u32 \<Rightarrow> buf \<Rightarrow> ptr \<Rightarrow> bool" where
  "off_match s drvid mac p \<longleftrightarrow>
     drv_id (the (dev_driver (dev_at s p))) = drvid \<and> info_mac (dev_info (dev_at s p)) = mac"

definition first_index :: "('a \<Rightarrow> bool) \<Rightarrow> 'a list \<Rightarrow> nat" where
  "first_index P xs = length (takeWhile (\<lambda>x. \<not> P x) xs)"

lemma first_index_simps [simp]:
  "first_index P [] = 0"
  "first_index P (x # xs) = (if P x then 0 else Suc (first_index P xs))"
  by (simp_all add: first_index_def)

lemma first_index_le: "first_index P xs \<le> length xs"
  by (simp add: first_index_def length_takeWhile_le)

lemma first_index_length: "first_index P xs = length xs \<longleftrightarrow> (\<forall>x \<in> set xs. \<not> P x)"
  by (induction xs) auto

lemma first_index_less: "first_index P xs < length xs \<longleftrightarrow> (\<exists>x \<in> set xs. P x)"
  using first_index_le [of P xs] first_index_length [of P xs] by (metis le_neq_implies_less less_irrefl)

lemma first_index_nth: "first_index P xs < length xs \<Longrightarrow> P (xs ! first_index P xs)"
  by (induction xs) auto

lemma offq_scan_eq:
  "live_list s ps \<Longrightarrow>
   offq_scan s ps drvid mac i =
     Some (i + first_index (off_match s drvid mac) ps,
       if first_index (off_match s drvid mac) ps < length ps
       then ps ! first_index (off_match s drvid mac) ps else 0)"
  by (induction ps arbitrary: i) (auto simp: off_match_def)

lemma queue_scan_eq:
  "live_list s ps \<Longrightarrow>
   queue_scan s ps devid i =
     Some (i + first_index (\<lambda>p. dev_id (dev_at s p) = devid) ps,
       if first_index (\<lambda>p. dev_id (dev_at s p) = devid) ps < length ps
       then ps ! first_index (\<lambda>p. dev_id (dev_at s p) = devid) ps else 0)"
  by (induction ps arbitrary: i) auto

lemma scan_frame [simp]:
  "live_list (dev_cb_update f s) ps = live_list s ps"
  "dev_at (dev_cb_update f s) = dev_at s"
  "deref (dev_cb_update f s) p = deref s p"
  "off_match (dev_cb_update f s) drvid mac = off_match s drvid mac"
  by (auto simp: live_list_def dev_at_def deref_def off_match_def fun_eq_iff)

section \<open>Going offline and coming back\<close>

definition id_index :: "box \<Rightarrow> u32 \<Rightarrow> nat" where
  "id_index s devid = first_index (\<lambda>p. dev_id (dev_at s p) = devid) (cb_queue (dev_cb s))"

definition off_index :: "box \<Rightarrow> u32 \<Rightarrow> buf \<Rightarrow> nat" where
  "off_index s drvid mac = first_index (off_match s drvid mac) (cb_offq (dev_cb s))"

definition moved_off :: "box \<Rightarrow> nat \<Rightarrow> box" where
  "moved_off s i = dev_cb_update (\<lambda>c. c\<lparr>cb_queue := g_queue_pop_nth (cb_queue c) i,
     cb_offq := g_queue_push_tail (cb_offq c) (cb_queue c ! i)\<rparr>) s"

definition moved_on :: "box \<Rightarrow> nat \<Rightarrow> box" where
  "moved_on s i = dev_cb_update (\<lambda>c. c\<lparr>cb_offq := g_queue_pop_nth (cb_offq c) i,
     cb_queue := g_queue_push_tail (cb_queue c) (cb_offq c ! i)\<rparr>) s"

definition new_dev :: "u32 \<Rightarrow> HSB_DEV_DRV_T option \<Rightarrow> HSB_DEV_INFO_T \<Rightarrow> HSB_DEV_OP_T \<Rightarrow> HSB_DEV_T" where
  "new_dev devid drv info op = zero_dev\<lparr>dev_id := devid, dev_work_mode := HSB_WORK_MODE_ALL,
     dev_driver := drv, dev_op := Some op, dev_info := info\<rparr>"

definition added :: "box \<Rightarrow> u32 \<Rightarrow> HSB_DEV_INFO_T \<Rightarrow> HSB_DEV_OP_T \<Rightarrow> box" where
  "added s drvid info op = s\<lparr>
     dev_heap := (dev_heap s)(next_ptr s \<mapsto>
       new_dev (cb_dev_id (dev_cb s)) (find_drv s drvid) info op),
     next_ptr := next_ptr s + 1,
     dev_cb := (dev_cb s)\<lparr>cb_dev_id := cb_dev_id (dev_cb s) + 1,
       cb_queue := g_queue_push_tail (cb_queue (dev_cb s)) (next_ptr s)\<rparr>\<rparr>"

lemma cb_relock:
  "\<not> cb_mutex c \<Longrightarrow> cb_mutex_update (\<lambda>_. False) (cb_mutex_update (\<lambda>_. True) c) = c"
  "\<not> cb_mutex c \<Longrightarrow> c\<lparr>cb_mutex := False\<rparr> = c"
  by (cases c; simp)+

lemma dev_offline_absent:
  assumes "dev_ok s" and "id_index s devid = length (cb_queue (dev_cb s))"
  shows "dev_offline s devid = Some (errno HSB_E_OTHERS, s)"
  using assms
  by (simp add: dev_offline_def HSB_DEVICE_CB_LOCK_def HSB_DEVICE_CB_UNLOCK_def queue_scan_eq live_queue
      dev_okD id_index_def cb_relock o_def)

lemma dev_ok_moved_off:
  assumes "dev_ok s" and "i < length (cb_queue (dev_cb s))"
  shows "dev_ok (moved_off s i)"
proof -
  let ?q = "cb_queue (dev_cb s)" and ?o = "cb_offq (dev_cb s)"
  have "set (g_queue_pop_nth ?q i) = set ?q - {?q ! i}"
    using assms by (simp add: set_pop_nth dev_okD)
  moreover have "?q ! i \<in> set ?q" using assms(2) by simp
  ultimately show ?thesis
    using assms(1) by (auto simp: dev_ok_def moved_off_def dev_obj_ok_def distinct_pop_nth pool_ok_def)
qed

lemma dev_ok_moved_on:
  assumes "dev_ok s" and "i < length (cb_offq (dev_cb s))"
  shows "dev_ok (moved_on s i)"
proof -
  let ?q = "cb_queue (dev_cb s)" and ?o = "cb_offq (dev_cb s)"
  have "set (g_queue_pop_nth ?o i) = set ?o - {?o ! i}"
    using assms by (simp add: set_pop_nth dev_okD)
  moreover have "?o ! i \<in> set ?o" using assms(2) by simp
  ultimately show ?thesis
    using assms(1) by (auto simp: dev_ok_def moved_on_def dev_obj_ok_def distinct_pop_nth pool_ok_def)
qed

lemma new_dev_shape: "length (info_mac info) = 8 \<Longrightarrow> dev_shape (new_dev devid drv info op)"
  using zero_dev_shape by (simp add: dev_shape_def new_dev_def)

lemma dev_ok_added:
  assumes "dev_ok s" and "find_drv s drvid = Some drv" and "length (info_mac info) = 8"
  shows "dev_ok (added s drvid info op)"
proof -
  have below: "p < next_ptr s" if "dev_heap s p = Some d" for p d
    using dev_ok_obj [OF assms(1) that] by (simp add: dev_obj_ok_def)
  then have fresh: "next_ptr s \<notin> set (cb_queue (dev_cb s) @ cb_offq (dev_cb s))"
    using assms(1) unfolding dev_ok_def by (metis less_irrefl)
  have heap: "dev_obj_ok (added s drvid info op) p d"
    if "dev_heap (added s drvid info op) p = Some d" for p d
  proof (cases "p = next_ptr s")
    case True
    with that assms show ?thesis
      by (auto simp: added_def dev_obj_ok_def new_dev_shape dev_okD) (simp add: new_dev_def)
  next
    case False
    with that have "dev_heap s p = Some d" by (simp add: added_def)
    with dev_ok_obj [OF assms(1), of p d] show ?thesis by (simp add: added_def dev_obj_ok_def)
  qed
  have live: "\<exists>d. dev_heap (added s drvid info op) p = Some d \<and> dev_driver d \<noteq> None"
    if "p \<in> set (cb_queue (dev_cb s) @ cb_offq (dev_cb s)) \<or> p = next_ptr s" for p
    using that assms(1,2) fresh by (cases "p = next_ptr s") (auto simp: dev_ok_def added_def new_dev_def)
  show ?thesis unfolding dev_ok_def
  proof (intro conjI)
    show "\<forall>p d. dev_heap (added s drvid info op) p = Some d \<longrightarrow> dev_obj_ok (added s drvid info op) p d"
      using heap by blast
    show "\<forall>p\<in>set (cb_queue (dev_cb (added s drvid info op)) @ cb_offq (dev_cb (added s drvid info op))).
       \<exists>d. dev_heap (added s drvid info op) p = Some d \<and> dev_driver d \<noteq> None"
    proof
      fix p
      assume "p \<in> set (cb_queue (dev_cb (added s drvid info op)) @ cb_offq (dev_cb (added s drvid info op)))"
      then have "p \<in> set (cb_queue (dev_cb s) @ cb_offq (dev_cb s)) \<or> p = next_ptr s"
        by (auto simp: added_def)
      then show "\<exists>d. dev_heap (added s drvid info op) p = Some d \<and> dev_driver d \<noteq> None"
        by (rule live)
    qed
    show "distinct (cb_queue (dev_cb (added s drvid info op)) @ cb_offq (dev_cb (added s drvid info op)))"
      using fresh assms(1) by (auto simp: added_def dev_ok_def)
  qed (use assms(1) in \<open>simp_all add: added_def dev_okD pool_ok_def\<close>,
       use assms(1) in \<open>auto simp: dev_ok_def pool_ok_def\<close>)
qed

lemma moved_simps [simp]:
  "dev_heap (moved_off s i) = dev_heap s" "dev_heap (moved_on s i) = dev_heap s"
  "dev_at (moved_off s i) = dev_at s" "dev_at (moved_on s i) = dev_at s"
  "next_ptr (moved_off s i) = next_ptr s" "next_ptr (moved_on s i) = next_ptr s"
  "vs_queue (moved_off s i) = vs_queue s" "vs_queue (moved_on s i) = vs_queue s"
  "cz_ctx (moved_off s i) = cz_ctx s" "cz_ctx (moved_on s i) = cz_ctx s"
  "sent (moved_off s i) = sent s" "sent (moved_on s i) = sent s"
  "stk_buf (moved_off s i) = stk_buf s" "stk_buf (moved_on s i) = stk_buf s"
  "find_drv (moved_off s i) = find_drv s" "find_drv (moved_on s i) = find_drv s"
  by (simp_all add: moved_off_def moved_on_def dev_at_def find_drv_def fun_eq_iff)

lemma added_simps [simp]:
  "vs_queue (added s drvid info op) = vs_queue s" "cz_ctx (added s drvid info op) = cz_ctx s"
  "sent (added s drvid info op) = sent s" "stk_buf (added s drvid info op) = stk_buf s"
  "next_ptr (added s drvid info op) = next_ptr s + 1"
  "cb_offq (dev_cb (added s drvid info op)) = cb_offq (dev_cb s)"
  "cb_queue (dev_cb (added s drvid info op)) = g_queue_push_tail (cb_queue (dev_cb s)) (next_ptr s)"
  "find_drv (added s drvid info op) = find_drv s"
  by (simp_all add: added_def find_drv_def fun_eq_iff)

lemma dev_offline_present:
  assumes "dev_ok s" and "id_index s devid < length (cb_queue (dev_cb s))"
  shows "dev_offline s devid = Some (errno HSB_E_OK,
    event_out (moved_off s (id_index s devid)) devid HSB_EVT_TYPE_DEV_UPDATED HSB_DEV_UPDATED_TYPE_OFFLINE 0)"
proof -
  let ?i = "id_index s devid"
  have m: "\<not> cb_mutex (dev_cb s)" using assms(1) by (rule dev_okD)
  have state: "dev_cb_update ((cb_mutex_update (\<lambda>_. False)) \<circ>
       (cb_offq_update (\<lambda>q. g_queue_push_tail q (cb_queue (dev_cb s) ! ?i))) \<circ>
       (cb_queue_update (\<lambda>q. g_queue_pop_nth q ?i)) \<circ> (cb_mutex_update (\<lambda>_. True))) s = moved_off s ?i"
    using m by (cases s; cases "dev_cb s") (simp add: moved_off_def)
  show ?thesis
    using assms state dev_event_eq [OF dev_ok_moved_off [OF assms]]
    by (simp add: dev_offline_def HSB_DEVICE_CB_LOCK_def HSB_DEVICE_CB_UNLOCK_def queue_scan_eq live_queue
        m id_index_def o_def dev_updated_def)
qed

lemma dev_online_back:
  assumes "dev_ok s" and "off_index s drvid (info_mac info) < length (cb_offq (dev_cb s))"
  defines "i \<equiv> off_index s drvid (info_mac info)"
  defines "p \<equiv> cb_offq (dev_cb s) ! i"
  shows "dev_online s drvid info op = Some (errno HSB_E_OK, dev_id (dev_at s p),
    event_out (moved_on s i) (dev_id (dev_at s p)) HSB_EVT_TYPE_DEV_UPDATED HSB_DEV_UPDATED_TYPE_ONLINE 0)"
proof -
  have m: "\<not> cb_mutex (dev_cb s)" using assms(1) by (rule dev_okD)
  have p: "p \<in> set (cb_offq (dev_cb s))" using assms(2) by (simp add: p_def i_def)
  with live_offq [OF assms(1)] have d: "deref s p = Some (dev_at s p)" by (simp add: live_list_def)
  have ok: "dev_ok (moved_on s i)" using assms(1,2) by (simp add: dev_ok_moved_on i_def)
  have state: "dev_cb_update ((cb_mutex_update (\<lambda>_. False)) \<circ>
       (cb_queue_update (\<lambda>q. g_queue_push_tail q p)) \<circ> (cb_mutex_update (\<lambda>_. True)) \<circ>
       (cb_offq_update (\<lambda>q. g_queue_pop_nth q i)) \<circ>
       (cb_mutex_update (\<lambda>_. False)) \<circ> (cb_mutex_update (\<lambda>_. True))) s = moved_on s i"
    using m by (cases s; cases "dev_cb s") (simp add: moved_on_def p_def)
  show ?thesis
    using assms(1,2) state dev_event_eq [OF ok] d
    by (simp add: dev_online_def HSB_DEVICE_CB_LOCK_def HSB_DEVICE_CB_UNLOCK_def offq_scan_eq live_offq
        m off_index_def o_def dev_updated_def i_def p_def)
qed

definition created :: "box \<Rightarrow> box" where
  "created s = s\<lparr>
     dev_heap := (dev_heap s)(next_ptr s \<mapsto>
       zero_dev\<lparr>dev_id := cb_dev_id (dev_cb s), dev_work_mode := HSB_WORK_MODE_ALL\<rparr>),
     next_ptr := next_ptr s + 1,
     dev_cb := (dev_cb s)\<lparr>cb_dev_id := cb_dev_id (dev_cb s) + 1\<rparr>\<rparr>"

lemma create_dev_eq:
  assumes "\<not> cb_mutex (dev_cb s)" and "0 < next_ptr s"
  shows "create_dev s = Some (next_ptr s, created s)"
  using assms
  by (cases s; cases "dev_cb s")
    (simp add: create_dev_def g_slice_new0_dev_def alloc_dev_id_def HSB_DEVICE_CB_LOCK_def
      HSB_DEVICE_CB_UNLOCK_def deref_def dev_write_def created_def)

lemma dev_online_new:
  assumes "dev_ok s" and "off_index s drvid (info_mac info) = length (cb_offq (dev_cb s))"
    and "find_drv s drvid = Some drv" and "length (info_mac info) = 8"
  shows "dev_online s drvid info op = Some (errno HSB_E_OK, of_nat (next_ptr s),
    event_out (added s drvid info op) (of_nat (next_ptr s)) HSB_EVT_TYPE_DEV_UPDATED
      HSB_DEV_UPDATED_TYPE_NEW_ADD 0)"
proof -
  let ?d = "new_dev (of_nat (next_ptr s)) (find_drv s drvid) info op"
  have m: "\<not> cb_mutex (dev_cb s)" and n: "0 < next_ptr s"
    and i: "cb_dev_id (dev_cb s) = of_nat (next_ptr s)"
    using assms(1) by (simp_all add: dev_okD)
  have relock: "dev_cb_update (\<lambda>x. x\<lparr>cb_mutex := False\<rparr>) s = s"
    using m by (cases s; cases "dev_cb s") simp
  have d: "deref (created s) (next_ptr s) =
      Some (zero_dev\<lparr>dev_id := of_nat (next_ptr s), dev_work_mode := HSB_WORK_MODE_ALL\<rparr>)"
    using n i by (simp add: deref_def created_def)
  have drv: "find_drv (created s) drvid = find_drv s drvid"
    by (simp add: created_def find_drv_def)
  have state: "dev_cb_update (cb_mutex_update (\<lambda>_. False) \<circ> cb_queue_update (\<lambda>q. g_queue_push_tail q (next_ptr s))
        \<circ> cb_mutex_update (\<lambda>_. True)) (dev_write (created s) (next_ptr s) ?d) = added s drvid info op"
    using m i by (cases s; cases "dev_cb s") (simp add: added_def dev_write_def created_def find_drv_def)
  have cm: "\<not> cb_mutex (dev_cb (dev_write (created s) (next_ptr s) ?d))"
    using m by (simp add: dev_write_def created_def)
  have wat: "deref (dev_write (created s) (next_ptr s) ?d) (next_ptr s) = Some ?d"
    using n by (simp add: deref_def dev_write_def)
  have at: "deref (added s drvid info op) (next_ptr s) = Some ?d"
    using n i by (simp add: deref_def added_def)
  show ?thesis
    using assms(1,2) m n create_dev_eq [OF m n] dev_event_eq [OF dev_ok_added [OF assms(1,3,4)]] state cm wat at d drv
    by (simp add: dev_online_def HSB_DEVICE_CB_LOCK_def HSB_DEVICE_CB_UNLOCK_def offq_scan_eq live_offq
        off_index_def o_def dev_updated_def relock new_dev_def)
qed

section \<open>The registry as two lists of devices\<close>

text \<open>
  The specification forgets pointers, locks and scans: a registry is the list of online
  devices and the list of devices that went offline.
\<close>

definition abs_reg :: "box \<Rightarrow> HSB_DEV_T list \<times> HSB_DEV_T list" where
  "abs_reg s = (map (dev_at s) (cb_queue (dev_cb s)), map (dev_at s) (cb_offq (dev_cb s)))"

definition same_dev :: "u32 \<Rightarrow> buf \<Rightarrow> HSB_DEV_T \<Rightarrow> bool" where
  "same_dev drvid mac d \<longleftrightarrow> drv_id (the (dev_driver d)) = drvid \<and> info_mac (dev_info d) = mac"

definition reg_offline ::
  "u32 \<Rightarrow> HSB_DEV_T list \<times> HSB_DEV_T list \<Rightarrow> HSB_DEV_T list \<times> HSB_DEV_T list" where
  "reg_offline devid r = (case find (\<lambda>d. dev_id d = devid) (fst r) of
      None \<Rightarrow> r
    | Some d \<Rightarrow> (remove1 d (fst r), snd r @ [d]))"

definition reg_online ::
  "HSB_DEV_T \<Rightarrow> u32 \<Rightarrow> buf \<Rightarrow> HSB_DEV_T list \<times> HSB_DEV_T list \<Rightarrow> HSB_DEV_T list \<times> HSB_DEV_T list" where
  "reg_online fresh drvid mac r = (case find (same_dev drvid mac) (snd r) of
      None \<Rightarrow> (fst r @ [fresh], snd r)
    | Some d \<Rightarrow> (fst r @ [d], remove1 d (snd r)))"

lemma find_first_index:
  "find P xs = (if first_index P xs < length xs then Some (xs ! first_index P xs) else None)"
  by (induction xs) auto

lemma remove1_first_index:
  "first_index P xs < length xs \<Longrightarrow>
   remove1 (xs ! first_index P xs) xs = g_queue_pop_nth xs (first_index P xs)"
proof (induction xs)
  case (Cons x xs)
  show ?case
  proof (cases "P x")
    case False
    with Cons.prems have lt: "first_index P xs < length xs" by simp
    then have "P (xs ! first_index P xs)" by (rule first_index_nth)
    with False have "x \<noteq> xs ! first_index P xs" by auto
    with False Cons.IH [OF lt] show ?thesis by (simp add: g_queue_pop_nth_def)
  qed (simp add: g_queue_pop_nth_def)
qed simp

lemma first_index_map: "first_index P (map f xs) = first_index (\<lambda>x. P (f x)) xs"
  by (induction xs) auto

lemma pop_nth_map: "g_queue_pop_nth (map f xs) n = map f (g_queue_pop_nth xs n)"
  by (simp add: g_queue_pop_nth_def take_map drop_map)

lemma abs_reg_event_out [simp]: "abs_reg (event_out s i ty p q) = abs_reg s"
  by (simp add: abs_reg_def)

lemma id_index_map: "first_index (\<lambda>d. dev_id d = devid) (map (dev_at s) (cb_queue (dev_cb s))) = id_index s devid"
  by (simp add: first_index_map id_index_def)

lemma off_index_map:
  "first_index (same_dev drvid mac) (map (dev_at s) (cb_offq (dev_cb s))) = off_index s drvid mac"
  by (simp add: first_index_map off_index_def same_dev_def off_match_def [abs_def])

lemma abs_moved_off:
  assumes "id_index s devid < length (cb_queue (dev_cb s))"
  shows "abs_reg (moved_off s (id_index s devid)) = reg_offline devid (abs_reg s)"
  using assms remove1_first_index [of "\<lambda>d. dev_id d = devid" "map (dev_at s) (cb_queue (dev_cb s))"]
  by (simp add: abs_reg_def reg_offline_def find_first_index id_index_map pop_nth_map)
    (simp add: moved_off_def g_queue_push_tail_def)

lemma abs_moved_on:
  assumes "off_index s drvid mac < length (cb_offq (dev_cb s))"
  shows "abs_reg (moved_on s (off_index s drvid mac)) = reg_online fresh drvid mac (abs_reg s)"
  using assms remove1_first_index [of "same_dev drvid mac" "map (dev_at s) (cb_offq (dev_cb s))"]
  by (simp add: abs_reg_def reg_online_def find_first_index off_index_map pop_nth_map)
    (simp add: moved_on_def g_queue_push_tail_def)

lemma dev_at_added:
  assumes "dev_ok s"
  shows "p \<in> set (cb_queue (dev_cb s) @ cb_offq (dev_cb s)) \<Longrightarrow> dev_at (added s drvid info op) p = dev_at s p"
    and "dev_at (added s drvid info op) (next_ptr s) =
      new_dev (of_nat (next_ptr s)) (find_drv s drvid) info op"
proof -
  assume "p \<in> set (cb_queue (dev_cb s) @ cb_offq (dev_cb s))"
  with assms obtain d where "dev_heap s p = Some d" unfolding dev_ok_def by blast
  with dev_ok_obj [OF assms] have "p \<noteq> next_ptr s" by (fastforce simp: dev_obj_ok_def)
  then show "dev_at (added s drvid info op) p = dev_at s p" by (simp add: dev_at_def added_def)
qed (use assms in \<open>simp add: dev_at_def added_def dev_okD\<close>)

lemma abs_added:
  assumes "dev_ok s" and "off_index s drvid (info_mac info) = length (cb_offq (dev_cb s))"
  shows "abs_reg (added s drvid info op) =
    reg_online (new_dev (of_nat (next_ptr s)) (find_drv s drvid) info op) drvid (info_mac info) (abs_reg s)"
  using assms dev_at_added [OF assms(1)]
  by (simp add: abs_reg_def reg_online_def find_first_index off_index_map map_push_tail)
    (simp add: g_queue_push_tail_def)

lemma dev_offline_refines:
  assumes "dev_ok s"
  shows "runs (dev_offline s devid) (\<lambda>(r, t). dev_ok t \<and> abs_reg t = reg_offline devid (abs_reg s) \<and>
    (r = errno HSB_E_OK \<longleftrightarrow> devid \<in> dev_id ` set (fst (abs_reg s))))"
proof (cases "id_index s devid < length (cb_queue (dev_cb s))")
  case True
  then have "devid \<in> dev_id ` set (fst (abs_reg s))"
    by (auto simp: abs_reg_def id_index_def first_index_less)
  with True assms show ?thesis
    by (simp add: dev_offline_present dev_ok_event_out dev_ok_moved_off abs_moved_off)
next
  case False
  then have eq: "id_index s devid = length (cb_queue (dev_cb s))"
    using first_index_le unfolding id_index_def by (metis le_neq_implies_less)
  then have "devid \<notin> dev_id ` set (fst (abs_reg s))"
    by (auto simp: abs_reg_def id_index_def first_index_length)
  moreover have "reg_offline devid (abs_reg s) = abs_reg s"
    using eq by (simp add: abs_reg_def reg_offline_def find_first_index id_index_map)
  ultimately show ?thesis using assms eq by (simp add: dev_offline_absent)
qed

lemma dev_online_refines:
  assumes "dev_ok s" and "find_drv s drvid = Some drv" and "length (info_mac info) = 8"
  shows "runs (dev_online s drvid info op) (\<lambda>(r, devid, t). dev_ok t \<and> r = errno HSB_E_OK \<and>
    abs_reg t = reg_online (new_dev (of_nat (next_ptr s)) (find_drv s drvid) info op) drvid (info_mac info) (abs_reg s) \<and>
    devid = dev_id (last (fst (abs_reg t))))"
proof (cases "off_index s drvid (info_mac info) < length (cb_offq (dev_cb s))")
  case True
  have "dev_id (last (fst (abs_reg (moved_on s (off_index s drvid (info_mac info)))))) =
      dev_id (dev_at s (cb_offq (dev_cb s) ! off_index s drvid (info_mac info)))"
    by (simp add: abs_reg_def map_push_tail) (simp add: moved_on_def g_queue_push_tail_def)
  with True assms(1) show ?thesis
    using abs_moved_on [OF True, where fresh = "new_dev (of_nat (next_ptr s)) (find_drv s drvid) info op"]
    by (simp add: dev_online_back dev_ok_event_out dev_ok_moved_on)
next
  case False
  then have eq: "off_index s drvid (info_mac info) = length (cb_offq (dev_cb s))"
    using first_index_le unfolding off_index_def by (metis le_neq_implies_less)
  have "dev_id (last (fst (abs_reg (added s drvid info op)))) = of_nat (next_ptr s)"
    using dev_at_added(2) [OF assms(1)]
    by (simp add: abs_reg_def map_push_tail) (simp add: g_queue_push_tail_def new_dev_def)
  with eq assms show ?thesis
    by (simp add: dev_online_new [OF assms(1) eq assms(2,3)] dev_ok_event_out dev_ok_added abs_added)
qed

section \<open>Identity of devices\<close>

lemma dev_ok_unique_ids:
  assumes "dev_ok s" and "next_ptr s \<le> 2 ^ 32"
  shows "distinct (map dev_id (fst (abs_reg s) @ snd (abs_reg s)))"
proof -
  let ?ps = "cb_queue (dev_cb s) @ cb_offq (dev_cb s)"
  have id: "dev_id (dev_at s p) = of_nat p \<and> p < 2 ^ 32" if "p \<in> set ?ps" for p
  proof -
    from assms(1) that obtain d where d: "dev_heap s p = Some d" unfolding dev_ok_def by blast
    from dev_ok_obj [OF assms(1) d] assms(2) d show ?thesis by (simp add: dev_obj_ok_def dev_at_def)
  qed
  have "inj_on (\<lambda>p. dev_id (dev_at s p)) (set ?ps)"
  proof (rule inj_onI)
    fix p q
    assume p: "p \<in> set ?ps" and q: "q \<in> set ?ps" and eq: "dev_id (dev_at s p) = dev_id (dev_at s q)"
    from id [OF p] id [OF q] eq have "(of_nat p :: u32) = of_nat q" by simp
    then have "unat (of_nat p :: u32) = unat (of_nat q :: u32)" by simp
    with id [OF p] id [OF q] show "p = q" by (simp add: unat_of_nat take_bit_nat_eq_self)
  qed
  moreover have "distinct ?ps" using assms(1) by (simp add: dev_ok_def)
  ultimately show ?thesis by (simp add: abs_reg_def distinct_map o_def map_append [symmetric] del: map_append)
qed

lemma id_index_in:
  "id_index s devid < length (cb_queue (dev_cb s)) \<longleftrightarrow>
     (\<exists>p \<in> set (cb_queue (dev_cb s)). dev_id (dev_at s p) = devid)"
  by (simp add: id_index_def first_index_less)

lemma find_dev_id_index:
  assumes "dev_ok s" and "find_dev s devid = Some p" and "p \<noteq> 0"
  shows "id_index s devid < length (cb_queue (dev_cb s))" and "cb_queue (dev_cb s) ! id_index s devid = p"
  using assms by (auto simp: find_dev_find find_first_index id_index_def split: if_splits)

lemma offq_back_index:
  assumes "\<forall>q \<in> set (cb_offq (dev_cb s)). \<not> off_match s drvid mac q"
    and "off_match s drvid mac (cb_queue (dev_cb s) ! i)"
  shows "off_index (event_out (moved_off s i) a b c d) drvid mac = length (cb_offq (dev_cb s))"
proof -
  have fi: "first_index P (xs @ [x]) = length xs" if "\<forall>y\<in>set xs. \<not> P y" "P x" for P xs and x :: ptr
    using that by (induction xs) auto
  have "off_match (event_out (moved_off s i) a b c d) drvid mac = off_match s drvid mac"
    by (simp add: off_match_def [abs_def])
  then show ?thesis using assms fi [of "cb_offq (dev_cb s)"]
    by (simp add: off_index_def) (simp add: moved_off_def g_queue_push_tail_def)
qed

text \<open>
  C6. A device that drops off the network and comes back (same driver, same MAC) keeps its
  id and everything stored for it. After \<^verbatim>\<open>dev_offline\<close> followed by \<^verbatim>\<open>dev_online\<close> the call
  returns the old id, every device object is unchanged (timers, delays, linkage rules,
  channels), no new object was allocated, and the set of online devices and the offline list are what they
  were, provided no other offline device of that driver has that MAC.
\<close>

theorem offline_online_roundtrip:
  assumes "dev_ok s" and "find_dev s devid = Some p" and "deref s p = Some d"
    and "dev_driver d = Some drv" and "info_mac info = info_mac (dev_info d)"
    and "\<forall>q \<in> set (cb_offq (dev_cb s)). \<not> off_match s (drv_id drv) (info_mac info) q"
  shows "runs (do { (r, t) \<leftarrow> dev_offline s devid; dev_online t (drv_id drv) info op })
    (\<lambda>(r, i, u). r = errno HSB_E_OK \<and> i = devid \<and> dev_ok u \<and> dev_heap u = dev_heap s \<and>
       next_ptr u = next_ptr s \<and> set (cb_queue (dev_cb u)) = set (cb_queue (dev_cb s)) \<and>
       cb_offq (dev_cb u) = cb_offq (dev_cb s))"
proof -
  let ?i = "id_index s devid" and ?o = "cb_offq (dev_cb s)"
  let ?t = "event_out (moved_off s ?i) devid HSB_EVT_TYPE_DEV_UPDATED HSB_DEV_UPDATED_TYPE_OFFLINE 0"
  from assms(3) have nz: "p \<noteq> 0" and at: "dev_at s p = d" using deref_live by auto
  note i = find_dev_id_index [OF assms(1,2) nz]
  have ok: "dev_ok ?t" using assms(1) i by (simp add: dev_ok_event_out dev_ok_moved_off)
  have m: "off_match s (drv_id drv) (info_mac info) (cb_queue (dev_cb s) ! ?i)"
    using i at assms(4,5) by (simp add: off_match_def)
  have offq: "cb_offq (dev_cb ?t) = ?o @ [p]"
    using i by (simp add: moved_off_def g_queue_push_tail_def)
  have idx: "off_index ?t (drv_id drv) (info_mac info) = length ?o"
    by (rule offq_back_index [OF assms(6) m])
  have devid: "dev_id d = devid"
    using assms(1,2) nz at by (auto simp: find_dev_find find_Some_iff ptr_or_null_def split: option.splits)
  have q: "set (cb_queue (dev_cb (moved_off s ?i))) = set (cb_queue (dev_cb s)) - {p}"
    using set_pop_nth [OF dev_okD(1) [OF assms(1)] i(1)] i by (simp add: moved_off_def)
  have mem: "p \<in> set (cb_queue (dev_cb s))" using i by (metis nth_mem)
  have queue: "set (cb_queue (dev_cb (moved_on ?t (length ?o)))) = set (cb_queue (dev_cb s))"
    using q mem offq by (auto simp: moved_on_def)
  have off: "cb_offq (dev_cb (moved_on ?t (length ?o))) = ?o"
    using offq by (simp add: moved_on_def g_queue_pop_nth_def)
  have p: "cb_offq (dev_cb ?t) ! length ?o = p" using offq by simp
  have lt: "length ?o < length (cb_offq (dev_cb ?t))" using offq by simp
  have "dev_ok (moved_on ?t (length ?o))" by (rule dev_ok_moved_on [OF ok lt])
  with dev_offline_present [OF assms(1) i(1)] dev_online_back [OF ok, of "drv_id drv" info op]
    idx lt p queue off at devid
  show ?thesis by (simp add: dev_ok_event_out)
qed

end
