(* ===== verification/Dev_Slots.thy ===== *)
theory Dev_Slots
  imports Dev_Registry
begin

text \<open>
  The timers, delays and linkage rules stored in a device
  (\<^verbatim>\<open>get_dev_timer\<close> ... \<^verbatim>\<open>del_dev_linkage\<close> of \<^verbatim>\<open>core_daemon/device.c\<close>). The nine functions share
  one contract, the locale \<open>slot_store\<close>: each group is a partial map from device id and
  slot number to entries. It is interpreted once for timers, once for delays, once for
  linkage rules. \<open>out\<close> is the caller's structure before the call.
\<close>

section \<open>Timers\<close>

definition get_dev_timer :: "box \<Rightarrow> u32 \<Rightarrow> u16 \<Rightarrow> HSB_TIMER_T \<Rightarrow> (int \<times> HSB_TIMER_T) option" where
  "get_dev_timer s devid timer_id out = do {
     p \<leftarrow> find_dev s devid;
     if p = NULL then Some (errno HSB_E_BAD_PARAM, out)
     else if unat timer_id \<ge> HSB_DEV_MAX_TIMER_NUM then Some (errno HSB_E_BAD_PARAM, out)
     else do {
       d \<leftarrow> deref s p;
       x \<leftarrow> arr_get (dev_timer d) (unat timer_id);
       status \<leftarrow> arr_get (dev_timer_status d) (unat timer_id);
       if \<not> ts_active status then Some (errno HSB_E_BAD_PARAM, out)
       else Some (errno HSB_E_OK, x)
     }
   }"

definition set_dev_timer :: "box \<Rightarrow> u32 \<Rightarrow> HSB_TIMER_T \<Rightarrow> (int \<times> box) option" where
  "set_dev_timer s devid timer = do {
     let timer_id = tm_id timer;
     p \<leftarrow> find_dev s devid;
     if p = NULL then Some (errno HSB_E_BAD_PARAM, s)
     else if unat timer_id \<ge> HSB_DEV_MAX_TIMER_NUM then Some (errno HSB_E_BAD_PARAM, s)
     else do {
       d \<leftarrow> deref s p;
       xs \<leftarrow> arr_set (dev_timer d) (unat timer_id) timer;
       ss \<leftarrow> arr_set (dev_timer_status d) (unat timer_id) (zero_timer_status\<lparr>ts_active := True, ts_expired := False\<rparr>);
       Some (errno HSB_E_OK, dev_write s p (d\<lparr>dev_timer := xs, dev_timer_status := ss\<rparr>))
     }
   }"

definition del_dev_timer :: "box \<Rightarrow> u32 \<Rightarrow> u16 \<Rightarrow> (int \<times> box) option" where
  "del_dev_timer s devid timer_id = do {
     p \<leftarrow> find_dev s devid;
     if p = NULL then Some (errno HSB_E_BAD_PARAM, s)
     else if unat timer_id \<ge> HSB_DEV_MAX_TIMER_NUM then Some (errno HSB_E_BAD_PARAM, s)
     else do {
       d \<leftarrow> deref s p;
       status \<leftarrow> arr_get (dev_timer_status d) (unat timer_id);
       if \<not> ts_active status then Some (errno HSB_E_BAD_PARAM, s)
       else do {
         xs \<leftarrow> arr_set (dev_timer d) (unat timer_id) zero_timer;
         ss \<leftarrow> arr_set (dev_timer_status d) (unat timer_id) (zero_timer_status);
         Some (errno HSB_E_OK, dev_write s p (d\<lparr>dev_timer := xs, dev_timer_status := ss\<rparr>))
       }
     }
   }"

section \<open>Delays\<close>

definition get_dev_delay :: "box \<Rightarrow> u32 \<Rightarrow> u16 \<Rightarrow> HSB_DELAY_T \<Rightarrow> (int \<times> HSB_DELAY_T) option" where
  "get_dev_delay s devid delay_id out = do {
     p \<leftarrow> find_dev s devid;
     if p = NULL then Some (errno HSB_E_BAD_PARAM, out)
     else if unat delay_id \<ge> HSB_DEV_MAX_DELAY_NUM then Some (errno HSB_E_BAD_PARAM, out)
     else do {
       d \<leftarrow> deref s p;
       x \<leftarrow> arr_get (dev_delay d) (unat delay_id);
       status \<leftarrow> arr_get (dev_delay_status d) (unat delay_id);
       if \<not> ds_active status then Some (errno HSB_E_BAD_PARAM, out)
       else Some (errno HSB_E_OK, x)
     }
   }"

definition set_dev_delay :: "box \<Rightarrow> u32 \<Rightarrow> HSB_DELAY_T \<Rightarrow> (int \<times> box) option" where
  "set_dev_delay s devid delay = do {
     let delay_id = dl_id delay;
     p \<leftarrow> find_dev s devid;
     if p = NULL then Some (errno HSB_E_BAD_PARAM, s)
     else if unat delay_id \<ge> HSB_DEV_MAX_DELAY_NUM then Some (errno HSB_E_BAD_PARAM, s)
     else do {
       d \<leftarrow> deref s p;
       status \<leftarrow> arr_get (dev_delay_status d) (unat delay_id);
       xs \<leftarrow> arr_set (dev_delay d) (unat delay_id) delay;
       ss \<leftarrow> arr_set (dev_delay_status d) (unat delay_id) (status\<lparr>ds_active := True\<rparr>);
       Some (errno HSB_E_OK, dev_write s p (d\<lparr>dev_delay := xs, dev_delay_status := ss\<rparr>))
     }
   }"

definition del_dev_delay :: "box \<Rightarrow> u32 \<Rightarrow> u16 \<Rightarrow> (int \<times> box) option" where
  "del_dev_delay s devid delay_id = do {
     p \<leftarrow> find_dev s devid;
     if p = NULL then Some (errno HSB_E_BAD_PARAM, s)
     else if unat delay_id \<ge> HSB_DEV_MAX_DELAY_NUM then Some (errno HSB_E_BAD_PARAM, s)
     else do {
       d \<leftarrow> deref s p;
       status \<leftarrow> arr_get (dev_delay_status d) (unat delay_id);
       if \<not> ds_active status then Some (errno HSB_E_BAD_PARAM, s)
       else do {
         xs \<leftarrow> arr_set (dev_delay d) (unat delay_id) zero_delay;
         ss \<leftarrow> arr_set (dev_delay_status d) (unat delay_id) (status\<lparr>ds_active := False\<rparr>);
         Some (errno HSB_E_OK, dev_write s p (d\<lparr>dev_delay := xs, dev_delay_status := ss\<rparr>))
       }
     }
   }"

section \<open>Linkage rules\<close>

definition get_dev_linkage :: "box \<Rightarrow> u32 \<Rightarrow> u16 \<Rightarrow> HSB_LINKAGE_T \<Rightarrow> (int \<times> HSB_LINKAGE_T) option" where
  "get_dev_linkage s devid link_id out = do {
     p \<leftarrow> find_dev s devid;
     if p = NULL then Some (errno HSB_E_BAD_PARAM, out)
     else if unat link_id \<ge> HSB_DEV_MAX_LINKAGE_NUM then Some (errno HSB_E_BAD_PARAM, out)
     else do {
       d \<leftarrow> deref s p;
       x \<leftarrow> arr_get (dev_link d) (unat link_id);
       status \<leftarrow> arr_get (dev_link_status d) (unat link_id);
       if \<not> ls_active status then Some (errno HSB_E_BAD_PARAM, out)
       else Some (errno HSB_E_OK, x)
     }
   }"

definition set_dev_linkage :: "box \<Rightarrow> u32 \<Rightarrow> HSB_LINKAGE_T \<Rightarrow> (int \<times> box) option" where
  "set_dev_linkage s devid link = do {
     let link_id = lk_id link;
     p \<leftarrow> find_dev s devid;
     if p = NULL then Some (errno HSB_E_BAD_PARAM, s)
     else if unat link_id \<ge> HSB_DEV_MAX_LINKAGE_NUM then Some (errno HSB_E_BAD_PARAM, s)
     else do {
       d \<leftarrow> deref s p;
       status \<leftarrow> arr_get (dev_link_status d) (unat link_id);
       xs \<leftarrow> arr_set (dev_link d) (unat link_id) link;
       ss \<leftarrow> arr_set (dev_link_status d) (unat link_id) (status\<lparr>ls_active := True\<rparr>);
       Some (errno HSB_E_OK, dev_write s p (d\<lparr>dev_link := xs, dev_link_status := ss\<rparr>))
     }
   }"

definition del_dev_linkage :: "box \<Rightarrow> u32 \<Rightarrow> u16 \<Rightarrow> (int \<times> box) option" where
  "del_dev_linkage s devid link_id = do {
     p \<leftarrow> find_dev s devid;
     if p = NULL then Some (errno HSB_E_BAD_PARAM, s)
     else if unat link_id \<ge> HSB_DEV_MAX_LINKAGE_NUM then Some (errno HSB_E_BAD_PARAM, s)
     else do {
       d \<leftarrow> deref s p;
       status \<leftarrow> arr_get (dev_link_status d) (unat link_id);
       if \<not> ls_active status then Some (errno HSB_E_BAD_PARAM, s)
       else do {
         xs \<leftarrow> arr_set (dev_link d) (unat link_id) zero_linkage;
         ss \<leftarrow> arr_set (dev_link_status d) (unat link_id) (status\<lparr>ls_active := False\<rparr>);
         Some (errno HSB_E_OK, dev_write s p (d\<lparr>dev_link := xs, dev_link_status := ss\<rparr>))
       }
     }
   }"

section \<open>Writing an online device\<close>

definition online_dev :: "box \<Rightarrow> u32 \<Rightarrow> HSB_DEV_T option" where
  "online_dev s devid =
     map_option (dev_at s) (find (\<lambda>p. dev_id (dev_at s p) = devid) (cb_queue (dev_cb s)))"

lemma online_dev_cases:
  assumes "dev_ok s"
  obtains (absent) "find_dev s devid = Some 0" "online_dev s devid = None"
  | (present) p d where "find_dev s devid = Some p" "p \<in> set (cb_queue (dev_cb s))" "0 < p"
      "deref s p = Some d" "online_dev s devid = Some d" "dev_id d = devid" "dev_shape d"
proof (cases "find (\<lambda>p. dev_id (dev_at s p) = devid) (cb_queue (dev_cb s))")
  case None
  then show ?thesis using absent assms by (simp add: find_dev_find online_dev_def)
next
  case (Some p)
  show ?thesis
  proof (cases rule: find_dev_cases [OF assms, of devid])
    case 1
    with Some show ?thesis using assms by (auto simp: find_Some_iff)
  next
    case (2 q d)
    moreover from this Some assms have "q = p" by (simp add: find_dev_find)
    ultimately show ?thesis using Some present [of q d] by (simp add: online_dev_def)
  qed
qed

lemma dev_at_write: "dev_at (dev_write s p d) q = (if q = p then d else dev_at s q)"
  by (simp add: dev_at_def dev_write_def)

lemma dev_write_simps [simp]:
  "dev_cb (dev_write s p d) = dev_cb s" "client_pool (dev_write s p d) = client_pool s"
  "vs_queue (dev_write s p d) = vs_queue s" "cz_ctx (dev_write s p d) = cz_ctx s"
  "sent (dev_write s p d) = sent s" "stk_status (dev_write s p d) = stk_status s"
  "stk_buf (dev_write s p d) = stk_buf s" "next_ptr (dev_write s p d) = next_ptr s"
  by (simp_all add: dev_write_def)

lemma dev_ok_write:
  assumes "dev_ok s" and "deref s p = Some d"
    and "dev_id e = dev_id d" and "dev_driver e = dev_driver d" and "dev_shape e"
  shows "dev_ok (dev_write s p e)"
proof -
  have h: "dev_heap s p = Some d" using assms(2) by (simp add: deref_def split: if_splits)
  then have "dev_obj_ok s p d" by (rule dev_ok_obj [OF assms(1)])
  then have "dev_obj_ok (dev_write s p e) p e" using assms(3,5) by (simp add: dev_obj_ok_def)
  moreover have "dev_driver d \<noteq> None" if "p \<in> set (cb_queue (dev_cb s) @ cb_offq (dev_cb s))"
    using that h assms(1) unfolding dev_ok_def by fastforce
  ultimately show ?thesis
    using h assms(1,4) by (auto simp: dev_ok_def dev_write_def dev_obj_ok_def pool_ok_def)
qed

lemma find_id_write:
  assumes "deref s p = Some d" and "dev_id e = dev_id d"
  shows "find (\<lambda>q. dev_id (dev_at (dev_write s p e) q) = i) qs = find (\<lambda>q. dev_id (dev_at s q) = i) qs"
proof -
  have "dev_at s p = d" using assms(1) deref_live by blast
  then have "(\<lambda>q. dev_id (dev_at (dev_write s p e) q) = i) = (\<lambda>q. dev_id (dev_at s q) = i)"
    using assms(2) by (auto simp: dev_at_write fun_eq_iff)
  then show ?thesis by simp
qed

lemma online_dev_write:
  assumes "dev_ok s" and "find_dev s devid = Some p" and "deref s p = Some d" and "dev_id e = dev_id d"
  shows "online_dev (dev_write s p e) = (online_dev s)(devid \<mapsto> e)"
proof
  fix i
  have "p \<noteq> 0" "dev_at s p = d" using assms(3) deref_live by blast+
  with assms(1,2) have f: "find (\<lambda>p. dev_id (dev_at s p) = devid) (cb_queue (dev_cb s)) = Some p"
    by (auto simp: find_dev_find ptr_or_null_def split: option.splits)
  then have d: "dev_id d = devid" using \<open>dev_at s p = d\<close> by (auto simp: find_Some_iff)
  show "online_dev (dev_write s p e) i = ((online_dev s)(devid \<mapsto> e)) i"
  proof (cases "i = devid")
    case True
    then show ?thesis
      using f unfolding online_dev_def find_id_write [OF assms(3,4)] dev_write_simps
      by (simp add: dev_at_write)
  next
    case False
    have "q \<noteq> p" if "find (\<lambda>q. dev_id (dev_at s q) = i) (cb_queue (dev_cb s)) = Some q" for q
      using that False d \<open>dev_at s p = d\<close> by (auto simp: find_Some_iff)
    with False show ?thesis
      unfolding online_dev_def find_id_write [OF assms(3,4)] dev_write_simps
      by (cases "find (\<lambda>q. dev_id (dev_at s q) = i) (cb_queue (dev_cb s))") (auto simp: dev_at_write)
  qed
qed

section \<open>The contract\<close>

text \<open>
  \<open>slot s devid i\<close> is the entry stored under slot \<open>i\<close> of an online device, if there is one,
  and \<open>fits s devid i\<close> says that the slot exists.
\<close>

locale slot_store =
  fixes set_slot :: "'s \<Rightarrow> u32 \<Rightarrow> 'v \<Rightarrow> (int \<times> 's) option"
    and get_slot :: "'s \<Rightarrow> u32 \<Rightarrow> u16 \<Rightarrow> 'v \<Rightarrow> (int \<times> 'v) option"
    and del_slot :: "'s \<Rightarrow> u32 \<Rightarrow> u16 \<Rightarrow> (int \<times> 's) option"
    and vid :: "'v \<Rightarrow> u16"
    and ok :: "'s \<Rightarrow> bool"
    and fits :: "'s \<Rightarrow> u32 \<Rightarrow> u16 \<Rightarrow> bool"
    and slot :: "'s \<Rightarrow> u32 \<Rightarrow> u16 \<Rightarrow> 'v option"
  assumes get_law: "ok s \<Longrightarrow> get_slot s devid i out =
      Some (case slot s devid i of None \<Rightarrow> (errno HSB_E_BAD_PARAM, out) | Some v \<Rightarrow> (errno HSB_E_OK, v))"
    and set_fits: "ok s \<Longrightarrow> fits s devid (vid v) \<Longrightarrow> runs (set_slot s devid v) (\<lambda>(r, t).
      r = errno HSB_E_OK \<and> ok t \<and> fits t = fits s \<and>
      slot t = (slot s)(devid := (slot s devid)(vid v \<mapsto> v)))"
    and set_unfit: "ok s \<Longrightarrow> \<not> fits s devid (vid v) \<Longrightarrow>
      set_slot s devid v = Some (errno HSB_E_BAD_PARAM, s)"
    and del_used: "ok s \<Longrightarrow> slot s devid i \<noteq> None \<Longrightarrow> runs (del_slot s devid i) (\<lambda>(r, t).
      r = errno HSB_E_OK \<and> ok t \<and> fits t = fits s \<and>
      slot t = (slot s)(devid := (slot s devid)(i := None)))"
    and del_unused: "ok s \<Longrightarrow> slot s devid i = None \<Longrightarrow>
      del_slot s devid i = Some (errno HSB_E_BAD_PARAM, s)"
    and slot_fits: "ok s \<Longrightarrow> slot s devid i \<noteq> None \<Longrightarrow> fits s devid i"
begin

lemma set_then_get:
  assumes "ok s" and "fits s devid (vid v)"
  shows "runs (do { (r, t) \<leftarrow> set_slot s devid v; get_slot t e i out }) (\<lambda>(r, w).
    if e = devid \<and> i = vid v then r = errno HSB_E_OK \<and> w = v
    else get_slot s e i out = Some (r, w))"
  using set_fits [OF assms] assms(1) by (auto elim!: runsE simp: get_law split: option.splits)

lemma del_then_get:
  assumes "ok s" and "slot s devid i \<noteq> None"
  shows "runs (do { (r, t) \<leftarrow> del_slot s devid i; get_slot t e j out }) (\<lambda>(r, w).
    if e = devid \<and> j = i then r = errno HSB_E_BAD_PARAM \<and> w = out
    else get_slot s e j out = Some (r, w))"
  using del_used [OF assms] assms(1) by (auto elim!: runsE simp: get_law split: option.splits)

lemma set_then_del:
  assumes "ok s" and "fits s devid (vid v)"
  shows "runs (do { (r, t) \<leftarrow> set_slot s devid v; del_slot t devid (vid v) }) (\<lambda>(r, u).
    r = errno HSB_E_OK \<and> ok u \<and> slot u = (slot s)(devid := (slot s devid)(vid v := None)))"
  using set_fits [OF assms]
proof (rule runsE)
  fix x
  assume x: "set_slot s devid v = Some x" and P: "case x of (r, t) \<Rightarrow> r = errno HSB_E_OK \<and> ok t \<and>
    fits t = fits s \<and> slot t = (slot s)(devid := (slot s devid)(vid v \<mapsto> v))"
  obtain r t where rt: "x = (r, t)" by (cases x)
  with P have "ok t" "slot t devid (vid v) \<noteq> None" by simp_all
  from del_used [OF this] P x rt show ?thesis by (auto elim!: runsE)
qed

lemma set_ok: "ok s \<Longrightarrow> runs (set_slot s devid v) (\<lambda>(r, t). ok t)"
  using set_fits [of s devid v] set_unfit [of s devid v]
  by (cases "fits s devid (vid v)") (auto elim: runs_mono)

lemma del_ok: "ok s \<Longrightarrow> runs (del_slot s devid i) (\<lambda>(r, t). ok t)"
  using del_used [of s devid i] del_unused [of s devid i]
  by (cases "slot s devid i = None") (auto elim: runs_mono)

end

section \<open>The three stores\<close>

lemma slot_index: "(unat i = unat j) = (i = (j :: u16))"
  by (simp add: word_unat_eq_iff)

definition timer_fits :: "box \<Rightarrow> u32 \<Rightarrow> u16 \<Rightarrow> bool" where
  "timer_fits s devid i \<longleftrightarrow> online_dev s devid \<noteq> None \<and> unat i < HSB_DEV_MAX_TIMER_NUM"

definition timer_slot :: "box \<Rightarrow> u32 \<Rightarrow> u16 \<Rightarrow> HSB_TIMER_T option" where
  "timer_slot s devid i = (case online_dev s devid of None \<Rightarrow> None | Some d \<Rightarrow>
     if unat i < HSB_DEV_MAX_TIMER_NUM \<and> ts_active (dev_timer_status d ! unat i)
     then Some (dev_timer d ! unat i) else None)"

interpretation timers: slot_store set_dev_timer get_dev_timer del_dev_timer tm_id dev_ok timer_fits timer_slot
proof unfold_locales
  fix s devid i and out :: HSB_TIMER_T
  assume ok: "dev_ok s"
  show "get_dev_timer s devid i out = Some (case timer_slot s devid i of
      None \<Rightarrow> (errno HSB_E_BAD_PARAM, out) | Some v \<Rightarrow> (errno HSB_E_OK, v))"
    by (cases rule: online_dev_cases [OF ok, of devid])
      (auto simp: get_dev_timer_def timer_slot_def dev_shape_def)
next
  fix s devid and v :: HSB_TIMER_T
  assume ok: "dev_ok s" and fit: "timer_fits s devid (tm_id v)"
  show "runs (set_dev_timer s devid v) (\<lambda>(r, t). r = errno HSB_E_OK \<and> dev_ok t \<and> timer_fits t = timer_fits s \<and>
      timer_slot t = (timer_slot s)(devid := (timer_slot s devid)(tm_id v \<mapsto> v)))"
  proof (cases rule: online_dev_cases [OF ok, of devid])
    case 1
    with fit show ?thesis by (simp add: timer_fits_def)
  next
    case (2 p d)
    then show ?thesis using ok fit
      by (auto simp: set_dev_timer_def timer_fits_def timer_slot_def fun_eq_iff online_dev_write
          dev_shape_def dev_ok_write nth_list_update slot_index zero_timer_status_def Let_def)
  qed
next
  fix s devid and v :: HSB_TIMER_T
  assume ok: "dev_ok s" and fit: "\<not> timer_fits s devid (tm_id v)"
  then show "set_dev_timer s devid v = Some (errno HSB_E_BAD_PARAM, s)"
    by (cases rule: online_dev_cases [OF ok, of devid]) (auto simp: set_dev_timer_def timer_fits_def Let_def)
next
  fix s devid i
  assume ok: "dev_ok s" and used: "timer_slot s devid i \<noteq> None"
  show "runs (del_dev_timer s devid i) (\<lambda>(r, t). r = errno HSB_E_OK \<and> dev_ok t \<and> timer_fits t = timer_fits s \<and>
      timer_slot t = (timer_slot s)(devid := (timer_slot s devid)(i := None)))"
  proof (cases rule: online_dev_cases [OF ok, of devid])
    case 1
    with used show ?thesis by (simp add: timer_slot_def)
  next
    case (2 p d)
    then show ?thesis using ok used
      by (auto simp: del_dev_timer_def timer_fits_def timer_slot_def fun_eq_iff online_dev_write
          dev_shape_def dev_ok_write nth_list_update slot_index zero_timer_status_def split: if_splits)
  qed
next
  fix s devid i
  assume ok: "dev_ok s" and "timer_slot s devid i = None"
  then show "del_dev_timer s devid i = Some (errno HSB_E_BAD_PARAM, s)"
    by (cases rule: online_dev_cases [OF ok, of devid])
      (auto simp: del_dev_timer_def timer_slot_def dev_shape_def split: if_splits)
qed (auto simp: timer_slot_def timer_fits_def split: option.splits if_splits)

definition delay_fits :: "box \<Rightarrow> u32 \<Rightarrow> u16 \<Rightarrow> bool" where
  "delay_fits s devid i \<longleftrightarrow> online_dev s devid \<noteq> None \<and> unat i < HSB_DEV_MAX_DELAY_NUM"

definition delay_slot :: "box \<Rightarrow> u32 \<Rightarrow> u16 \<Rightarrow> HSB_DELAY_T option" where
  "delay_slot s devid i = (case online_dev s devid of None \<Rightarrow> None | Some d \<Rightarrow>
     if unat i < HSB_DEV_MAX_DELAY_NUM \<and> ds_active (dev_delay_status d ! unat i)
     then Some (dev_delay d ! unat i) else None)"

interpretation delays: slot_store set_dev_delay get_dev_delay del_dev_delay dl_id dev_ok delay_fits delay_slot
proof unfold_locales
  fix s devid i and out :: HSB_DELAY_T
  assume ok: "dev_ok s"
  show "get_dev_delay s devid i out = Some (case delay_slot s devid i of
      None \<Rightarrow> (errno HSB_E_BAD_PARAM, out) | Some v \<Rightarrow> (errno HSB_E_OK, v))"
    by (cases rule: online_dev_cases [OF ok, of devid])
      (auto simp: get_dev_delay_def delay_slot_def dev_shape_def)
next
  fix s devid and v :: HSB_DELAY_T
  assume ok: "dev_ok s" and fit: "delay_fits s devid (dl_id v)"
  show "runs (set_dev_delay s devid v) (\<lambda>(r, t). r = errno HSB_E_OK \<and> dev_ok t \<and> delay_fits t = delay_fits s \<and>
      delay_slot t = (delay_slot s)(devid := (delay_slot s devid)(dl_id v \<mapsto> v)))"
  proof (cases rule: online_dev_cases [OF ok, of devid])
    case 1
    with fit show ?thesis by (simp add: delay_fits_def)
  next
    case (2 p d)
    then show ?thesis using ok fit
      by (auto simp: set_dev_delay_def delay_fits_def delay_slot_def fun_eq_iff online_dev_write
          dev_shape_def dev_ok_write nth_list_update slot_index zero_timer_status_def Let_def)
  qed
next
  fix s devid and v :: HSB_DELAY_T
  assume ok: "dev_ok s" and fit: "\<not> delay_fits s devid (dl_id v)"
  then show "set_dev_delay s devid v = Some (errno HSB_E_BAD_PARAM, s)"
    by (cases rule: online_dev_cases [OF ok, of devid]) (auto simp: set_dev_delay_def delay_fits_def Let_def)
next
  fix s devid i
  assume ok: "dev_ok s" and used: "delay_slot s devid i \<noteq> None"
  show "runs (del_dev_delay s devid i) (\<lambda>(r, t). r = errno HSB_E_OK \<and> dev_ok t \<and> delay_fits t = delay_fits s \<and>
      delay_slot t = (delay_slot s)(devid := (delay_slot s devid)(i := None)))"
  proof (cases rule: online_dev_cases [OF ok, of devid])
    case 1
    with used show ?thesis by (simp add: delay_slot_def)
  next
    case (2 p d)
    then show ?thesis using ok used
      by (auto simp: del_dev_delay_def delay_fits_def delay_slot_def fun_eq_iff online_dev_write
          dev_shape_def dev_ok_write nth_list_update slot_index zero_timer_status_def split: if_splits)
  qed
next
  fix s devid i
  assume ok: "dev_ok s" and "delay_slot s devid i = None"
  then show "del_dev_delay s devid i = Some (errno HSB_E_BAD_PARAM, s)"
    by (cases rule: online_dev_cases [OF ok, of devid])
      (auto simp: del_dev_delay_def delay_slot_def dev_shape_def split: if_splits)
qed (auto simp: delay_slot_def delay_fits_def split: option.splits if_splits)

definition linkage_fits :: "box \<Rightarrow> u32 \<Rightarrow> u16 \<Rightarrow> bool" where
  "linkage_fits s devid i \<longleftrightarrow> online_dev s devid \<noteq> None \<and> unat i < HSB_DEV_MAX_LINKAGE_NUM"

definition linkage_slot :: "box \<Rightarrow> u32 \<Rightarrow> u16 \<Rightarrow> HSB_LINKAGE_T option" where
  "linkage_slot s devid i = (case online_dev s devid of None \<Rightarrow> None | Some d \<Rightarrow>
     if unat i < HSB_DEV_MAX_LINKAGE_NUM \<and> ls_active (dev_link_status d ! unat i)
     then Some (dev_link d ! unat i) else None)"

interpretation linkages: slot_store set_dev_linkage get_dev_linkage del_dev_linkage lk_id dev_ok linkage_fits linkage_slot
proof unfold_locales
  fix s devid i and out :: HSB_LINKAGE_T
  assume ok: "dev_ok s"
  show "get_dev_linkage s devid i out = Some (case linkage_slot s devid i of
      None \<Rightarrow> (errno HSB_E_BAD_PARAM, out) | Some v \<Rightarrow> (errno HSB_E_OK, v))"
    by (cases rule: online_dev_cases [OF ok, of devid])
      (auto simp: get_dev_linkage_def linkage_slot_def dev_shape_def)
next
  fix s devid and v :: HSB_LINKAGE_T
  assume ok: "dev_ok s" and fit: "linkage_fits s devid (lk_id v)"
  show "runs (set_dev_linkage s devid v) (\<lambda>(r, t). r = errno HSB_E_OK \<and> dev_ok t \<and> linkage_fits t = linkage_fits s \<and>
      linkage_slot t = (linkage_slot s)(devid := (linkage_slot s devid)(lk_id v \<mapsto> v)))"
  proof (cases rule: online_dev_cases [OF ok, of devid])
    case 1
    with fit show ?thesis by (simp add: linkage_fits_def)
  next
    case (2 p d)
    then show ?thesis using ok fit
      by (auto simp: set_dev_linkage_def linkage_fits_def linkage_slot_def fun_eq_iff online_dev_write
          dev_shape_def dev_ok_write nth_list_update slot_index zero_timer_status_def Let_def)
  qed
next
  fix s devid and v :: HSB_LINKAGE_T
  assume ok: "dev_ok s" and fit: "\<not> linkage_fits s devid (lk_id v)"
  then show "set_dev_linkage s devid v = Some (errno HSB_E_BAD_PARAM, s)"
    by (cases rule: online_dev_cases [OF ok, of devid]) (auto simp: set_dev_linkage_def linkage_fits_def Let_def)
next
  fix s devid i
  assume ok: "dev_ok s" and used: "linkage_slot s devid i \<noteq> None"
  show "runs (del_dev_linkage s devid i) (\<lambda>(r, t). r = errno HSB_E_OK \<and> dev_ok t \<and> linkage_fits t = linkage_fits s \<and>
      linkage_slot t = (linkage_slot s)(devid := (linkage_slot s devid)(i := None)))"
  proof (cases rule: online_dev_cases [OF ok, of devid])
    case 1
    with used show ?thesis by (simp add: linkage_slot_def)
  next
    case (2 p d)
    then show ?thesis using ok used
      by (auto simp: del_dev_linkage_def linkage_fits_def linkage_slot_def fun_eq_iff online_dev_write
          dev_shape_def dev_ok_write nth_list_update slot_index zero_timer_status_def split: if_splits)
  qed
next
  fix s devid i
  assume ok: "dev_ok s" and "linkage_slot s devid i = None"
  then show "del_dev_linkage s devid i = Some (errno HSB_E_BAD_PARAM, s)"
    by (cases rule: online_dev_cases [OF ok, of devid])
      (auto simp: del_dev_linkage_def linkage_slot_def dev_shape_def split: if_splits)
qed (auto simp: linkage_slot_def linkage_fits_def split: option.splits if_splits)

section \<open>Properties\<close>

text \<open>
  C7. Storing a timer and reading any slot of any device back: the slot just written
  returns the stored timer, every other slot of every device answers exactly as before.
\<close>

theorem set_get_timer:
  assumes "dev_ok s" and "timer_fits s devid (tm_id v)"
  shows "runs (do { (r, t) \<leftarrow> set_dev_timer s devid v; get_dev_timer t e i out }) (\<lambda>(r, w).
    if e = devid \<and> i = tm_id v then r = errno HSB_E_OK \<and> w = v
    else get_dev_timer s e i out = Some (r, w))"
  by (rule timers.set_then_get [OF assms])

text \<open>
  Deleting a linkage rule: the slot is empty afterwards (reading it reports
  \<^verbatim>\<open>HSB_E_BAD_PARAM\<close> and leaves the caller's structure alone), every other slot of every
  device answers as before.
\<close>

theorem del_get_linkage:
  assumes "dev_ok s" and "linkage_slot s devid i \<noteq> None"
  shows "runs (do { (r, t) \<leftarrow> del_dev_linkage s devid i; get_dev_linkage t e j out }) (\<lambda>(r, w).
    if e = devid \<and> j = i then r = errno HSB_E_BAD_PARAM \<and> w = out
    else get_dev_linkage s e j out = Some (r, w))"
  by (rule linkages.del_then_get [OF assms])

text \<open>
  Storing a delay and deleting it again empties exactly that slot, and both calls
  succeed.
\<close>

theorem set_del_delay:
  assumes "dev_ok s" and "delay_fits s devid (dl_id v)"
  shows "runs (do { (r, t) \<leftarrow> set_dev_delay s devid v; del_dev_delay t devid (dl_id v) }) (\<lambda>(r, u).
    r = errno HSB_E_OK \<and> dev_ok u \<and>
    delay_slot u = (delay_slot s)(devid := (delay_slot s devid)(dl_id v := None)))"
  by (rule delays.set_then_del [OF assms])

end
