(* ===== verification/Dev_Scheduler.thy ===== *)
theory Dev_Scheduler
  imports Dev_Slots
begin

text \<open>
  The periodic check of timers and delays (\<^verbatim>\<open>_check_dev_timer_and_delay\<close> and
  \<^verbatim>\<open>check_timer_and_delay\<close> of \<^verbatim>\<open>core_daemon/device.c\<close>), which the main loop of the daemon runs
  about once a second. What \<^verbatim>\<open>time\<close> and \<^verbatim>\<open>localtime_r\<close> return is an argument, one clock reading per
  device visited. \<^verbatim>\<open>time_t\<close> is the 64-bit signed type of the LP64 targets, so the comparison of
  an elapsed time with \<^verbatim>\<open>delay_sec\<close> is a comparison of integers. The three slot loops share
  the locale \<open>slot_loop\<close>.
\<close>

section \<open>The code\<close>

record clock =
  clk_now :: int
  clk_hour :: nat
  clk_min :: nat
  clk_sec :: nat
  clk_wday :: nat

definition sec_of :: "nat \<Rightarrow> nat \<Rightarrow> nat \<Rightarrow> u32" where
  "sec_of h m sec = of_nat (h * 3600 + m * 60 + sec)"

definition nextday_body :: "clock \<Rightarrow> ptr \<Rightarrow> nat \<Rightarrow> box \<Rightarrow> box option" where
  "nextday_body c p cnt s = do {
     d \<leftarrow> deref s p;
     ptimer \<leftarrow> arr_get (dev_timer d) cnt;
     tstatus \<leftarrow> arr_get (dev_timer_status d) cnt;
     if \<not> ts_active tstatus then Some s
     else do {
       let weekday = tm_wday ptimer;
       ss \<leftarrow> arr_set (dev_timer_status d) cnt
         (if \<not> CHECK_BIT weekday (clk_wday c) then tstatus\<lparr>ts_expired := True\<rparr>
          else tstatus\<lparr>ts_expired := False\<rparr>);
       Some (dev_write s p (d\<lparr>dev_timer_status := ss\<rparr>))
     }
   }"

text \<open>Step 5 of the timer loop and the action of the delay loop are the same code.\<close>

definition do_slot_action :: "box \<Rightarrow> u8 \<Rightarrow> u32 \<Rightarrow> u16 \<Rightarrow> u16 \<Rightarrow> u32 \<Rightarrow> box option" where
  "do_slot_action s flag devid aid param1 param2 =
     (if CHECK_BIT flag 0 then do {
        (r, s) \<leftarrow> set_dev_action_async s
          \<lparr>act_devid = devid, act_id = aid, act_param1 = param1, act_param2 = param2\<rparr> None;
        Some s
      } else do {
        stat \<leftarrow> one_status s devid aid param1;
        (r, s) \<leftarrow> set_dev_status_async s stat None;
        Some s
      })"

definition timer_body :: "clock \<Rightarrow> u32 \<Rightarrow> u32 \<Rightarrow> ptr \<Rightarrow> nat \<Rightarrow> box \<Rightarrow> box option" where
  "timer_body c work_mode sec_today p cnt s = do {
     d \<leftarrow> deref s p;
     ptimer \<leftarrow> arr_get (dev_timer d) cnt;
     tstatus \<leftarrow> arr_get (dev_timer_status d) cnt;
     let weekday = tm_wday ptimer;
     let sec_timer = sec_of (unat (tm_hour ptimer)) (unat (tm_min ptimer)) (unat (tm_sec ptimer));
     if \<not> ts_active tstatus \<or> ts_expired tstatus then Some s
     else if \<not> CHECK_BIT (tm_work_mode ptimer) (unat work_mode) then Some s
     else if \<not> CHECK_BIT weekday (clk_wday c) then Some s
     else if sec_timer > sec_today \<or> sec_today - sec_timer > 5 then Some s
     else do {
       s \<leftarrow> do_slot_action s (tm_flag ptimer) (dev_id d) (tm_act_id ptimer)
             (tm_act_param1 ptimer) (tm_act_param2 ptimer);
       if CHECK_BIT weekday 7 then do {
         ts \<leftarrow> arr_set (dev_timer d) cnt zero_timer;
         ss \<leftarrow> arr_set (dev_timer_status d) cnt zero_timer_status;
         Some (dev_write s p (d\<lparr>dev_timer := ts, dev_timer_status := ss\<rparr>))
       } else do {
         ss \<leftarrow> arr_set (dev_timer_status d) cnt (tstatus\<lparr>ts_expired := True\<rparr>);
         Some (dev_write s p (d\<lparr>dev_timer_status := ss\<rparr>))
       }
     }
   }"

definition delay_body :: "clock \<Rightarrow> u32 \<Rightarrow> ptr \<Rightarrow> nat \<Rightarrow> box \<Rightarrow> box option" where
  "delay_body c work_mode p cnt s = do {
     d \<leftarrow> deref s p;
     pdelay \<leftarrow> arr_get (dev_delay d) cnt;
     dstatus \<leftarrow> arr_get (dev_delay_status d) cnt;
     if \<not> ds_active dstatus \<or> \<not> ds_started dstatus then Some s
     else if \<not> CHECK_BIT (dl_work_mode pdelay) (unat work_mode) then Some s
     else if clk_now c - ds_start_tm dstatus < uint (dl_delay_sec pdelay) then Some s
     else do {
       s \<leftarrow> do_slot_action s (dl_flag pdelay) (dev_id d) (dl_act_id pdelay)
             (dl_act_param1 pdelay) (dl_act_param2 pdelay);
       ss \<leftarrow> arr_set (dev_delay_status d) cnt (dstatus\<lparr>ds_started := False\<rparr>);
       Some (dev_write s p (d\<lparr>dev_delay_status := ss\<rparr>))
     }
   }"

definition check_dev_timer_and_delay :: "clock \<Rightarrow> ptr \<Rightarrow> box \<Rightarrow> box option" where
  "check_dev_timer_and_delay c p s =
     (if p = NULL then Some s
      else do {
        let work_mode = cb_work_mode (dev_cb s);
        let sec_today = sec_of (clk_hour c) (clk_min c) (clk_sec c);
        s \<leftarrow> (if sec_today < cb_sec_today (dev_cb s) \<and> sec_today < 10
              then for_list (nextday_body c p) [0..<HSB_DEV_MAX_TIMER_NUM] s else Some s);
        let s = dev_cb_update (cb_sec_today_update (\<lambda>_. sec_today)) s;
        d \<leftarrow> deref s p;
        if \<not> CHECK_BIT (dev_work_mode d) (unat work_mode) then Some s
        else do {
          s \<leftarrow> for_list (timer_body c work_mode sec_today p) [0..<HSB_DEV_MAX_TIMER_NUM] s;
          for_list (delay_body c work_mode p) [0..<HSB_DEV_MAX_DELAY_NUM] s
        }
      })"

definition check_timer_and_delay :: "(nat \<Rightarrow> clock) \<Rightarrow> box \<Rightarrow> (int \<times> box) option" where
  "check_timer_and_delay clk s = do {
     s \<leftarrow> for_list (\<lambda>(i, p) s. check_dev_timer_and_delay (clk i) p s) (enumerate 0 (cb_queue (dev_cb s))) s;
     Some (errno HSB_E_OK, s)
   }"

section \<open>Slot loops\<close>

definition can_push :: "box \<Rightarrow> bool" where
  "can_push s \<longleftrightarrow> status_shape (stk_status s) \<and> \<not> tc_mutex (cb_async_thread_ctl (dev_cb s))"

lemma can_push_simps [simp]:
  "can_push (pushed s acts) = can_push s" "can_push (dev_write s p d) = can_push s"
  by (simp_all add: can_push_def)

lemma deref_write: "p \<noteq> 0 \<Longrightarrow> deref (dev_write s p d) p = Some d"
  by (simp add: deref_def dev_write_def)

lemma deref_pushed [simp]: "deref (pushed s acts) p = deref s p"
  by (simp add: deref_def)

lemma write_pushed [simp]: "dev_write (pushed s acts) p d = pushed (dev_write s p d) acts"
  by (simp add: dev_write_def pushed_def)

lemma write_write [simp]: "dev_write (dev_write s p d) p e = dev_write s p e"
  by (simp add: dev_write_def)

lemma write_same: "deref s p = Some d \<Longrightarrow> dev_write s p d = s"
  by (cases s) (auto simp: deref_def dev_write_def fun_upd_idem split: if_splits)

locale slot_loop =
  fixes body :: "ptr \<Rightarrow> nat \<Rightarrow> box \<Rightarrow> box option"
    and step :: "nat \<Rightarrow> HSB_DEV_T \<Rightarrow> HSB_DEV_T"
    and outs :: "HSB_STATUS_T \<Rightarrow> HSB_DEV_T \<Rightarrow> nat \<Rightarrow> HSB_ACT_T list"
    and view :: "HSB_DEV_T \<Rightarrow> nat \<Rightarrow> 'v"
    and n :: nat
    and pre :: bool
  assumes body_law: "pre \<Longrightarrow> can_push s \<Longrightarrow> deref s p = Some d \<Longrightarrow> dev_shape d \<Longrightarrow> i < n \<Longrightarrow>
      body p i s = Some (pushed (dev_write s p (step i d)) (outs (stk_status s) d i))"
    and step_shape: "dev_shape d \<Longrightarrow> dev_shape (step i d)"
    and outs_other: "i \<noteq> j \<Longrightarrow> outs stk (step i d) j = outs stk d j"
    and step_other: "i \<noteq> j \<Longrightarrow> view (step i d) j = view d j"
    and step_same: "dev_shape d \<Longrightarrow> dev_shape e \<Longrightarrow> j < n \<Longrightarrow> view d j = view e j \<Longrightarrow>
      view (step j d) j = view (step j e) j"
    and step_fixed: "dev_id (step i d) = dev_id d" "dev_driver (step i d) = dev_driver d"
      "dev_work_mode (step i d) = dev_work_mode d" "dev_info (step i d) = dev_info d"
begin

lemma fold_fixed:
  "dev_id (fold step is d) = dev_id d" "dev_driver (fold step is d) = dev_driver d"
  "dev_work_mode (fold step is d) = dev_work_mode d" "dev_info (fold step is d) = dev_info d"
  by (induction "is" arbitrary: d) (simp_all add: step_fixed)

lemma fold_view_other: "j \<notin> set is \<Longrightarrow> view (fold step is d) j = view d j"
  by (induction "is" arbitrary: d) (auto simp: step_other)

lemma fold_view:
  assumes "dev_shape d" and "distinct is" and "j \<in> set is" and "j < n"
  shows "view (fold step is d) j = view (step j d) j"
  using assms
proof (induction "is" arbitrary: d)
  case (Cons i "is")
  show ?case
  proof (cases "i = j")
    case True
    with Cons.prems show ?thesis by (simp add: fold_view_other)
  next
    case False
    with Cons.prems have "view (fold step is (step i d)) j = view (step j (step i d)) j"
      by (intro Cons.IH) (auto simp: step_shape)
    also have "\<dots> = view (step j d) j"
      using False Cons.prems by (intro step_same) (auto simp: step_shape step_other)
    finally show ?thesis by simp
  qed
qed simp

lemma fold_shape: "dev_shape d \<Longrightarrow> dev_shape (fold step is d)"
  by (induction "is" arbitrary: d) (simp_all add: step_shape)

lemma loop:
  assumes pre and "can_push s" and "deref s p = Some d" and "dev_shape d"
    and "distinct is" and "\<forall>i \<in> set is. i < n"
  shows "for_list (body p) is s =
    Some (pushed (dev_write s p (fold step is d)) (concat (map (outs (stk_status s) d) is)))"
  using assms
proof (induction "is" arbitrary: s d)
  case Nil
  then show ?case by (simp add: write_same)
next
  case (Cons i "is")
  let ?t = "pushed (dev_write s p (step i d)) (outs (stk_status s) d i)"
  have "p \<noteq> 0" using Cons.prems(3) deref_live by blast
  then have "deref ?t p = Some (step i d)" by (simp add: deref_write)
  moreover have "concat (map (outs (stk_status s) (step i d)) is) = concat (map (outs (stk_status s) d) is)"
    using Cons.prems(5) by (intro arg_cong [where f = concat] map_cong) (auto intro: outs_other)
  ultimately show ?case
    using Cons.prems Cons.IH [of ?t "step i d"] by (simp add: body_law step_shape)
qed

end

section \<open>What the check does to one device\<close>

definition slot_act :: "HSB_STATUS_T \<Rightarrow> u8 \<Rightarrow> u32 \<Rightarrow> u16 \<Rightarrow> u16 \<Rightarrow> u32 \<Rightarrow> HSB_ACT_T" where
  "slot_act stk flag devid aid param1 param2 =
     (if bit flag 0
      then HSB_ACT_TYPE_DO_ACTION None
        \<lparr>act_devid = devid, act_id = aid, act_param1 = param1, act_param2 = param2\<rparr>
      else HSB_ACT_TYPE_SET_STATUS None (set_one stk devid aid param1))"

lemma do_slot_action_eq:
  "can_push s \<Longrightarrow> do_slot_action s flag devid aid param1 param2 =
     Some (pushed s [slot_act (stk_status s) flag devid aid param1 param2])"
  by (simp add: do_slot_action_def slot_act_def can_push_def one_status_set_one push_async_pushed
      set_dev_action_async_def set_dev_status_async_def CHECK_BIT_bit)

definition nextday_step :: "clock \<Rightarrow> nat \<Rightarrow> HSB_DEV_T \<Rightarrow> HSB_DEV_T" where
  "nextday_step c i d =
     (if ts_active (dev_timer_status d ! i)
      then d\<lparr>dev_timer_status := (dev_timer_status d)[i := (dev_timer_status d ! i)
             \<lparr>ts_expired := \<not> bit (tm_wday (dev_timer d ! i)) (clk_wday c)\<rparr>]\<rparr>
      else d)"

text \<open>The seconds of the day of a timer and of a clock, as numbers.\<close>

definition timer_sec :: "HSB_TIMER_T \<Rightarrow> nat" where
  "timer_sec tm = unat (tm_hour tm) * 3600 + unat (tm_min tm) * 60 + unat (tm_sec tm)"

definition clock_sec :: "clock \<Rightarrow> nat" where
  "clock_sec c = clk_hour c * 3600 + clk_min c * 60 + clk_sec c"

definition clock_ok :: "clock \<Rightarrow> bool" where
  "clock_ok c \<longleftrightarrow> clk_hour c < 24 \<and> clk_min c < 60 \<and> clk_sec c \<le> 60 \<and> clk_wday c < 7"

definition timer_fires :: "clock \<Rightarrow> u32 \<Rightarrow> HSB_DEV_T \<Rightarrow> nat \<Rightarrow> bool" where
  "timer_fires c mode d i \<longleftrightarrow>
     ts_active (dev_timer_status d ! i) \<and> \<not> ts_expired (dev_timer_status d ! i) \<and>
     bit (tm_work_mode (dev_timer d ! i)) (unat mode) \<and>
     bit (tm_wday (dev_timer d ! i)) (clk_wday c) \<and>
     timer_sec (dev_timer d ! i) \<le> clock_sec c \<and> clock_sec c \<le> timer_sec (dev_timer d ! i) + 5"

definition timer_step :: "clock \<Rightarrow> u32 \<Rightarrow> nat \<Rightarrow> HSB_DEV_T \<Rightarrow> HSB_DEV_T" where
  "timer_step c mode i d =
     (if \<not> timer_fires c mode d i then d
      else if bit (tm_wday (dev_timer d ! i)) 7
      then d\<lparr>dev_timer := (dev_timer d)[i := zero_timer],
             dev_timer_status := (dev_timer_status d)[i := zero_timer_status]\<rparr>
      else d\<lparr>dev_timer_status := (dev_timer_status d)[i := (dev_timer_status d ! i)\<lparr>ts_expired := True\<rparr>]\<rparr>)"

definition timer_outs :: "clock \<Rightarrow> u32 \<Rightarrow> HSB_STATUS_T \<Rightarrow> HSB_DEV_T \<Rightarrow> nat \<Rightarrow> HSB_ACT_T list" where
  "timer_outs c mode stk d i =
     (if timer_fires c mode d i
      then let tm = dev_timer d ! i in
        [slot_act stk (tm_flag tm) (dev_id d) (tm_act_id tm) (tm_act_param1 tm) (tm_act_param2 tm)]
      else [])"

definition delay_fires :: "clock \<Rightarrow> u32 \<Rightarrow> HSB_DEV_T \<Rightarrow> nat \<Rightarrow> bool" where
  "delay_fires c mode d i \<longleftrightarrow>
     ds_active (dev_delay_status d ! i) \<and> ds_started (dev_delay_status d ! i) \<and>
     bit (dl_work_mode (dev_delay d ! i)) (unat mode) \<and>
     ds_start_tm (dev_delay_status d ! i) + uint (dl_delay_sec (dev_delay d ! i)) \<le> clk_now c"

definition delay_step :: "clock \<Rightarrow> u32 \<Rightarrow> nat \<Rightarrow> HSB_DEV_T \<Rightarrow> HSB_DEV_T" where
  "delay_step c mode i d =
     (if delay_fires c mode d i
      then d\<lparr>dev_delay_status := (dev_delay_status d)[i := (dev_delay_status d ! i)\<lparr>ds_started := False\<rparr>]\<rparr>
      else d)"

definition delay_outs :: "clock \<Rightarrow> u32 \<Rightarrow> HSB_STATUS_T \<Rightarrow> HSB_DEV_T \<Rightarrow> nat \<Rightarrow> HSB_ACT_T list" where
  "delay_outs c mode stk d i =
     (if delay_fires c mode d i
      then let dl = dev_delay d ! i in
        [slot_act stk (dl_flag dl) (dev_id d) (dl_act_id dl) (dl_act_param1 dl) (dl_act_param2 dl)]
      else [])"

lemma sec_of_bound: "n < 2 ^ 32 \<Longrightarrow> unat (of_nat n :: u32) = n"
  by (simp add: unat_of_nat take_bit_nat_eq_self)

lemma timer_sec_bound: "timer_sec tm < 2 ^ 32"
proof -
  have "unat (tm_hour tm) < 2 ^ 8" "unat (tm_min tm) < 2 ^ 8" "unat (tm_sec tm) < 2 ^ 8"
    using unsigned_less [of "tm_hour tm"] unsigned_less [of "tm_min tm"] unsigned_less [of "tm_sec tm"]
    by simp_all
  then show ?thesis by (simp add: timer_sec_def)
qed

lemma clock_sec_bound: "clock_ok c \<Longrightarrow> clock_sec c < 2 ^ 32"
  by (simp add: clock_sec_def clock_ok_def)

text \<open>The unsigned comparison of the code is the five second window.\<close>

lemma window_iff:
  assumes "clock_ok c"
  shows "(sec_of (unat (tm_hour tm)) (unat (tm_min tm)) (unat (tm_sec tm)) > sec_of (clk_hour c) (clk_min c) (clk_sec c) \<or>
      sec_of (clk_hour c) (clk_min c) (clk_sec c) -
      sec_of (unat (tm_hour tm)) (unat (tm_min tm)) (unat (tm_sec tm)) > 5) \<longleftrightarrow>
    \<not> (timer_sec tm \<le> clock_sec c \<and> clock_sec c \<le> timer_sec tm + 5)"
proof -
  let ?t = "of_nat (timer_sec tm) :: u32" and ?c = "of_nat (clock_sec c) :: u32"
  have t: "unat ?t = timer_sec tm" and c: "unat ?c = clock_sec c"
    using timer_sec_bound clock_sec_bound [OF assms] by (simp_all add: sec_of_bound)
  have lt: "?t > ?c \<longleftrightarrow> clock_sec c < timer_sec tm" by (simp add: word_less_nat_alt t c)
  have "?c - ?t > 5 \<longleftrightarrow> timer_sec tm + 5 < clock_sec c" if "timer_sec tm \<le> clock_sec c"
    using that t c by (auto simp: word_less_nat_alt unat_sub word_le_nat_alt)
  with lt show ?thesis
    unfolding sec_of_def timer_sec_def [symmetric] clock_sec_def [symmetric] by auto
qed

definition timer_view :: "HSB_DEV_T \<Rightarrow> nat \<Rightarrow> HSB_TIMER_T \<times> HSB_TIMER_STATUS_T" where
  "timer_view d i = (dev_timer d ! i, dev_timer_status d ! i)"

definition delay_view :: "HSB_DEV_T \<Rightarrow> nat \<Rightarrow> HSB_DELAY_T \<times> HSB_DELAY_STATUS_T" where
  "delay_view d i = (dev_delay d ! i, dev_delay_status d ! i)"

interpretation nextday: slot_loop "nextday_body c" "nextday_step c" "\<lambda>stk d i. []" timer_view HSB_DEV_MAX_TIMER_NUM True for c
  by unfold_locales
    (auto simp: nextday_body_def nextday_step_def dev_shape_def CHECK_BIT_bit write_same Let_def timer_view_def)

lemma timer_fires_other: "i \<noteq> j \<Longrightarrow> timer_fires c mode (timer_step c' mode' i d) j = timer_fires c mode d j"
  by (simp add: timer_step_def timer_fires_def)

lemma timer_body_eq:
  assumes "can_push s" and "deref s p = Some d" and "dev_shape d" and "i < HSB_DEV_MAX_TIMER_NUM"
    and "clock_ok c"
  shows "timer_body c mode (sec_of (clk_hour c) (clk_min c) (clk_sec c)) p i s =
    Some (pushed (dev_write s p (timer_step c mode i d)) (timer_outs c mode (stk_status s) d i))"
proof (cases "timer_fires c mode d i")
  case True
  with assms show ?thesis
    by (simp add: timer_body_def timer_step_def timer_outs_def timer_fires_def dev_shape_def
        do_slot_action_eq CHECK_BIT_bit window_iff Let_def)
next
  case False
  with assms show ?thesis
    by (auto simp: timer_body_def timer_step_def timer_outs_def timer_fires_def dev_shape_def
        CHECK_BIT_bit window_iff Let_def write_same)
qed

interpretation timer: slot_loop
  "timer_body c mode (sec_of (clk_hour c) (clk_min c) (clk_sec c))"
  "timer_step c mode" "timer_outs c mode" timer_view HSB_DEV_MAX_TIMER_NUM "clock_ok c" for c mode
proof unfold_locales
  fix stk d and i j :: nat
  assume ij: "i \<noteq> j"
  have "dev_timer (timer_step c mode i d) ! j = dev_timer d ! j"
    and "dev_id (timer_step c mode i d) = dev_id d"
    using ij by (simp_all add: timer_step_def)
  with timer_fires_other [OF ij]
  show "timer_outs c mode stk (timer_step c mode i d) j = timer_outs c mode stk d j"
    by (simp add: timer_outs_def)
qed (auto simp: timer_body_eq timer_step_def timer_fires_def dev_shape_def timer_view_def)

interpretation delay: slot_loop "delay_body c mode" "delay_step c mode" "delay_outs c mode" delay_view
  HSB_DEV_MAX_DELAY_NUM True for c mode
proof unfold_locales
  fix s p d i
  assume h: "can_push s" "deref s p = Some d" "dev_shape d" "i < HSB_DEV_MAX_DELAY_NUM"
  have le: "clk_now c - ds_start_tm st < uint w \<longleftrightarrow> \<not> ds_start_tm st + uint w \<le> clk_now c"
    for st and w :: u32 by auto
  show "delay_body c mode p i s =
      Some (pushed (dev_write s p (delay_step c mode i d)) (delay_outs c mode (stk_status s) d i))"
    using h by (cases "delay_fires c mode d i")
      (auto simp: delay_body_def delay_step_def delay_outs_def delay_fires_def dev_shape_def
        do_slot_action_eq CHECK_BIT_bit Let_def write_same le)
qed (auto simp: delay_step_def delay_outs_def delay_fires_def dev_shape_def delay_view_def)

section \<open>One visit\<close>

definition is_nextday :: "clock \<Rightarrow> u32 \<Rightarrow> bool" where
  "is_nextday c before \<longleftrightarrow> clock_sec c < unat before \<and> clock_sec c < 10"

definition day_dev :: "clock \<Rightarrow> u32 \<Rightarrow> HSB_DEV_T \<Rightarrow> HSB_DEV_T" where
  "day_dev c before d =
     (if is_nextday c before then fold (nextday_step c) [0..<HSB_DEV_MAX_TIMER_NUM] d else d)"

definition timed_dev :: "clock \<Rightarrow> u32 \<Rightarrow> u32 \<Rightarrow> HSB_DEV_T \<Rightarrow> HSB_DEV_T" where
  "timed_dev c mode before d =
     fold (timer_step c mode) [0..<HSB_DEV_MAX_TIMER_NUM] (day_dev c before d)"

definition checked_dev :: "clock \<Rightarrow> u32 \<Rightarrow> u32 \<Rightarrow> HSB_DEV_T \<Rightarrow> HSB_DEV_T" where
  "checked_dev c mode before d =
     (if bit (dev_work_mode d) (unat mode)
      then fold (delay_step c mode) [0..<HSB_DEV_MAX_DELAY_NUM] (timed_dev c mode before d)
      else day_dev c before d)"

definition check_acts :: "clock \<Rightarrow> u32 \<Rightarrow> u32 \<Rightarrow> HSB_STATUS_T \<Rightarrow> HSB_DEV_T \<Rightarrow> HSB_ACT_T list" where
  "check_acts c mode before stk d =
     (if bit (dev_work_mode d) (unat mode)
      then concat (map (timer_outs c mode stk (day_dev c before d)) [0..<HSB_DEV_MAX_TIMER_NUM]) @
           concat (map (delay_outs c mode stk (timed_dev c mode before d)) [0..<HSB_DEV_MAX_DELAY_NUM])
      else [])"

definition checked :: "clock \<Rightarrow> ptr \<Rightarrow> box \<Rightarrow> box" where
  "checked c p s =
     (let mode = cb_work_mode (dev_cb s); before = cb_sec_today (dev_cb s); d = dev_at s p in
      pushed (dev_write (dev_cb_update (cb_sec_today_update (\<lambda>_. of_nat (clock_sec c))) s) p
        (checked_dev c mode before d)) (check_acts c mode before (stk_status s) d))"

lemma day_dev_shape [simp]: "dev_shape d \<Longrightarrow> dev_shape (day_dev c before d)"
  by (simp add: day_dev_def nextday.fold_shape)

lemma timed_dev_shape [simp]: "dev_shape d \<Longrightarrow> dev_shape (timed_dev c mode before d)"
  by (simp add: timed_dev_def timer.fold_shape)

lemma checked_dev_shape [simp]: "dev_shape d \<Longrightarrow> dev_shape (checked_dev c mode before d)"
  by (simp add: checked_dev_def delay.fold_shape)

lemma day_dev_fixed [simp]:
  "dev_id (day_dev c before d) = dev_id d" "dev_driver (day_dev c before d) = dev_driver d"
  "dev_work_mode (day_dev c before d) = dev_work_mode d" "dev_info (day_dev c before d) = dev_info d"
  by (simp_all add: day_dev_def nextday.fold_fixed)

lemma timed_dev_fixed [simp]:
  "dev_id (timed_dev c mode before d) = dev_id d" "dev_driver (timed_dev c mode before d) = dev_driver d"
  "dev_work_mode (timed_dev c mode before d) = dev_work_mode d"
  "dev_info (timed_dev c mode before d) = dev_info d"
  by (simp_all add: timed_dev_def timer.fold_fixed)

lemma checked_dev_fixed [simp]:
  "dev_id (checked_dev c mode before d) = dev_id d" "dev_driver (checked_dev c mode before d) = dev_driver d"
  "dev_work_mode (checked_dev c mode before d) = dev_work_mode d"
  "dev_info (checked_dev c mode before d) = dev_info d"
  by (simp_all add: checked_dev_def delay.fold_fixed)

lemma sec_of_clock: "sec_of (clk_hour c) (clk_min c) (clk_sec c) = of_nat (clock_sec c)"
  by (simp add: sec_of_def clock_sec_def)

lemma nextday_test:
  "clock_ok c \<Longrightarrow> (of_nat (clock_sec c) < before \<and> (of_nat (clock_sec c) :: u32) < 10) = is_nextday c before"
  using sec_of_bound [OF clock_sec_bound, of c] by (simp add: is_nextday_def word_less_nat_alt)

lemma can_push_sec [simp]: "can_push (dev_cb_update (cb_sec_today_update f) s) = can_push s"
  by (simp add: can_push_def)

lemma sec_write: "dev_cb_update f (dev_write s p d) = dev_write (dev_cb_update f s) p d"
  by (simp add: dev_write_def)

lemma check_dev_eq:
  assumes "can_push s" and "deref s p = Some d" and "dev_shape d" and "clock_ok c"
  shows "check_dev_timer_and_delay c p s = Some (checked c p s)"
proof -
  let ?m = "cb_work_mode (dev_cb s)" and ?b = "cb_sec_today (dev_cb s)"
  let ?s = "dev_cb_update (cb_sec_today_update (\<lambda>_. of_nat (clock_sec c))) s"
  let ?d = "day_dev c ?b d" and ?t = "timed_dev c ?m ?b d"
  have p: "p \<noteq> 0" and at: "dev_at s p = d" using assms(2) deref_live by blast+
  have day: "(if is_nextday c ?b then for_list (nextday_body c p) [0..<HSB_DEV_MAX_TIMER_NUM] s else Some s)
      = Some (dev_write s p ?d)"
    using assms nextday.loop [of s p d] by (simp add: day_dev_def write_same)
  have day_s: "deref (dev_write ?s p ?d) p = Some ?d" using p by (simp add: deref_write)
  have timer_loop: "for_list (timer_body c ?m (of_nat (clock_sec c)) p) [0..<HSB_DEV_MAX_TIMER_NUM] (dev_write ?s p ?d) =
      Some (pushed (dev_write ?s p ?t) (concat (map (timer_outs c ?m (stk_status s) ?d) [0..<HSB_DEV_MAX_TIMER_NUM])))"
    using assms timer.loop [OF assms(4) _ day_s, of "[0..<HSB_DEV_MAX_TIMER_NUM]" ?m]
    by (simp add: timed_dev_def sec_of_clock)
  have "deref (pushed (dev_write ?s p ?t) a) p = Some ?t" for a using p by (simp add: deref_write)
  then have delay_loop: "for_list (delay_body c ?m p) [0..<HSB_DEV_MAX_DELAY_NUM] (pushed (dev_write ?s p ?t) a) =
      Some (pushed (dev_write ?s p (fold (delay_step c ?m) [0..<HSB_DEV_MAX_DELAY_NUM] ?t))
        (a @ concat (map (delay_outs c ?m (stk_status s) ?t) [0..<HSB_DEV_MAX_DELAY_NUM])))" for a
    using assms delay.loop [of "pushed (dev_write ?s p ?t) a" p ?t "[0..<HSB_DEV_MAX_DELAY_NUM]" c ?m] by simp
  show ?thesis
    using p day timer_loop delay_loop day_s
    by (simp add: check_dev_timer_and_delay_def checked_def at sec_of_clock nextday_test [OF assms(4)] sec_write
        CHECK_BIT_bit checked_dev_def check_acts_def Let_def deref_write)
qed


text \<open>What one visit leaves in each timer and delay slot.\<close>

definition nextday_status :: "clock \<Rightarrow> HSB_TIMER_T \<Rightarrow> HSB_TIMER_STATUS_T \<Rightarrow> HSB_TIMER_STATUS_T" where
  "nextday_status c tm st =
     (if ts_active st then st\<lparr>ts_expired := \<not> bit (tm_wday tm) (clk_wday c)\<rparr> else st)"

lemma day_dev_slot:
  assumes "dev_shape d" and "i < HSB_DEV_MAX_TIMER_NUM"
  shows "dev_timer (day_dev c before d) ! i = dev_timer d ! i"
    and "dev_timer_status (day_dev c before d) ! i =
      (if is_nextday c before then nextday_status c (dev_timer d ! i) (dev_timer_status d ! i)
       else dev_timer_status d ! i)"
  using assms nextday.fold_view [OF assms(1), of "[0..<HSB_DEV_MAX_TIMER_NUM]" i c]
  by (simp_all add: day_dev_def timer_view_def nextday_step_def nextday_status_def dev_shape_def)

lemma timed_dev_slot:
  assumes "dev_shape d" and "i < HSB_DEV_MAX_TIMER_NUM"
  shows "timer_view (timed_dev c mode before d) i = timer_view (timer_step c mode i (day_dev c before d)) i"
  using assms timer.fold_view [OF day_dev_shape [OF assms(1)], of "[0..<HSB_DEV_MAX_TIMER_NUM]" i c mode]
  by (simp add: timed_dev_def)

lemma delay_fold_timer:
  "dev_timer (fold (delay_step c mode) is d) = dev_timer d"
  "dev_timer_status (fold (delay_step c mode) is d) = dev_timer_status d"
  "dev_delay (fold (delay_step c mode) is d) = dev_delay d"
  by (induction "is" arbitrary: d) (simp_all add: delay_step_def)

lemma timer_fold_delay:
  "dev_delay (fold (timer_step c mode) is d) = dev_delay d"
  "dev_delay_status (fold (timer_step c mode) is d) = dev_delay_status d"
  by (induction "is" arbitrary: d) (simp_all add: timer_step_def)

lemma nextday_fold_delay:
  "dev_delay (fold (nextday_step c) is d) = dev_delay d"
  "dev_delay_status (fold (nextday_step c) is d) = dev_delay_status d"
  by (induction "is" arbitrary: d) (simp_all add: nextday_step_def)

lemma timed_dev_delay [simp]:
  "dev_delay (timed_dev c mode before d) = dev_delay d"
  "dev_delay_status (timed_dev c mode before d) = dev_delay_status d"
  "dev_delay (day_dev c before d) = dev_delay d"
  "dev_delay_status (day_dev c before d) = dev_delay_status d"
  by (simp_all add: timed_dev_def timer_fold_delay day_dev_def nextday_fold_delay)

lemma checked_dev_timer:
  "bit (dev_work_mode d) (unat mode) \<Longrightarrow>
   timer_view (checked_dev c mode before d) i = timer_view (timed_dev c mode before d) i"
  by (simp add: checked_dev_def timer_view_def delay_fold_timer)

lemma timer_fires_view:
  "timer_view d i = timer_view e i \<Longrightarrow> timer_fires c mode d i = timer_fires c mode e i"
  by (simp add: timer_fires_def timer_view_def)

lemma fired_timer_done:
  assumes "dev_shape d" and "i < HSB_DEV_MAX_TIMER_NUM" and "timer_fires c mode d i"
  shows "\<not> timer_fires c' mode' (timer_step c mode i d) i"
  using assms by (auto simp: timer_step_def timer_fires_def dev_shape_def zero_timer_status_def)

lemma timer_not_firing_step: "\<not> timer_fires c mode d i \<Longrightarrow> timer_step c mode i d = d"
  by (simp add: timer_step_def)

lemma delay_not_firing_step: "\<not> delay_fires c mode d i \<Longrightarrow> delay_step c mode i d = d"
  by (simp add: delay_step_def)

lemma fold_id: "(\<And>i. i \<in> set is \<Longrightarrow> f i d = d) \<Longrightarrow> fold f is d = d"
  by (induction "is") auto

lemma checked_dev_no_timer:
  assumes "dev_shape d" and "i < HSB_DEV_MAX_TIMER_NUM" and "bit (dev_work_mode d) (unat mode)"
  shows "\<not> timer_fires c mode (checked_dev c mode before d) i"
proof -
  let ?D = "day_dev c before d"
  have "timer_fires c mode (checked_dev c mode before d) i = timer_fires c mode (timer_step c mode i ?D) i"
    using assms by (intro timer_fires_view) (simp add: checked_dev_timer timed_dev_slot)
  with fired_timer_done [of ?D i c mode c mode] assms show ?thesis
    by (cases "timer_fires c mode ?D i") (simp_all add: timer_not_firing_step)
qed

lemma checked_dev_no_delay:
  assumes "dev_shape d" and "i < HSB_DEV_MAX_DELAY_NUM" and "bit (dev_work_mode d) (unat mode)"
  shows "\<not> delay_fires c mode (checked_dev c mode before d) i"
proof -
  let ?T = "timed_dev c mode before d"
  have v: "delay_view (checked_dev c mode before d) i = delay_view (delay_step c mode i ?T) i"
    using assms delay.fold_view [of ?T "[0..<HSB_DEV_MAX_DELAY_NUM]" i c mode]
    by (simp add: checked_dev_def)
  then have "delay_fires c mode (checked_dev c mode before d) i = delay_fires c mode (delay_step c mode i ?T) i"
    by (simp add: delay_fires_def delay_view_def)
  moreover have "length (dev_delay_status d) = 8" using assms(1) by (simp add: dev_shape_def)
  ultimately show ?thesis using assms(2)
    by (auto simp: delay_step_def delay_fires_def)
qed

lemma checked_dev_idem:
  assumes "dev_shape d" and "clock_ok c"
  shows "checked_dev c mode (of_nat (clock_sec c)) (checked_dev c mode before d) = checked_dev c mode before d"
    and "check_acts c mode (of_nat (clock_sec c)) stk (checked_dev c mode before d) = []"
proof -
  let ?d = "checked_dev c mode before d" and ?b = "of_nat (clock_sec c) :: u32"
  have day: "day_dev c ?b ?d = ?d"
    using sec_of_bound [OF clock_sec_bound [OF assms(2)]] by (simp add: day_dev_def is_nextday_def)
  have timed: "timed_dev c mode ?b ?d = ?d" if "bit (dev_work_mode d) (unat mode)"
    unfolding timed_dev_def day using that assms
    by (intro fold_id) (simp add: timer_not_firing_step checked_dev_no_timer)
  show "checked_dev c mode ?b ?d = ?d"
  proof (cases "bit (dev_work_mode d) (unat mode)")
    case True
    have "fold (delay_step c mode) [0..<HSB_DEV_MAX_DELAY_NUM] ?d = ?d"
      using True assms by (intro fold_id) (simp add: delay_not_firing_step checked_dev_no_delay)
    moreover have "checked_dev c mode ?b ?d = fold (delay_step c mode) [0..<HSB_DEV_MAX_DELAY_NUM] ?d"
      using True timed by (simp add: checked_dev_def [of _ _ ?b])
    ultimately show ?thesis by simp
  next
    case False
    then show ?thesis using day by (simp add: checked_dev_def [of _ _ ?b])
  qed
  show "check_acts c mode ?b stk ?d = []"
    using timed day assms checked_dev_no_timer [OF assms(1)] checked_dev_no_delay [OF assms(1)]
    by (simp add: check_acts_def timer_outs_def delay_outs_def)
qed

lemma checked_simps [simp]:
  "cb_queue (dev_cb (checked c p s)) = cb_queue (dev_cb s)" "cb_offq (dev_cb (checked c p s)) = cb_offq (dev_cb s)"
  "cb_work_mode (dev_cb (checked c p s)) = cb_work_mode (dev_cb s)"
  "cb_sec_today (dev_cb (checked c p s)) = of_nat (clock_sec c)"
  "stk_status (checked c p s) = stk_status s" "vs_queue (checked c p s) = vs_queue s"
  "cz_ctx (checked c p s) = cz_ctx s" "sent (checked c p s) = sent s" "stk_buf (checked c p s) = stk_buf s"
  "client_pool (checked c p s) = client_pool s" "next_ptr (checked c p s) = next_ptr s"
  "cb_driverq (dev_cb (checked c p s)) = cb_driverq (dev_cb s)"
  "can_push (checked c p s) = can_push s"
  by (simp_all add: checked_def Let_def can_push_def)

lemma dev_heap_checked:
  "dev_heap (checked c p s) = (dev_heap s)(p \<mapsto>
     checked_dev c (cb_work_mode (dev_cb s)) (cb_sec_today (dev_cb s)) (dev_at s p))"
  by (simp add: checked_def Let_def dev_write_def)

lemma dev_at_checked:
  "dev_at (checked c p s) q = (if q = p
     then checked_dev c (cb_work_mode (dev_cb s)) (cb_sec_today (dev_cb s)) (dev_at s p) else dev_at s q)"
  by (simp add: dev_at_def dev_heap_checked)

lemma dev_ok_can_push: "dev_ok s \<Longrightarrow> can_push s"
  by (simp add: can_push_def dev_okD)

lemma dev_ok_sec [simp]: "dev_ok (dev_cb_update (cb_sec_today_update f) s) = dev_ok s"
  by (simp add: dev_ok_def dev_obj_ok_def pool_ok_def)

lemma dev_ok_deref:
  "dev_ok s \<Longrightarrow> p \<in> set (cb_queue (dev_cb s)) \<Longrightarrow> deref s p = Some (dev_at s p) \<and> dev_shape (dev_at s p) \<and> p \<noteq> 0"
  using dev_ok_queue [of s p] deref_live [of s p] dev_ok_obj [of s p] by (auto simp: dev_obj_ok_def)

lemma act_ok_slot_act: "status_shape stk \<Longrightarrow> act_ok (slot_act stk flag devid aid p q)"
  by (simp add: slot_act_def)

lemma act_ok_check_acts: "status_shape stk \<Longrightarrow> a \<in> set (check_acts c mode before stk d) \<Longrightarrow> act_ok a"
  by (auto simp: check_acts_def timer_outs_def delay_outs_def Let_def act_ok_slot_act split: if_splits)

lemma dev_ok_checked:
  assumes "dev_ok s" and "p \<in> set (cb_queue (dev_cb s))"
  shows "dev_ok (checked c p s)"
  unfolding checked_def Let_def
proof (rule dev_ok_pushed)
  show "dev_ok (dev_write (dev_cb_update (cb_sec_today_update (\<lambda>_. word_of_nat (clock_sec c))) s) p
      (checked_dev c (cb_work_mode (dev_cb s)) (cb_sec_today (dev_cb s)) (dev_at s p)))"
    using assms dev_ok_deref [OF assms] by (intro dev_ok_write [where d = "dev_at s p"]) simp_all
qed (use assms(1) dev_okD(9) act_ok_check_acts in blast)

lemma check_dev_queue:
  "dev_ok s \<Longrightarrow> p \<in> set (cb_queue (dev_cb s)) \<Longrightarrow> clock_ok c \<Longrightarrow>
   check_dev_timer_and_delay c p s = Some (checked c p s)"
  using dev_ok_deref by (blast intro: check_dev_eq dev_ok_can_push)

lemma foreach_checked:
  assumes "dev_ok s" and "\<forall>(i, p) \<in> set ips. p \<in> set (cb_queue (dev_cb s)) \<and> clock_ok (clk i)"
  shows "for_list (\<lambda>(i, p) s. check_dev_timer_and_delay (clk i) p s) ips s =
    Some (fold (\<lambda>(i, p). checked (clk i) p) ips s)"
  using assms
proof (induction ips arbitrary: s)
  case (Cons ip ips)
  obtain i p where ip: "ip = (i, p)" by (cases ip)
  with Cons.prems have "check_dev_timer_and_delay (clk i) p s = Some (checked (clk i) p s)"
    and "dev_ok (checked (clk i) p s)" by (auto intro: check_dev_queue dev_ok_checked)
  moreover from this Cons.prems have
    "for_list (\<lambda>(i, p) s. check_dev_timer_and_delay (clk i) p s) ips (checked (clk i) p s) =
     Some (fold (\<lambda>(i, p). checked (clk i) p) ips (checked (clk i) p s))"
    by (intro Cons.IH) auto
  ultimately show ?case using ip by simp
qed simp

lemma fold_checked_ok:
  "dev_ok s \<Longrightarrow> \<forall>(i, p) \<in> set ips. p \<in> set (cb_queue (dev_cb s)) \<Longrightarrow>
   dev_ok (fold (\<lambda>(i, p). checked (clk i) p) ips s)"
  by (induction ips arbitrary: s) (auto simp: dev_ok_checked)

lemma check_timer_and_delay_eq:
  assumes "dev_ok s" and "\<forall>i < length (cb_queue (dev_cb s)). clock_ok (clk i)"
  shows "check_timer_and_delay clk s =
    Some (errno HSB_E_OK, fold (\<lambda>(i, p). checked (clk i) p) (enumerate 0 (cb_queue (dev_cb s))) s)"
proof -
  have "\<forall>(i, p) \<in> set (enumerate 0 (cb_queue (dev_cb s))). p \<in> set (cb_queue (dev_cb s)) \<and> clock_ok (clk i)"
    using assms(2) by (auto simp: in_set_enumerate_eq)
  from foreach_checked [OF assms(1) this] show ?thesis by (simp add: check_timer_and_delay_def)
qed

lemma check_timer_and_delay_runs:
  assumes "dev_ok s" and "\<And>i. clock_ok (clk i)"
  shows "runs (check_timer_and_delay clk s) (\<lambda>(r, t). dev_ok t)"
proof -
  have "\<forall>(i, p) \<in> set (enumerate 0 (cb_queue (dev_cb s))). p \<in> set (cb_queue (dev_cb s))"
    by (auto simp: in_set_enumerate_eq)
  with assms show ?thesis by (simp add: check_timer_and_delay_eq fold_checked_ok)
qed

section \<open>Properties\<close>

text \<open>
  C8. One visit of the scheduler to an online device, at any clock reading. It queues
  exactly the requests of the timers and delays that are due, in slot order (a timer is due
  when it is active, not expired today, enabled for the work mode, has bit \<^verbatim>\<open>tm_wday\<close> of its weekday byte
  set, and its time lies at most five seconds back), leaves the device as \<open>checked_dev\<close> says, and
  touches no other device. \<^verbatim>\<open>tm_wday\<close> counts from Sunday, so bit 0 means Sunday to the code. The network protocol document gives
  bits 0 to 6 as Monday to Sunday: a timer that a client sets for Monday by the document is queued on Sundays.
\<close>

theorem scheduler_visit:
  assumes "dev_ok s" and "p \<in> set (cb_queue (dev_cb s))" and "clock_ok c"
  shows "runs (check_dev_timer_and_delay c p s) (\<lambda>t.
    async_queue t = async_queue s @
      check_acts c (cb_work_mode (dev_cb s)) (cb_sec_today (dev_cb s)) (stk_status s) (dev_at s p) \<and>
    deref t p = Some (checked_dev c (cb_work_mode (dev_cb s)) (cb_sec_today (dev_cb s)) (dev_at s p)) \<and>
    (\<forall>q. q \<noteq> p \<longrightarrow> dev_heap t q = dev_heap s q) \<and> dev_ok t)"
  using assms check_dev_queue [OF assms] dev_ok_checked [OF assms(1,2)] dev_ok_deref [OF assms(1,2)]
  by (simp add: deref_def dev_heap_checked) (simp add: checked_def Let_def)

text \<open>
  C9. The scheduler never repeats itself: visiting a device a second time at the same
  clock reading changes nothing and queues nothing, whatever timers and delays it has.
\<close>

theorem scheduler_idempotent:
  assumes "dev_ok s" and "p \<in> set (cb_queue (dev_cb s))" and "clock_ok c"
  shows "runs (check_dev_timer_and_delay c p s) (\<lambda>t. check_dev_timer_and_delay c p t = Some t)"
proof -
  let ?t = "checked c p s"
  have t: "dev_ok ?t" "p \<in> set (cb_queue (dev_cb ?t))" using assms dev_ok_checked by simp_all
  have shape: "dev_shape (dev_at s p)" using dev_ok_deref [OF assms(1,2)] by simp
  have "checked c p ?t = ?t"
    using dev_ok_deref [OF t]
    by (simp add: checked_def [of c p ?t] Let_def dev_at_checked checked_dev_idem [OF shape assms(3)])
      (simp add: write_same checked_def Let_def)
  with check_dev_queue [OF assms] check_dev_queue [OF t assms(3)] show ?thesis by simp
qed

lemma later_visits:
  assumes "\<And>k. clock_ok (clk k)" and "\<And>k. clock_sec (clk k) \<le> clock_sec (clk (Suc k))" and "i < HSB_DEV_MAX_TIMER_NUM"
    and "dev_shape (dev_at s q)" and "ts_expired (dev_timer_status (dev_at s q) ! i)" and "cb_sec_today (dev_cb s) = of_nat (clock_sec (clk n))"
  shows "ts_expired (dev_timer_status (dev_at (fold (\<lambda>(k, p). checked (clk k) p) (enumerate (Suc n) ps) s) q) ! i)"
  using assms(4-6)
proof (induction ps arbitrary: s n)
  case (Cons p ps)
  let ?c = "clk (Suc n)" and ?b = "cb_sec_today (dev_cb s)"
  have day: "day_dev ?c ?b d = d" for d
    using sec_of_bound [OF clock_sec_bound [OF assms(1)], of "Suc n"] sec_of_bound [OF clock_sec_bound [OF assms(1)], of n] assms(2) [of n]
    by (simp add: day_dev_def is_nextday_def Cons.prems(3) word_less_nat_alt)
  have keep: "ts_expired (dev_timer_status (checked_dev ?c mode ?b d) ! i)"
    if "dev_shape d" "ts_expired (dev_timer_status d ! i)" for d mode
  proof (cases "bit (dev_work_mode d) (unat mode)")
    case True
    have "\<not> timer_fires ?c mode d i" using that(2) by (simp add: timer_fires_def)
    with True that(2) checked_dev_timer [OF True, of ?c ?b i] timed_dev_slot [OF that(1) assms(3), of ?c mode ?b]
    show ?thesis by (simp add: timer_view_def day timer_not_firing_step)
  next
    case False
    then show ?thesis using that(2) by (simp add: checked_dev_def day)
  qed
  have "dev_shape (dev_at (checked ?c p s) q)" "ts_expired (dev_timer_status (dev_at (checked ?c p s) q) ! i)"
    using Cons.prems keep [OF Cons.prems(1,2)] by (auto simp: dev_at_checked)
  from Cons.IH [OF this, of "Suc n"] show ?case by simp
qed simp

lemma other_visits: "q \<notin> set ps \<Longrightarrow> dev_at (fold (\<lambda>(k, p). checked (clk k) p) (enumerate n ps) s) q = dev_at s q"
  by (induction ps arbitrary: s n) (auto simp: dev_at_checked)

lemma rearmed:
  assumes "dev_shape d" and "i < HSB_DEV_MAX_TIMER_NUM" and "is_nextday c before"
    and "ts_active (dev_timer_status d ! i)" and "bit (tm_wday (dev_timer d ! i)) (clk_wday c)"
    and "clock_sec c < timer_sec (dev_timer d ! i)"
  shows "ts_active (dev_timer_status (checked_dev c mode before d) ! i) \<and> \<not> ts_expired (dev_timer_status (checked_dev c mode before d) ! i)"
proof -
  let ?D = "day_dev c before d"
  have "timer_view ?D i = timer_view (nextday_step c i d) i"
    using assms(1-3) nextday.fold_view [of d "[0..<HSB_DEV_MAX_TIMER_NUM]" i c] by (simp add: day_dev_def)
  moreover have "length (dev_timer_status d) = 32" using assms(1) by (simp add: dev_shape_def)
  ultimately have D: "ts_active (dev_timer_status ?D ! i)" "\<not> ts_expired (dev_timer_status ?D ! i)" "dev_timer ?D ! i = dev_timer d ! i"
    using assms(2,4,5) by (simp_all add: timer_view_def nextday_step_def)
  have "\<not> timer_fires c mode ?D i" using D(3) assms(6) by (simp add: timer_fires_def)
  with D checked_dev_timer [of d mode c before i] timed_dev_slot [OF assms(1,2), of c mode before] show ?thesis
    by (cases "bit (dev_work_mode d) (unat mode)") (auto simp: timer_view_def timer_not_firing_step checked_dev_def)
qed

text \<open>
  C10. The daily reset reaches only the first device of the queue. At a pass that sees a new day (the seconds of the day are fewer
  than at the last visit and below ten), with a clock that does not run backwards during the pass, the first
  device is re-armed: each of its active timers that is enabled for the new day and still to come is no longer expired. But
  its visit has overwritten \<^verbatim>\<open>gl_dev_cb.sec_today\<close>, so every later device fails the
  next-day test: a timer of such a device that expired yesterday is still expired after the pass.
\<close>

theorem nextday_reset_first_only:
  assumes "dev_ok s" and "\<And>k. clock_ok (clk k)" and "\<And>k. clock_sec (clk k) \<le> clock_sec (clk (Suc k))"
    and "clock_sec (clk 0) < unat (cb_sec_today (dev_cb s))" and "clock_sec (clk 0) < 10"
    and "cb_queue (dev_cb s) = p # ps" and "i < HSB_DEV_MAX_TIMER_NUM"
  shows "runs (check_timer_and_delay clk s) (\<lambda>(r, t).
    (ts_active (dev_timer_status (dev_at s p) ! i) \<and> bit (tm_wday (dev_timer (dev_at s p) ! i)) (clk_wday (clk 0)) \<and>
       clock_sec (clk 0) < timer_sec (dev_timer (dev_at s p) ! i) \<longrightarrow>
     ts_active (dev_timer_status (dev_at t p) ! i) \<and> \<not> ts_expired (dev_timer_status (dev_at t p) ! i)) \<and>
    (\<forall>q \<in> set ps. ts_expired (dev_timer_status (dev_at s q) ! i) \<longrightarrow> ts_expired (dev_timer_status (dev_at t q) ! i)))"
proof -
  let ?c = "clk 0" and ?u = "checked (clk 0) p s"
  let ?t = "fold (\<lambda>(k, p). checked (clk k) p) (enumerate (Suc 0) ps) ?u"
  have e: "check_timer_and_delay clk s = Some (errno HSB_E_OK, ?t)"
    using assms(1,2,6) by (simp add: check_timer_and_delay_eq)
  have d: "p \<notin> set ps" using dev_okD(1) [OF assms(1)] assms(6) by simp
  have shape: "dev_shape (dev_at s r)" if "r \<in> set (p # ps)" for r using dev_ok_deref [OF assms(1), of r] assms(6) that by simp
  have n: "is_nextday ?c (cb_sec_today (dev_cb s))"
    using sec_of_bound [OF clock_sec_bound [OF assms(2)], of 0] assms(4,5) by (simp add: is_nextday_def word_less_nat_alt)
  have "ts_expired (dev_timer_status (dev_at ?t q) ! i)" if "q \<in> set ps" "ts_expired (dev_timer_status (dev_at s q) ! i)" for q
    using that shape [of q] d by (intro later_visits [where n = 0] assms(2,3,7)) (auto simp: dev_at_checked)
  moreover have "dev_at ?t p = checked_dev ?c (cb_work_mode (dev_cb s)) (cb_sec_today (dev_cb s)) (dev_at s p)"
    using d by (simp add: other_visits dev_at_checked)
  ultimately show ?thesis using rearmed [OF shape assms(7) n] by (simp add: e)
qed

end
