(* ===== verification/Driver_Table.thy ===== *)
theory Driver_Table
  imports Dev_Scheduler
begin

text \<open>
  What the registry promises to the drivers. Every driver keeps a table of its own devices
  next to the registry's queue (\<^verbatim>\<open>gl_ctx.queue\<close> in both driver files); \<open>reg_keys\<close> is the
  registry's view of such a table, id and MAC of each online device of the driver, in queue order.
  The locale \<open>driver_table\<close> is the protocol between the two: register a MAC
  that is not in the table, unregister by id.
\<close>

section \<open>Keys of a driver\<close>

definition dev_key :: "HSB_DEV_T \<Rightarrow> u32 \<times> buf" where
  "dev_key d = (dev_id d, info_mac (dev_info d))"

definition of_drv :: "u32 \<Rightarrow> HSB_DEV_T \<Rightarrow> bool" where
  "of_drv drvid d \<longleftrightarrow> drv_id (the (dev_driver d)) = drvid"

definition reg_keys :: "u32 \<Rightarrow> box \<Rightarrow> (u32 \<times> buf) list" where
  "reg_keys drvid s = map dev_key (filter (of_drv drvid) (fst (abs_reg s)))"

definition off_keys :: "u32 \<Rightarrow> box \<Rightarrow> (u32 \<times> buf) list" where
  "off_keys drvid s = map dev_key (filter (of_drv drvid) (snd (abs_reg s)))"

text \<open>No delay of any device is running.\<close>

definition delays_idle :: "box \<Rightarrow> bool" where
  "delays_idle s \<longleftrightarrow> (\<forall>p d. dev_heap s p = Some d \<longrightarrow> (\<forall>st \<in> set (dev_delay_status d). \<not> ds_started st))"

text \<open>Clients hear of nothing but events.\<close>

definition events_only :: "box \<Rightarrow> box \<Rightarrow> bool" where
  "events_only s t \<longleftrightarrow> (\<forall>i. client_live t i = client_live s i \<and>
     (\<exists>evs. inbox t i = inbox s i @ evs \<and> (\<forall>m \<in> set evs. is_event m)))"

lemma events_only_pool: "client_pool t = client_pool s \<Longrightarrow> events_only s t"
  by (auto simp: events_only_def client_live_def inbox_def intro: exI [of _ "[]"])

lemma events_only_refl [simp]: "events_only s s"
  by (rule events_only_pool) simp

lemma events_only_trans: "events_only s t \<Longrightarrow> events_only t u \<Longrightarrow> events_only s u"
proof -
  assume st: "events_only s t" and tu: "events_only t u"
  show ?thesis unfolding events_only_def
  proof
    fix i
    from st obtain e where e: "inbox t i = inbox s i @ e" "\<forall>m \<in> set e. is_event m" "client_live t i = client_live s i"
      unfolding events_only_def by blast
    from tu obtain f where f: "inbox u i = inbox t i @ f" "\<forall>m \<in> set f. is_event m" "client_live u i = client_live t i"
      unfolding events_only_def by blast
    have "inbox u i = inbox s i @ (e @ f) \<and> (\<forall>m \<in> set (e @ f). is_event m)" using e f by auto
    then show "client_live u i = client_live s i \<and> (\<exists>evs. inbox u i = inbox s i @ evs \<and> (\<forall>m \<in> set evs. is_event m))"
      using e(3) f(3) by blast
  qed
qed

lemma events_only_frame [simp]:
  "events_only (vs_queue_update a s) t = events_only s t" "events_only s (vs_queue_update a t) = events_only s t"
  "events_only (cz_ctx_update b s) t = events_only s t" "events_only s (cz_ctx_update b t) = events_only s t"
  "events_only (sent_update c s) t = events_only s t" "events_only s (sent_update c t) = events_only s t"
  "events_only (dev_cb_update d s) t = events_only s t" "events_only s (dev_cb_update d t) = events_only s t"
  "events_only (dev_heap_update e s) t = events_only s t" "events_only s (dev_heap_update e t) = events_only s t"
  by (simp_all add: events_only_def inbox_def client_live_def)

lemma events_only_event_out [simp]: "events_only s (event_out s i ty p q)"
  by (auto simp: events_only_def event_out_def Let_def client_live_def inbox_def contexts_delivered deliver_def
      addressed_def)

text \<open>
  Who gets the answer of a request; and what happens to the request queue outside the request thread and the clients: it keeps its
  requests and grows by requests nobody asked for, those of linkages and of the scheduler.
\<close>

primrec act_reply :: "HSB_ACT_T \<Rightarrow> reply" where
  "act_reply (HSB_ACT_TYPE_PROBE r p) = r"
| "act_reply (HSB_ACT_TYPE_SET_STATUS r st) = r"
| "act_reply (HSB_ACT_TYPE_GET_STATUS r st) = r"
| "act_reply (HSB_ACT_TYPE_DO_ACTION r a) = r"

definition queue_grows :: "box \<Rightarrow> box \<Rightarrow> bool" where
  "queue_grows s t \<longleftrightarrow> (\<exists>ls. async_queue t = async_queue s @ ls \<and> (\<forall>a \<in> set ls. act_reply a = None))"

lemma queue_grows_same [simp]: "async_queue t = async_queue s \<Longrightarrow> queue_grows s t"
  by (simp add: queue_grows_def)

lemma queue_grows_trans: "queue_grows s t \<Longrightarrow> queue_grows t u \<Longrightarrow> queue_grows s u"
proof -
  assume "queue_grows s t" "queue_grows t u"
  then obtain ls ms where "async_queue t = async_queue s @ ls" "\<forall>a \<in> set ls. act_reply a = None"
    "async_queue u = async_queue t @ ms" "\<forall>a \<in> set ms. act_reply a = None" by (auto simp: queue_grows_def)
  then have "async_queue u = async_queue s @ (ls @ ms) \<and> (\<forall>a \<in> set (ls @ ms). act_reply a = None)" by auto
  then show ?thesis unfolding queue_grows_def by blast
qed

lemma queue_grows_left: "async_queue s' = async_queue s \<Longrightarrow> queue_grows s t \<Longrightarrow> queue_grows s' t"
  by (simp add: queue_grows_def)

lemma queue_grows_frame [simp]:
  "queue_grows (vs_queue_update a s) t = queue_grows s t" "queue_grows s (vs_queue_update a t) = queue_grows s t"
  "queue_grows (cz_ctx_update b s) t = queue_grows s t" "queue_grows s (cz_ctx_update b t) = queue_grows s t"
  "queue_grows (sent_update c s) t = queue_grows s t" "queue_grows s (sent_update c t) = queue_grows s t"
  "queue_grows (dev_heap_update d s) t = queue_grows s t" "queue_grows s (dev_heap_update d t) = queue_grows s t"
  "queue_grows (client_pool_update e s) t = queue_grows s t" "queue_grows s (client_pool_update e t) = queue_grows s t"
  by (simp_all add: queue_grows_def)

lemma linkage_acts_reply: "a \<in> set (linkage_acts s devid evt) \<Longrightarrow> act_reply a = None"
  by (auto simp: linkage_acts_def device_links_def link_act_def split: option.splits if_splits)

lemma check_acts_reply: "a \<in> set (check_acts c mode before stk d) \<Longrightarrow> act_reply a = None"
  by (auto simp: check_acts_def timer_outs_def delay_outs_def slot_act_def Let_def split: if_splits)

lemma queue_grows_event_out [simp]: "queue_grows s (event_out s i ty p q)"
  by (auto simp: queue_grows_def async_event_out linkage_acts_reply)

text \<open>What calls into the registry leave alone.\<close>

definition drv_frame :: "box \<Rightarrow> box \<Rightarrow> bool" where
  "drv_frame s t \<longleftrightarrow> vs_queue t = vs_queue s \<and> cz_ctx t = cz_ctx s \<and> sent t = sent s \<and>
     stk_buf t = stk_buf s \<and> stk_status t = stk_status s \<and> cb_driverq (dev_cb t) = cb_driverq (dev_cb s) \<and>
     tc_active (cb_async_thread_ctl (dev_cb t)) = tc_active (cb_async_thread_ctl (dev_cb s)) \<and>
     next_ptr s \<le> next_ptr t \<and> (delays_idle s \<longrightarrow> delays_idle t) \<and> events_only s t \<and> queue_grows s t"

lemma drv_frame_refl [simp]: "drv_frame s s"
  by (simp add: drv_frame_def)

lemma drv_frame_trans: "drv_frame s t \<Longrightarrow> drv_frame t u \<Longrightarrow> drv_frame s u"
  by (auto simp: drv_frame_def intro: events_only_trans queue_grows_trans)

definition core_frame :: "box \<Rightarrow> box \<Rightarrow> bool" where
  "core_frame s t \<longleftrightarrow> stk_buf t = stk_buf s \<and> stk_status t = stk_status s \<and>
     cb_driverq (dev_cb t) = cb_driverq (dev_cb s) \<and>
     tc_active (cb_async_thread_ctl (dev_cb t)) = tc_active (cb_async_thread_ctl (dev_cb s)) \<and>
     next_ptr s \<le> next_ptr t \<and> (delays_idle s \<longrightarrow> delays_idle t) \<and> events_only s t \<and> queue_grows s t"

lemma core_frame_refl [simp]: "core_frame s s"
  by (simp add: core_frame_def)

lemma core_frame_trans: "core_frame s t \<Longrightarrow> core_frame t u \<Longrightarrow> core_frame s u"
  by (auto simp: core_frame_def intro: events_only_trans queue_grows_trans)

lemma drv_frame_core: "drv_frame s t \<Longrightarrow> core_frame s t"
  by (simp add: drv_frame_def core_frame_def)

text \<open>The same for steps that may queue the request of a client.\<close>

definition base_frame :: "box \<Rightarrow> box \<Rightarrow> bool" where
  "base_frame s t \<longleftrightarrow> stk_buf t = stk_buf s \<and> stk_status t = stk_status s \<and>
     cb_driverq (dev_cb t) = cb_driverq (dev_cb s) \<and>
     tc_active (cb_async_thread_ctl (dev_cb t)) = tc_active (cb_async_thread_ctl (dev_cb s)) \<and>
     next_ptr s \<le> next_ptr t \<and> (delays_idle s \<longrightarrow> delays_idle t) \<and> events_only s t"

lemma core_base: "core_frame s t \<Longrightarrow> base_frame s t"
  by (simp add: core_frame_def base_frame_def)

lemma base_frame_refl [simp]: "base_frame s s"
  by (simp add: base_frame_def)

lemma base_frame_trans: "base_frame s t \<Longrightarrow> base_frame t u \<Longrightarrow> base_frame s u"
  by (auto simp: base_frame_def intro: events_only_trans)

lemma find_drv_base: "base_frame s t \<Longrightarrow> find_drv t = find_drv s"
  by (simp add: base_frame_def find_drv_def fun_eq_iff)

lemma find_drv_core: "core_frame s t \<Longrightarrow> find_drv t = find_drv s"
  by (simp add: core_frame_def find_drv_def fun_eq_iff)

lemma find_drv_frame: "drv_frame s t \<Longrightarrow> find_drv t = find_drv s"
  by (simp add: drv_frame_def find_drv_def fun_eq_iff)

lemma keys_abs:
  "abs_reg t = abs_reg s \<Longrightarrow> reg_keys e t = reg_keys e s"
  "abs_reg t = abs_reg s \<Longrightarrow> off_keys e t = off_keys e s"
  by (simp_all add: reg_keys_def off_keys_def)

lemma find_drv_id: "find_drv s drvid = Some drv \<Longrightarrow> drv_id drv = drvid"
proof -
  have "find_drv_loop ds drvid = Some drv \<Longrightarrow> drv_id drv = drvid" for ds
    by (induction ds) (auto split: if_splits)
  then show "find_drv s drvid = Some drv \<Longrightarrow> drv_id drv = drvid" by (simp add: find_drv_def)
qed

section \<open>Coming online\<close>

lemma drv_frame_event_out [simp]: "drv_frame s (event_out s i ty p q)"
  by (simp add: drv_frame_def delays_idle_def)

lemma drv_frame_moved [simp]: "drv_frame s (moved_off s i)" "drv_frame s (moved_on s i)"
  by (simp_all add: drv_frame_def delays_idle_def) (simp_all add: moved_off_def moved_on_def events_only_pool)

lemma drv_frame_added [simp]: "drv_frame s (added s drvid info op)"
  by (auto simp: drv_frame_def added_def delays_idle_def new_dev_def zero_defs intro: events_only_pool)

lemma dev_online_frame:
  assumes "dev_ok s" and "find_drv s drvid = Some drv" and "length (info_mac info) = 8"
  shows "runs (dev_online s drvid info op) (\<lambda>(r, devid, t). drv_frame s t \<and> next_ptr s \<le> next_ptr t)"
proof (cases "off_index s drvid (info_mac info) < length (cb_offq (dev_cb s))")
  case True
  with assms(1) show ?thesis
    by (simp add: dev_online_back) (metis drv_frame_event_out drv_frame_moved(2) drv_frame_trans)
next
  case False
  then have "off_index s drvid (info_mac info) = length (cb_offq (dev_cb s))"
    using first_index_le unfolding off_index_def by (metis le_neq_implies_less)
  from dev_online_new [OF assms(1) this assms(2,3)] show ?thesis
    by simp (metis drv_frame_event_out drv_frame_added drv_frame_trans)
qed

lemma dev_offline_frame:
  assumes "dev_ok s"
  shows "runs (dev_offline s devid) (\<lambda>(r, t). drv_frame s t \<and> next_ptr t = next_ptr s)"
proof (cases "id_index s devid < length (cb_queue (dev_cb s))")
  case True
  with assms show ?thesis
    by (simp add: dev_offline_present) (metis drv_frame_event_out drv_frame_moved(1) drv_frame_trans)
next
  case False
  then have "id_index s devid = length (cb_queue (dev_cb s))"
    using first_index_le unfolding id_index_def by (metis le_neq_implies_less)
  with assms show ?thesis by (simp add: dev_offline_absent)
qed

lemma reg_online_keys:
  assumes "of_drv drvid fresh" and "info_mac (dev_info fresh) = mac"
  shows "map dev_key (filter (of_drv drvid) (fst (reg_online fresh drvid mac r))) =
      map dev_key (filter (of_drv drvid) (fst r)) @ [(dev_id (last (fst (reg_online fresh drvid mac r))), mac)]"
    and "e \<noteq> drvid \<Longrightarrow> filter (of_drv e) (fst (reg_online fresh drvid mac r)) = filter (of_drv e) (fst r)"
  using assms
  by (auto simp: reg_online_def dev_key_def same_dev_def of_drv_def find_Some_iff split: option.splits)

lemma reg_online_off:
  "snd (reg_online fresh drvid mac r) =
     (case find (same_dev drvid mac) (snd r) of None \<Rightarrow> snd r | Some d \<Rightarrow> remove1 d (snd r))"
  by (auto simp: reg_online_def split: option.splits)

text \<open>
  The registry's side of a registration: exactly one device of the driver is appended, under the
  id that is returned and the MAC that was asked for, and no other driver's devices move.
\<close>

lemma dev_online_keys:
  assumes "dev_ok s" and "find_drv s drvid = Some drv" and "length (info_mac info) = 8"
  shows "runs (dev_online s drvid info op) (\<lambda>(r, devid, t). r = errno HSB_E_OK \<and> dev_ok t \<and>
    drv_frame s t \<and> next_ptr s \<le> next_ptr t \<and>
    reg_keys drvid t = reg_keys drvid s @ [(devid, info_mac info)] \<and>
    (\<forall>e. e \<noteq> drvid \<longrightarrow> reg_keys e t = reg_keys e s))"
proof -
  let ?fresh = "new_dev (of_nat (next_ptr s)) (find_drv s drvid) info op"
  have f: "of_drv drvid ?fresh" "info_mac (dev_info ?fresh) = info_mac info"
    using find_drv_id [OF assms(2)] assms(2) by (simp_all add: of_drv_def new_dev_def)
  show ?thesis
    using dev_online_refines [OF assms, of op] dev_online_frame [OF assms, of op]
      reg_online_keys [OF f, where r = "abs_reg s"]
    by (auto elim!: runsE simp: reg_keys_def)
qed

section \<open>Going offline\<close>

lemma remove1_filter_id:
  assumes "distinct (map dev_id xs)" and "find (\<lambda>d. dev_id d = devid) xs = Some d"
  shows "remove1 d xs = filter (\<lambda>d. dev_id d \<noteq> devid) xs"
proof -
  have d: "d \<in> set xs" "dev_id d = devid" using assms(2) by (auto simp: find_Some_iff)
  have "distinct xs" using assms(1) by (simp add: distinct_map)
  then have "remove1 d xs = filter (\<lambda>x. x \<noteq> d) xs" by (simp add: distinct_remove1_removeAll removeAll_filter_not_eq ac_simps)
      (metis (mono_tags))
  also have "\<dots> = filter (\<lambda>d. dev_id d \<noteq> devid) xs"
    using assms(1) d by (intro filter_cong) (auto simp: distinct_map inj_on_def)
  finally show ?thesis .
qed

lemma dev_offline_keys:
  assumes "dev_ok s" and "next_ptr s \<le> 2 ^ 32"
  shows "runs (dev_offline s devid) (\<lambda>(r, t). dev_ok t \<and> drv_frame s t \<and> next_ptr t = next_ptr s \<and>
    (\<forall>e. reg_keys e t = filter (\<lambda>k. fst k \<noteq> devid) (reg_keys e s)))"
proof -
  let ?on = "fst (abs_reg s)"
  have dist: "distinct (map dev_id ?on)" using dev_ok_unique_ids [OF assms] by simp
  have on: "fst (reg_offline devid (abs_reg s)) = filter (\<lambda>d. dev_id d \<noteq> devid) ?on"
  proof (cases "find (\<lambda>d. dev_id d = devid) ?on")
    case None
    then have "\<forall>d \<in> set ?on. dev_id d \<noteq> devid" by (auto simp: find_None_iff)
    then have "filter (\<lambda>d. dev_id d \<noteq> devid) ?on = ?on" by (simp add: filter_id_conv)
    with None show ?thesis by (simp add: reg_offline_def)
  next
    case (Some d)
    then show ?thesis by (simp add: reg_offline_def remove1_filter_id [OF dist])
  qed
  have "map dev_key (filter (of_drv e) (filter (\<lambda>d. dev_id d \<noteq> devid) ?on)) =
      filter (\<lambda>k. fst k \<noteq> devid) (map dev_key (filter (of_drv e) ?on))" for e
    by (simp add: dev_key_def filter_map o_def conj_commute)
  then have keys: "reg_keys e t = filter (\<lambda>k. fst k \<noteq> devid) (reg_keys e s)"
    if "abs_reg t = reg_offline devid (abs_reg s)" for e t
    using that by (simp add: reg_keys_def on)
  show ?thesis
    using dev_offline_refines [OF assms(1), of devid] dev_offline_frame [OF assms(1), of devid]
    by (auto elim!: runsE simp: keys)
qed

section \<open>The protocol between a driver and the registry\<close>

definition reg_ok :: "u32 \<Rightarrow> box \<Rightarrow> bool" where
  "reg_ok drvid s \<longleftrightarrow> dev_ok s \<and> find_drv s drvid \<noteq> None"

locale driver_table =
  fixes drvid :: u32
    and keys :: "box \<Rightarrow> (u32 \<times> buf) list"
    and reg :: "'a \<Rightarrow> box \<Rightarrow> (int \<times> box) option"
    and mac_of :: "'a \<Rightarrow> buf"
    and fits :: "'a \<Rightarrow> bool"
  assumes reg_known: "mac_of x \<in> snd ` set (keys s) \<Longrightarrow> reg x s = Some (errno HSB_E_OK, s)"
    and reg_new: "mac_of x \<notin> snd ` set (keys s) \<Longrightarrow> reg_ok drvid s \<Longrightarrow> fits x \<Longrightarrow>
      runs (reg x s) (\<lambda>(r, t). r = errno HSB_E_OK \<and> reg_ok drvid t \<and>
        (\<exists>devid. keys t = keys s @ [(devid, mac_of x)] \<and>
                 reg_keys drvid t = reg_keys drvid s @ [(devid, mac_of x)]) \<and>
        (\<forall>e. e \<noteq> drvid \<longrightarrow> reg_keys e t = reg_keys e s))"
begin

definition in_sync :: "box \<Rightarrow> bool" where
  "in_sync s \<longleftrightarrow> reg_ok drvid s \<and> keys s = reg_keys drvid s \<and> distinct (map snd (keys s))"

lemma reg_sync:
  assumes "in_sync s" and "fits x"
  shows "runs (reg x s) (\<lambda>(r, t). r = errno HSB_E_OK \<and> in_sync t \<and>
    set (map snd (keys t)) = insert (mac_of x) (set (map snd (keys s))) \<and>
    (\<forall>e. e \<noteq> drvid \<longrightarrow> reg_keys e t = reg_keys e s))"
proof (cases "mac_of x \<in> snd ` set (keys s)")
  case True
  with assms show ?thesis by (auto simp: reg_known)
next
  case False
  from assms(1) have "reg_ok drvid s" by (simp add: in_sync_def)
  from reg_new [OF False this assms(2)] assms(1) False show ?thesis
    by (auto elim!: runsE simp: in_sync_def)
qed

lemma reg_twice:
  assumes "in_sync s" and "fits x"
  shows "runs (reg x s) (\<lambda>(r, t). reg x t = Some (errno HSB_E_OK, t))"
  using reg_sync [OF assms] by (rule runs_mono) (auto simp: reg_known)

lemma reg_all:
  assumes "in_sync s" and "\<forall>x \<in> set xs. fits x"
  shows "runs (for_list (\<lambda>x s. map_option snd (reg x s)) xs s) (\<lambda>t. in_sync t \<and>
    set (map snd (keys t)) = mac_of ` set xs \<union> set (map snd (keys s)))"
  using assms
proof (induction xs arbitrary: s)
  case (Cons x xs)
  then have "runs (reg x s) (\<lambda>(r, t). in_sync t \<and>
    set (map snd (keys t)) = insert (mac_of x) (set (map snd (keys s))))"
    by (intro runs_mono [OF reg_sync]) auto
  then obtain r t where t: "reg x s = Some (r, t)" "in_sync t"
    "set (map snd (keys t)) = insert (mac_of x) (set (map snd (keys s)))"
    by (auto elim!: runsE)
  from Cons.IH [OF t(2)] Cons.prems t show ?case by simp
qed simp

end

end
