(* ===== verification/Drv_Virtual_Switch.thy ===== *)
theory Drv_Virtual_Switch
  imports Driver_Table
begin

text \<open>
  The Wi-Fi switch driver, \<^verbatim>\<open>core_daemon/driver_virtual_switch.c\<close>: its device table, the three
  device operations, the broadcast probe, the registration of what the probe finds, and the
  events devices report. What the network delivers is an argument: \<open>io\<close> is what
  \<^verbatim>\<open>recvfrom_timeout\<close> returned and left in the 64-byte \<^verbatim>\<open>rbuf\<close>, \<open>rxs\<close> the successive receives of a
  probe until its time is used up. The monitor thread is in \<open>Vs_Monitor\<close>, because it
  calls back into \<^verbatim>\<open>probe_dev\<close>.
\<close>

abbreviation (input) VIRTUAL_SWITCH_LISTEN_PORT :: nat where "VIRTUAL_SWITCH_LISTEN_PORT \<equiv> 19001"
abbreviation (input) VS_CMD_DEVICE_DISCOVER :: u16 where "VS_CMD_DEVICE_DISCOVER \<equiv> 0x8901"
abbreviation (input) VS_CMD_DEVICE_DISCOVER_RESP :: u16 where "VS_CMD_DEVICE_DISCOVER_RESP \<equiv> 0x8902"
abbreviation (input) VS_CMD_GET_STATUS :: u16 where "VS_CMD_GET_STATUS \<equiv> 0x8921"
abbreviation (input) VS_CMD_GET_STATUS_RESP :: u16 where "VS_CMD_GET_STATUS_RESP \<equiv> 0x8922"
abbreviation (input) VS_CMD_SET_STATUS :: u16 where "VS_CMD_SET_STATUS \<equiv> 0x8923"
abbreviation (input) VS_CMD_STATUS_CHANGED :: u16 where "VS_CMD_STATUS_CHANGED \<equiv> 0x8924"
abbreviation (input) VS_CMD_EVENT :: u16 where "VS_CMD_EVENT \<equiv> 0x8931"
abbreviation (input) VS_CMD_DO_ACTION :: u16 where "VS_CMD_DO_ACTION \<equiv> 0x8941"
abbreviation (input) VS_CMD_KEEP_ALIVE :: u16 where "VS_CMD_KEEP_ALIVE \<equiv> 0x8951"
abbreviation (input) VS_CMD_RESULT :: u16 where "VS_CMD_RESULT \<equiv> 0x89A1"
abbreviation (input) MIN_VS_CMD_LEN :: int where "MIN_VS_CMD_LEN \<equiv> 2"

definition virtual_switch_drv :: HSB_DEV_DRV_T where
  "virtual_switch_drv = \<lparr>drv_name = ''virtual switch'', drv_id = 1, drv_op = Some virtual_switch_drv_op\<rparr>"

section \<open>The device table\<close>

definition vs_find_dev_by_ip :: "box \<Rightarrow> u32 \<Rightarrow> nat option" where
  "vs_find_dev_by_ip s ip =
     (let i = first_index (\<lambda>d. vs_ip d = ip) (vs_queue s)
      in if i < length (vs_queue s) then Some i else None)"

definition vs_find_dev_by_mac :: "box \<Rightarrow> buf \<Rightarrow> VS_DEV_T option" where
  "vs_find_dev_by_mac s mac = find (\<lambda>d. vsi_mac (vs_info d) = mac) (vs_queue s)"

definition vs_find_dev_by_id :: "box \<Rightarrow> u32 \<Rightarrow> VS_DEV_T option" where
  "vs_find_dev_by_id s devid = find (\<lambda>d. devid = vs_id d) (vs_queue s)"

text \<open>\<^verbatim>\<open>(VS_INFO_T *)(rbuf + 8)\<close>: the fields of the struct at an offset of a buffer.\<close>

definition vs_info_at :: "buf \<Rightarrow> nat \<Rightarrow> VS_INFO_T option" where
  "vs_info_at b off = do {
     c \<leftarrow> GET_u16 b off;
     i \<leftarrow> GET_u16 b (off + 2);
     st \<leftarrow> GET_u32 b (off + 12);
     ev \<leftarrow> GET_u32 b (off + 16);
     ac \<leftarrow> GET_u32 b (off + 20);
     Some \<lparr>vsi_dev_class = c, vsi_interface = i, vsi_mac = take 6 (drop (off + 4) b),
       vsi_resv = take 2 (drop (off + 10) b), vsi_status_bm = st, vsi_event_bm = ev, vsi_action_bm = ac\<rparr>
   }"

definition vs_register_device :: "box \<Rightarrow> u32 \<Rightarrow> VS_INFO_T \<Rightarrow> (int \<times> box) option" where
  "vs_register_device s addr info =
     (case vs_find_dev_by_mac s (vsi_mac info) of
        Some pdev \<Rightarrow> Some (errno HSB_E_OK, s)
      | None \<Rightarrow> do {
          let dev_info = \<lparr>info_cls = ucast (vsi_dev_class info), info_interface = ucast (vsi_interface info),
                info_mac = vsi_mac info @ [0, 0]\<rparr>;
          (ret, devid, s) \<leftarrow> dev_online s (drv_id virtual_switch_drv) dev_info virtual_switch_op;
          if ret \<noteq> errno HSB_E_OK then Some (ret, s)
          else Some (0, s\<lparr>vs_queue := g_queue_push_tail (vs_queue s)
                 \<lparr>vs_id = devid, vs_ip = addr, vs_idle_time = 0, vs_info = info\<rparr>\<rparr>)
        })"

section \<open>Probing\<close>

record vs_rx =
  rx_ret :: int
  rx_buf :: buf
  rx_addr :: u32

text \<open>
  One round of the receive loop. \<^verbatim>\<open>ret < count\<close> compares an \<^verbatim>\<open>int\<close> with a \<^verbatim>\<open>size_t\<close>, so a
  negative result counts as a huge one. \<open>count\<close> is 8 until the first accepted
  datagram and 32 from then on.
\<close>

definition probe_body :: "vs_rx \<Rightarrow> nat \<times> box \<Rightarrow> (nat \<times> box) option" where
  "probe_body rx = (\<lambda>(count, s).
     if 0 \<le> rx_ret rx \<and> rx_ret rx < int count then Some (count, s)
     else do {
       let count = 32;
       cmd \<leftarrow> GET_u16 (rx_buf rx) 0;
       len \<leftarrow> GET_u16 (rx_buf rx) 2;
       if cmd \<noteq> VS_CMD_DEVICE_DISCOVER_RESP \<or> unat len \<noteq> count then Some (count, s)
       else do {
         info \<leftarrow> vs_info_at (rx_buf rx) 8;
         (r, s) \<leftarrow> vs_register_device s (rx_addr rx) info;
         Some (count, s)
       }
     })"

text \<open>\<open>bcast\<close>: whether \<^verbatim>\<open>get_broadcast_address\<close> succeeded.\<close>

definition virtual_switch_probe :: "bool \<Rightarrow> vs_rx list \<Rightarrow> box \<Rightarrow> (int \<times> box) option" where
  "virtual_switch_probe bcast rxs s =
     (if \<not> bcast then Some (- 1, s)
      else do {
        let sbuf = replicate 64 0;
        let count = 8;
        sbuf \<leftarrow> SET_u16 sbuf 0 VS_CMD_DEVICE_DISCOVER;
        sbuf \<leftarrow> SET_u16 sbuf 2 (of_nat count);
        let s = send_out s (UDP_BROADCAST VIRTUAL_SWITCH_LISTEN_PORT (take count sbuf));
        (count, s) \<leftarrow> for_list probe_body rxs (count, s);
        Some (0, s)
      })"

section \<open>Device operations\<close>

definition vs_transfer :: "box \<Rightarrow> u32 \<Rightarrow> buf \<Rightarrow> nat \<Rightarrow> int \<times> buf \<Rightarrow> (int \<times> buf \<times> box) option" where
  "vs_transfer s addr wbuf wlen io =
     (if wlen > length wbuf then None
      else do {
        let s = send_out s (UDP_SENDTO addr VIRTUAL_SWITCH_LISTEN_PORT (take wlen wbuf));
        let (ret, rbuf) = io;
        if ret \<le> 0 then Some (- 1, rbuf, s) else Some (ret, rbuf, s)
      })"

text \<open>
  With \<open>8 < st_num\<close> the result is undefined at \<open>k = 8\<close>, where the code reads \<^verbatim>\<open>id[8]\<close> of an array of 8. A read there would give a
  value of the neighbouring member; the first write behind the 64 bytes of \<^verbatim>\<open>wbuf\<close> would follow at \<open>k = 15\<close>.
\<close>

definition put_status_body :: "HSB_STATUS_T \<Rightarrow> nat \<Rightarrow> nat \<Rightarrow> buf \<Rightarrow> buf option" where
  "put_status_body st base k wbuf = do {
     i \<leftarrow> arr_get (st_id st) k;
     wbuf \<leftarrow> SET_u16 wbuf (base + 4 + k * 4) i;
     v \<leftarrow> arr_get (st_val st) k;
     SET_u16 wbuf (base + 6 + k * 4) v
   }"

text \<open>The answer of a device to a request that has only a result.\<close>

definition vs_result :: "int \<Rightarrow> buf \<Rightarrow> int option" where
  "vs_result ret rbuf =
     (if ret < MIN_VS_CMD_LEN then Some (errno HSB_E_INVALID_MSG)
      else do {
        cmd \<leftarrow> GET_u16 rbuf 0;
        rlen \<leftarrow> GET_u16 rbuf 2;
        result \<leftarrow> GET_u16 rbuf 4;
        if cmd \<noteq> VS_CMD_RESULT \<or> uint rlen \<noteq> ret then Some (errno HSB_E_INVALID_MSG)
        else if result = 0 then Some (errno HSB_E_ACT_FAILED)
        else Some (errno HSB_E_OK)
      })"

definition virtual_switch_set_status :: "int \<times> buf \<Rightarrow> HSB_STATUS_T \<Rightarrow> box \<Rightarrow> (int \<times> box) option" where
  "virtual_switch_set_status io st s =
     (case vs_find_dev_by_id s (st_devid st) of
        None \<Rightarrow> Some (errno HSB_E_ENTRY_NOT_FOUND, s)
      | Some pdev \<Rightarrow> do {
          let len = unat (4 + 4 * st_num st);
          let wbuf = replicate 64 0;
          wbuf \<leftarrow> SET_u16 wbuf 0 VS_CMD_SET_STATUS;
          wbuf \<leftarrow> SET_u16 wbuf 2 (of_nat len);
          wbuf \<leftarrow> for_list (put_status_body st 0) [0..<unat (st_num st)] wbuf;
          (ret, rbuf, s) \<leftarrow> vs_transfer s (vs_ip pdev) wbuf len io;
          r \<leftarrow> vs_result ret rbuf;
          Some (r, s)
        })"

text \<open>
  The loop that copies the statuses of an answer into \<^verbatim>\<open>*status\<close>; \<open>num\<close> is the caller's
  \<^verbatim>\<open>status->num\<close>, which stops it after the first status when it is 0.
\<close>

function get_status_loop :: "buf \<Rightarrow> nat \<Rightarrow> nat \<Rightarrow> HSB_STATUS_T \<Rightarrow> nat \<Rightarrow> nat \<Rightarrow> (HSB_STATUS_T \<times> nat) option" where
  "get_status_loop rbuf rlen base st len status_num =
     (if len + 4 \<le> rlen then do {
        i \<leftarrow> GET_u16 rbuf (base + len);
        ids \<leftarrow> arr_set (st_id st) status_num i;
        v \<leftarrow> GET_u16 rbuf (base + len + 2);
        vals \<leftarrow> arr_set (st_val st) status_num v;
        let st = st\<lparr>st_id := ids, st_val := vals\<rparr>;
        if status_num + 1 \<ge> unat (st_num st) then Some (st, status_num + 1)
        else get_status_loop rbuf rlen base st (len + 4) (status_num + 1)
      } else Some (st, status_num))"
  by pat_completeness auto

termination by (relation "measure (\<lambda>(rbuf, rlen, base, st, len, status_num). rlen - len)") auto

declare get_status_loop.simps [simp del]

definition virtual_switch_get_status ::
  "int \<times> buf \<Rightarrow> HSB_STATUS_T \<Rightarrow> box \<Rightarrow> (int \<times> HSB_STATUS_T \<times> box) option" where
  "virtual_switch_get_status io st s =
     (case vs_find_dev_by_id s (st_devid st) of
        None \<Rightarrow> Some (errno HSB_E_ENTRY_NOT_FOUND, st, s)
      | Some pdev \<Rightarrow> do {
          let wbuf = replicate 64 0;
          let len = 8;
          wbuf \<leftarrow> SET_u16 wbuf 0 VS_CMD_GET_STATUS;
          wbuf \<leftarrow> SET_u16 wbuf 2 (of_nat len);
          wbuf \<leftarrow> SET_u32 wbuf 4 0xffffffff;
          (ret, rbuf, s) \<leftarrow> vs_transfer s (vs_ip pdev) wbuf len io;
          if ret < MIN_VS_CMD_LEN then Some (errno HSB_E_INVALID_MSG, st, s)
          else do {
            cmd \<leftarrow> GET_u16 rbuf 0;
            rlen \<leftarrow> GET_u16 rbuf 2;
            if cmd \<noteq> VS_CMD_GET_STATUS_RESP \<or> ret \<noteq> uint rlen
            then Some (errno HSB_E_INVALID_MSG, st, s)
            else do {
              (st, status_num) \<leftarrow> get_status_loop rbuf (unat rlen) 0 st 4 0;
              Some (errno HSB_E_OK, st\<lparr>st_num := of_nat status_num\<rparr>, s)
            }
          }
        })"

definition virtual_switch_set_action :: "int \<times> buf \<Rightarrow> HSB_ACTION_T \<Rightarrow> box \<Rightarrow> (int \<times> box) option" where
  "virtual_switch_set_action io act s =
     (case vs_find_dev_by_id s (act_devid act) of
        None \<Rightarrow> Some (errno HSB_E_ENTRY_NOT_FOUND, s)
      | Some pdev \<Rightarrow> do {
          let len = 12;
          let wbuf = replicate 64 0;
          wbuf \<leftarrow> SET_u16 wbuf 0 VS_CMD_DO_ACTION;
          wbuf \<leftarrow> SET_u16 wbuf 2 (of_nat len);
          wbuf \<leftarrow> SET_u16 wbuf 4 (act_id act);
          wbuf \<leftarrow> SET_u16 wbuf 6 (act_param1 act);
          wbuf \<leftarrow> SET_u32 wbuf 8 (act_param2 act);
          (ret, rbuf, s) \<leftarrow> vs_transfer s (vs_ip pdev) wbuf len io;
          r \<leftarrow> vs_result ret rbuf;
          Some (r, s)
        })"

section \<open>What devices report\<close>

text \<open>Both drivers carry the same copies of these functions; their callers ignore the results.\<close>

definition status_updated :: "box \<Rightarrow> u32 \<Rightarrow> u16 \<Rightarrow> u16 \<Rightarrow> box option" where
  "status_updated s devid sid v = do {
     status \<leftarrow> one_status s devid sid v;
     dev_status_updated s devid status
   }"

definition key_pressed :: "box \<Rightarrow> u16 \<Rightarrow> (int \<times> box) option" where
  "key_pressed s key =
     (if (ucast key :: u32) \<in> {HSB_WORK_MODE_HOME, HSB_WORK_MODE_OUTSIDE, HSB_WORK_MODE_GUARD}
      then set_box_work_mode s (ucast key)
      else Some (errno HSB_E_OTHERS, s))"

definition report_event :: "box \<Rightarrow> u32 \<Rightarrow> u16 \<Rightarrow> u16 \<Rightarrow> u32 \<Rightarrow> box option" where
  "report_event s devid eid param param2 =
     (if eid = 0 then dev_sensor_triggered s devid param
      else if eid = 1 then dev_sensor_recovered s devid param
      else if eid = 2 then map_option snd (key_pressed s param)
      else if eid = 3 then dev_ir_key s devid param param2
      else Some s)"

lemma take_front_len: "k = length p \<Longrightarrow> take k (front junk p) = p"
  by simp

section \<open>The frames the driver sends\<close>

definition status_bytes :: "HSB_STATUS_T \<Rightarrow> nat \<Rightarrow> buf" where
  "status_bytes st n = concat (map (\<lambda>k. le16 (st_id st ! k) @ le16 (st_val st ! k)) [0..<n])"

lemma status_bytes_Suc: "status_bytes st (Suc n) = status_bytes st n @ le16 (st_id st ! n) @ le16 (st_val st ! n)"
  by (simp add: status_bytes_def)

lemma length_status_bytes [simp]: "length (status_bytes st n) = 4 * n"
  by (induction n) (simp_all add: status_bytes_Suc, simp add: status_bytes_def)

lemma put_status_loop:
  assumes "status_shape st" and "n \<le> 8" and "length p = base + 4" and "base + 4 + 4 * n \<le> length junk"
  shows "for_list (put_status_body st base) [0..<n] (front junk p) = Some (front junk (p @ status_bytes st n))"
  using assms(2,4)
proof (induction n)
  case (Suc n)
  have b: "put_status_body st base n (front junk (p @ status_bytes st n)) =
      Some (front junk (p @ status_bytes st (Suc n)))"
    using Suc.prems assms(1,3) by (simp add: put_status_body_def status_shape_def status_bytes_Suc)
  show ?case using Suc b by (simp add: for_list_append)
qed (simp add: status_bytes_def)

lemma put_status_overrun:
  assumes "status_shape st" and "8 < n" and "length wbuf = 64"
  shows "for_list (put_status_body st base) [0..<n] wbuf = None"
proof -
  have "[0..<n] = [0..<8] @ 8 # [9..<n]"
    using assms(2) upt_add_eq_append [of 0 8 "n - 8"] by (simp add: upt_conv_Cons)
  moreover have "put_status_body st base 8 b = None" for b
    using assms(1) by (simp add: put_status_body_def arr_get_def status_shape_def)
  ultimately show ?thesis
    by (cases "for_list (put_status_body st base) [0..<8] wbuf")
      (auto simp: for_list_append simp del: upt_rec_numeral)
qed

text \<open>The verdict on an answer, for a full 64-byte receive buffer.\<close>

definition vs_verdict :: "int \<times> buf \<Rightarrow> HSB_ERROR_NO_T" where
  "vs_verdict io = (let (ret, rbuf) = io in
     if ret < 2 \<or> take 2 rbuf \<noteq> le16 VS_CMD_RESULT \<or> ret \<noteq> uint (of_le16 (rbuf ! 2) (rbuf ! 3))
     then HSB_E_INVALID_MSG
     else if rbuf ! 4 = 0 \<and> rbuf ! 5 = 0 then HSB_E_ACT_FAILED else HSB_E_OK)"

lemma of_le16_zero: "of_le16 a b = 0 \<longleftrightarrow> a = 0 \<and> b = 0"
proof
  assume "of_le16 a b = 0"
  then have "le16 (of_le16 a b) = le16 0" by simp
  then show "a = 0 \<and> b = 0" by (simp only: le16_of_le16) (simp add: le16_def)
qed (simp add: of_le16_def)

lemma take2_le16: "2 \<le> length b \<Longrightarrow> (take 2 b = le16 v) = (of_le16 (b ! 0) (b ! 1) = v)"
proof -
  assume "2 \<le> length b"
  then have t: "take 2 b = [b ! 0, b ! 1]"
    by (cases b; cases "tl b") (auto simp: numeral_2_eq_2)
  have "le16 (of_le16 (b ! 0) (b ! 1)) = take 2 b" by (simp add: t)
  then show ?thesis by (metis le16_of_le16 of_le16_le16 le16_def list.inject t)
qed

definition transferred :: "int \<times> buf \<Rightarrow> int \<times> buf" where
  "transferred io = (if fst io \<le> 0 then - 1 else fst io, snd io)"

lemma vs_result_verdict:
  assumes "length (snd io) = 64"
  shows "vs_result (fst (transferred io)) (snd io) = Some (errno (vs_verdict io))"
proof -
  obtain ret rbuf where io: "io = (ret, rbuf)" by (cases io)
  with assms have l: "length rbuf = 64" by simp
  have "(take 2 rbuf = le16 VS_CMD_RESULT) = (of_le16 (rbuf ! 0) (rbuf ! 1) = VS_CMD_RESULT)"
    using l by (intro take2_le16) simp
  with l show ?thesis
    by (auto simp: io vs_result_def vs_verdict_def GET_u16_def of_le16_zero transferred_def)
qed

lemma vs_transfer_eq:
  "wlen \<le> length wbuf \<Longrightarrow> vs_transfer s addr wbuf wlen io =
     Some (fst (transferred io), snd io, send_out s (UDP_SENDTO addr VIRTUAL_SWITCH_LISTEN_PORT (take wlen wbuf)))"
  by (cases io) (simp add: vs_transfer_def transferred_def Let_def)

lemma unat_status_len: "unat n \<le> 8 \<Longrightarrow> unat (4 + 4 * n :: u32) = 4 + 4 * unat n"
proof -
  assume "unat n \<le> 8"
  then have "unat (4 * n) = 4 * unat n" by (simp add: unat_word_ariths)
  then show ?thesis using \<open>unat n \<le> 8\<close> by (simp add: unat_word_ariths)
qed

definition vs_status_frame :: "HSB_STATUS_T \<Rightarrow> buf" where
  "vs_status_frame st = le16 VS_CMD_SET_STATUS @ le16 (4 + 4 * ucast (st_num st)) @
     status_bytes st (unat (st_num st))"

lemma virtual_switch_set_status_eq:
  assumes "vs_find_dev_by_id s (st_devid st) = Some pdev" and "status_shape st"
    and "unat (st_num st) \<le> 8" and "length (snd io) = 64"
  shows "virtual_switch_set_status io st s = Some (errno (vs_verdict io),
    send_out s (UDP_SENDTO (vs_ip pdev) VIRTUAL_SWITCH_LISTEN_PORT (vs_status_frame st)))"
proof -
  let ?n = "unat (st_num st)" and ?z = "replicate 64 0"
  let ?h = "le16 VS_CMD_SET_STATUS @ le16 (of_nat (4 + 4 * ?n))"
  have loop: "for_list (put_status_body st 0) [0..<?n] (front ?z ?h) = Some (front ?z (?h @ status_bytes st ?n))"
    using assms(2,3) by (intro put_status_loop) simp_all
  have "take (4 + 4 * ?n) (front ?z (?h @ status_bytes st ?n)) = ?h @ status_bytes st ?n"
    by (rule take_front_len) simp
  with loop assms show ?thesis
    by (simp add: virtual_switch_set_status_def unat_status_len vs_transfer_eq vs_result_verdict
        vs_status_frame_def)
qed

lemma virtual_switch_set_status_overrun:
  assumes "vs_find_dev_by_id s (st_devid st) = Some pdev" and "status_shape st" and "8 < unat (st_num st)"
  shows "virtual_switch_set_status io st s = None"
proof -
  have "for_list (put_status_body st 0) [0..<unat (st_num st)] (front (replicate 64 0) p) = None" if "length p = 4" for p
    using assms(2,3) that by (intro put_status_overrun) simp_all
  then show ?thesis using assms(1) by (simp add: virtual_switch_set_status_def Let_def)
qed

definition vs_action_frame :: "HSB_ACTION_T \<Rightarrow> buf" where
  "vs_action_frame act = le16 VS_CMD_DO_ACTION @ le16 12 @ le16 (act_id act) @ le16 (act_param1 act) @
     le32 (act_param2 act)"

lemma virtual_switch_set_action_eq:
  assumes "vs_find_dev_by_id s (act_devid act) = Some pdev" and "length (snd io) = 64"
  shows "virtual_switch_set_action io act s = Some (errno (vs_verdict io),
    send_out s (UDP_SENDTO (vs_ip pdev) VIRTUAL_SWITCH_LISTEN_PORT (vs_action_frame act)))"
proof -
  have "take 12 (front (replicate 64 0) (vs_action_frame act)) = vs_action_frame act"
    using take_front [of "vs_action_frame act" "replicate 64 0"] by (simp add: vs_action_frame_def)
  with assms show ?thesis
    by (simp add: virtual_switch_set_action_def vs_transfer_eq vs_result_verdict vs_action_frame_def)
qed

section \<open>Reading statuses back\<close>

lemma get_status_loop_safe:
  assumes "status_shape st" and "unat (st_num st) \<le> 8" and "n < 8" and "n < max 1 (unat (st_num st))"
    and "base + rlen \<le> length rbuf"
  shows "runs (get_status_loop rbuf rlen base st len n) (\<lambda>(st', m).
    status_shape st' \<and> st_devid st' = st_devid st \<and> n \<le> m \<and> m \<le> max 1 (unat (st_num st)))"
  using assms
proof (induction rbuf rlen base st len n rule: get_status_loop.induct)
  case (1 rbuf rlen base st len n)
  show ?case
  proof (cases "len + 4 \<le> rlen")
    case False
    then show ?thesis using 1 by (subst get_status_loop.simps) auto
  next
    case True
    obtain i where i: "GET_u16 rbuf (base + len) = Some i" using True 1 f16.get_defined [of rbuf "base + len"] by auto
    obtain v where v: "GET_u16 rbuf (base + len + 2) = Some v"
      using True 1 f16.get_defined [of rbuf "base + len + 2"] by auto
    have l: "length (st_id st) = 8" "length (st_val st) = 8" using 1 by (simp_all add: status_shape_def)
    let ?st = "st\<lparr>st_id := (st_id st)[n := i], st_val := (st_val st)[n := v]\<rparr>"
    show ?thesis
    proof (cases "n + 1 \<ge> unat (st_num st)")
      case stop: True
      then show ?thesis using True i v l 1
        by (subst get_status_loop.simps) (auto simp: status_shape_def)
    next
      case False
      have "runs (get_status_loop rbuf rlen base ?st (len + 4) (n + 1)) (\<lambda>(st', m).
        status_shape st' \<and> st_devid st' = st_devid ?st \<and> n + 1 \<le> m \<and> m \<le> max 1 (unat (st_num ?st)))"
        using False True i v l 1 by (intro 1(1)) (auto simp: status_shape_def)
      then show ?thesis using False True i v l 1
        by (subst get_status_loop.simps) (auto elim: runs_mono)
    qed
  qed
qed

lemma get_status_loop_one:
  assumes "status_shape st" and "unat (st_num st) \<le> 1" and "base + rlen \<le> length rbuf"
  shows "get_status_loop rbuf rlen base st 4 0 =
    Some (if rlen < 8 then (st, 0)
      else (st\<lparr>st_id := (st_id st)[0 := of_le16 (rbuf ! (base + 4)) (rbuf ! (base + 5))],
               st_val := (st_val st)[0 := of_le16 (rbuf ! (base + 6)) (rbuf ! (base + 7))]\<rparr>, 1))"
  using assms
  by (subst get_status_loop.simps) (auto simp: GET_u16_def status_shape_def ac_simps)

definition vs_get_frame :: buf where
  "vs_get_frame = le16 VS_CMD_GET_STATUS @ le16 8 @ le32 0xffffffff"

definition vs_status_valid :: "int \<times> buf \<Rightarrow> bool" where
  "vs_status_valid io \<longleftrightarrow> (let (ret, rbuf) = io in
     2 \<le> ret \<and> take 2 rbuf = le16 VS_CMD_GET_STATUS_RESP \<and> ret = uint (of_le16 (rbuf ! 2) (rbuf ! 3)))"

lemma virtual_switch_get_status_eq:
  assumes "vs_find_dev_by_id s (st_devid st) = Some pdev" and "status_shape st"
    and "unat (st_num st) \<le> 1" and "length (snd io) = 64" and "fst io \<le> 64"
  shows "virtual_switch_get_status io st s =
    (let t = send_out s (UDP_SENDTO (vs_ip pdev) VIRTUAL_SWITCH_LISTEN_PORT vs_get_frame); rbuf = snd io in
     Some (if \<not> vs_status_valid io then (errno HSB_E_INVALID_MSG, st, t)
       else if fst io < 8 then (errno HSB_E_OK, st\<lparr>st_num := 0\<rparr>, t)
       else (errno HSB_E_OK, st\<lparr>st_num := 1, st_id := (st_id st)[0 := of_le16 (rbuf ! 4) (rbuf ! 5)],
               st_val := (st_val st)[0 := of_le16 (rbuf ! 6) (rbuf ! 7)]\<rparr>, t)))"
proof -
  obtain ret rbuf where io: "io = (ret, rbuf)" by (cases io)
  let ?rl = "of_le16 (rbuf ! 2) (rbuf ! 3)"
  have h: "int (unat ?rl) = uint ?rl" by simp
  have l: "length rbuf = 64" and le: "ret \<le> 64" using assms io by simp_all
  have t: "(take 2 rbuf = le16 VS_CMD_GET_STATUS_RESP) = (of_le16 (rbuf ! 0) (rbuf ! 1) = VS_CMD_GET_STATUS_RESP)"
    using l by (intro take2_le16) simp
  have fr: "take 8 (front (replicate 64 0) vs_get_frame) = vs_get_frame"
    by (rule take_front_len) (simp add: vs_get_frame_def)
  have loop: "get_status_loop rbuf (unat ?rl) 0 st 4 0 = Some (if unat ?rl < 8 then (st, 0)
      else (st\<lparr>st_id := (st_id st)[0 := of_le16 (rbuf ! 4) (rbuf ! 5)],
               st_val := (st_val st)[0 := of_le16 (rbuf ! 6) (rbuf ! 7)]\<rparr>, 1))" if "ret = uint ?rl"
  proof -
    have "unat ?rl \<le> 64" using that le h by linarith
    with get_status_loop_one [OF assms(2,3), of 0 "unat ?rl" rbuf] l show ?thesis by simp
  qed
  have small: "(unat ?rl < 8) = (ret < 8)" if "ret = uint ?rl"
    using that h by linarith
  have get: "GET_u16 rbuf 0 = Some (of_le16 (rbuf ! 0) (rbuf ! 1))" "GET_u16 rbuf 2 = Some ?rl"
    using l by (simp_all add: GET_u16_def)
  have tr: "transferred (ret, rbuf) = (if ret \<le> 0 then - 1 else ret, rbuf)" by (simp add: transferred_def)
  show ?thesis
  proof (cases "vs_status_valid io")
    case True
    then have v: "2 \<le> ret" "of_le16 (rbuf ! 0) (rbuf ! 1) = VS_CMD_GET_STATUS_RESP" "uint ?rl = ret"
      using t by (simp_all add: vs_status_valid_def io)
    show ?thesis using assms(1) l True v fr loop small
      by (simp add: virtual_switch_get_status_def vs_transfer_eq tr get Let_def vs_get_frame_def io)
  next
    case False
    then have v: "ret < 2 \<or> of_le16 (rbuf ! 0) (rbuf ! 1) \<noteq> VS_CMD_GET_STATUS_RESP \<or> ret \<noteq> uint ?rl"
      using t by (auto simp: vs_status_valid_def io)
    show ?thesis using assms(1) l False v fr
      by (auto simp: virtual_switch_get_status_def vs_transfer_eq tr get Let_def vs_get_frame_def io)
  qed
qed

section \<open>The table and the registry\<close>

definition vs_key :: "VS_DEV_T \<Rightarrow> u32 \<times> buf" where
  "vs_key d = (vs_id d, vsi_mac (vs_info d) @ [0, 0])"

definition vs_keys :: "box \<Rightarrow> (u32 \<times> buf) list" where
  "vs_keys s = map vs_key (vs_queue s)"

lemma vs_queue_frame [simp]:
  "dev_ok (s\<lparr>vs_queue := q\<rparr>) = dev_ok s" "abs_reg (s\<lparr>vs_queue := q\<rparr>) = abs_reg s"
  "find_drv (s\<lparr>vs_queue := q\<rparr>) = find_drv s" "reg_keys e (s\<lparr>vs_queue := q\<rparr>) = reg_keys e s"
  by (simp_all add: dev_ok_def dev_obj_ok_def pool_ok_def abs_reg_def find_drv_def fun_eq_iff reg_keys_def
      dev_at_def [abs_def])

lemma vs_known_iff:
  "(vs_find_dev_by_mac s mac \<noteq> None) = (mac @ [0, 0] \<in> snd ` set (vs_keys s))"
  by (auto simp: vs_find_dev_by_mac_def vs_keys_def vs_key_def find_None_iff image_iff)

lemma vs_register_new:
  assumes "vsi_mac info @ [0, 0] \<notin> snd ` set (vs_keys s)" and "reg_ok 1 s" and "length (vsi_mac info) = 6"
  shows "runs (vs_register_device s addr info) (\<lambda>(r, t). r = errno HSB_E_OK \<and> reg_ok 1 t \<and>
      (\<exists>devid. vs_keys t = vs_keys s @ [(devid, vsi_mac info @ [0, 0])] \<and>
               reg_keys 1 t = reg_keys 1 s @ [(devid, vsi_mac info @ [0, 0])]) \<and>
      (\<forall>e. e \<noteq> 1 \<longrightarrow> reg_keys e t = reg_keys e s) \<and>
      drv_frame (s\<lparr>vs_queue := vs_queue t\<rparr>) t)"
proof -
  let ?info = "\<lparr>info_cls = ucast (vsi_dev_class info), info_interface = ucast (vsi_interface info),
      info_mac = vsi_mac info @ [0, 0]\<rparr>"
  obtain drv where drv: "find_drv s 1 = Some drv" and ok: "dev_ok s" using assms(2) by (auto simp: reg_ok_def)
  have none: "vs_find_dev_by_mac s (vsi_mac info) = None" using assms(1) vs_known_iff by blast
  have id: "drv_id virtual_switch_drv = 1" by (simp add: virtual_switch_drv_def)
  from dev_online_keys [OF ok drv, of ?info virtual_switch_op] assms(3)
  obtain devid t where t: "dev_online s 1 ?info virtual_switch_op = Some (errno HSB_E_OK, devid, t)" "dev_ok t"
    "drv_frame s t" "reg_keys 1 t = reg_keys 1 s @ [(devid, vsi_mac info @ [0, 0])]"
    "\<forall>e. e \<noteq> 1 \<longrightarrow> reg_keys e t = reg_keys e s"
    by (auto elim!: runsE)
  from t find_drv_frame [OF t(3)] drv show ?thesis
    by (simp add: vs_register_device_def none id reg_ok_def vs_keys_def vs_key_def drv_frame_def g_queue_push_tail_def
        delays_idle_def)
qed

interpretation vs_table: driver_table 1 vs_keys "\<lambda>x s. vs_register_device s (fst x) (snd x)"
  "\<lambda>x. vsi_mac (snd x) @ [0, 0]" "\<lambda>x. length (vsi_mac (snd x)) = 6"
proof unfold_locales
  fix x :: "u32 \<times> VS_INFO_T" and s
  assume "vsi_mac (snd x) @ [0, 0] \<in> snd ` set (vs_keys s)"
  then have "vs_find_dev_by_mac s (vsi_mac (snd x)) \<noteq> None" using vs_known_iff by blast
  then show "vs_register_device s (fst x) (snd x) = Some (errno HSB_E_OK, s)"
    by (auto simp: vs_register_device_def)
next
  fix x :: "u32 \<times> VS_INFO_T" and s
  assume "vsi_mac (snd x) @ [0, 0] \<notin> snd ` set (vs_keys s)" "reg_ok 1 s" "length (vsi_mac (snd x)) = 6"
  from vs_register_new [OF this] show "runs (vs_register_device s (fst x) (snd x)) (\<lambda>(r, t). r = errno HSB_E_OK \<and> reg_ok 1 t \<and>
      (\<exists>devid. vs_keys t = vs_keys s @ [(devid, vsi_mac (snd x) @ [0, 0])] \<and>
               reg_keys 1 t = reg_keys 1 s @ [(devid, vsi_mac (snd x) @ [0, 0])]) \<and>
      (\<forall>e. e \<noteq> 1 \<longrightarrow> reg_keys e t = reg_keys e s))"
    by (rule runs_mono) auto
qed

section \<open>A probe\<close>

text \<open>A datagram announces a device when it is long enough and carries the discovery answer.\<close>

definition rx_accepts :: "nat \<Rightarrow> vs_rx \<Rightarrow> bool" where
  "rx_accepts count rx \<longleftrightarrow> (rx_ret rx < 0 \<or> int count \<le> rx_ret rx) \<and>
     GET_u16 (rx_buf rx) 0 = Some VS_CMD_DEVICE_DISCOVER_RESP \<and> GET_u16 (rx_buf rx) 2 = Some 32"

lemma vs_info_at_64: "length b = 64 \<Longrightarrow> \<exists>info. vs_info_at b 8 = Some info \<and>
   length (vsi_mac info) = 6 \<and> vsi_mac info = take 6 (drop 12 b)"
  by (simp add: vs_info_at_def GET_u16_def GET_u32_def)

lemma unat_eq_32: "(unat len = 32) = (len = (32 :: u16))"
  by (simp add: word_unat_eq_iff)

lemma vs_register_frame:
  assumes "reg_ok 1 s" and "length (vsi_mac info) = 6"
  shows "runs (vs_register_device s addr info) (\<lambda>(r, t). cz_ctx t = cz_ctx s \<and> sent t = sent s \<and> core_frame s t)"
proof (cases "vsi_mac info @ [0, 0] \<in> snd ` set (vs_keys s)")
  case True
  with vs_table.reg_known [of "(addr, info)" s] show ?thesis by simp
next
  case False
  from vs_register_new [OF this assms] show ?thesis
    by (rule runs_mono) (auto simp: drv_frame_def core_frame_def delays_idle_def)
qed

definition vs_good :: "box \<Rightarrow> bool" where
  "vs_good s \<longleftrightarrow> vs_table.in_sync s"

lemma probe_body_sync:
  assumes "vs_good s" and "length (rx_buf rx) = 64"
  shows "runs (probe_body rx (count, s)) (\<lambda>(c, t). c = (if 0 \<le> rx_ret rx \<and> rx_ret rx < int count then count else 32) \<and>
    vs_good t \<and> set (map snd (vs_keys t)) =
      (if rx_accepts count rx then {take 6 (drop 12 (rx_buf rx)) @ [0, 0]} else {}) \<union> set (map snd (vs_keys s)) \<and>
    (\<forall>e. e \<noteq> 1 \<longrightarrow> reg_keys e t = reg_keys e s) \<and> cz_ctx t = cz_ctx s \<and> sent t = sent s \<and> core_frame s t)"
proof (cases "rx_accepts count rx")
  case True
  obtain info where i: "vs_info_at (rx_buf rx) 8 = Some info" "length (vsi_mac info) = 6"
    "vsi_mac info = take 6 (drop 12 (rx_buf rx))" using vs_info_at_64 [OF assms(2)] by blast
  have sync: "vs_table.in_sync s" using assms(1) by (simp add: vs_good_def)
  then have ok: "reg_ok 1 s" by (simp add: vs_table.in_sync_def)
  from vs_table.reg_sync [OF sync, of "(rx_addr rx, info)"] vs_register_frame [OF ok i(2), of "rx_addr rx"] i True
  show ?thesis by (auto elim!: runsE simp: probe_body_def rx_accepts_def vs_good_def)
next
  case False
  obtain cmd len where g: "GET_u16 (rx_buf rx) 0 = Some cmd" "GET_u16 (rx_buf rx) 2 = Some len"
    using assms(2) by (simp add: GET_u16_def)
  from False assms(1) g show ?thesis
    by (auto simp: probe_body_def rx_accepts_def unat_eq_32)
qed

text \<open>The MACs a run of receives announces; \<open>count\<close> changes with the first long datagram.\<close>

fun announced :: "nat \<Rightarrow> vs_rx list \<Rightarrow> buf set" where
  "announced count [] = {}"
| "announced count (rx # rxs) =
     (if rx_accepts count rx then {take 6 (drop 12 (rx_buf rx)) @ [0, 0]} else {}) \<union>
     announced (if 0 \<le> rx_ret rx \<and> rx_ret rx < int count then count else 32) rxs"

lemma probe_loop_sync:
  assumes "vs_good s" and "\<forall>rx \<in> set rxs. length (rx_buf rx) = 64"
  shows "runs (for_list probe_body rxs (count, s)) (\<lambda>(c, t). vs_good t \<and>
    set (map snd (vs_keys t)) = announced count rxs \<union> set (map snd (vs_keys s)) \<and>
    (\<forall>e. e \<noteq> 1 \<longrightarrow> reg_keys e t = reg_keys e s) \<and> cz_ctx t = cz_ctx s \<and> sent t = sent s \<and> core_frame s t)"
  using assms
proof (induction rxs arbitrary: count s)
  case (Cons rx rxs)
  let ?c = "if 0 \<le> rx_ret rx \<and> rx_ret rx < int count then count else 32"
  define new where "new = (if rx_accepts count rx then {take 6 (drop 12 (rx_buf rx)) @ [0, 0]} else {})"
  have "vs_good s" "length (rx_buf rx) = 64" using Cons.prems by simp_all
  from probe_body_sync [OF this, of count, folded new_def] obtain c t where t: "probe_body rx (count, s) = Some (c, t)"
    and P: "c = ?c \<and> vs_good t \<and> set (map snd (vs_keys t)) = new \<union> set (map snd (vs_keys s)) \<and>
    (\<forall>e. e \<noteq> 1 \<longrightarrow> reg_keys e t = reg_keys e s) \<and> cz_ctx t = cz_ctx s \<and> sent t = sent s \<and> core_frame s t"
    by (rule runs_pairE)
  then have c: "c = ?c" and good: "vs_good t" by blast+
  have "runs (for_list probe_body rxs (?c, t)) (\<lambda>(c, u). vs_good u \<and>
    set (map snd (vs_keys u)) = announced ?c rxs \<union> set (map snd (vs_keys t)) \<and>
    (\<forall>e. e \<noteq> 1 \<longrightarrow> reg_keys e u = reg_keys e t) \<and> cz_ctx u = cz_ctx t \<and> sent u = sent t \<and> core_frame t u)"
    using Cons.prems good by (intro Cons.IH) simp_all
  then show ?case unfolding for_list.simps t c bind.bind_lunit announced.simps new_def [symmetric]
  proof (rule runs_mono, goal_cases)
    case (1 x)
    obtain c' u where x: "x = (c', u)" by (cases x)
    have "core_frame s u" using 1 P x by (simp only: prod.case) (rule core_frame_trans, blast+)
    moreover have "set (map snd (vs_keys u)) = new \<union> announced ?c rxs \<union> set (map snd (vs_keys s))"
    proof -
      have "set (map snd (vs_keys u)) = announced ?c rxs \<union> set (map snd (vs_keys t))"
        using 1 x by (simp only: prod.case)
      moreover have "set (map snd (vs_keys t)) = new \<union> set (map snd (vs_keys s))" using P by (simp only:)
      ultimately show ?thesis by blast
    qed
    moreover have "vs_good u" "\<forall>e. e \<noteq> 1 \<longrightarrow> reg_keys e u = reg_keys e s" "cz_ctx u = cz_ctx s" "sent u = sent s"
      using 1 P x by simp_all
    ultimately show ?case unfolding x prod.case by blast
  qed
qed simp

definition probe_frame :: buf where
  "probe_frame = le16 VS_CMD_DEVICE_DISCOVER @ le16 8 @ [0, 0, 0, 0]"

lemma send_out_frame [simp]:
  "dev_ok (send_out s x) = dev_ok s" "abs_reg (send_out s x) = abs_reg s" "reg_keys e (send_out s x) = reg_keys e s"
  "vs_queue (send_out s x) = vs_queue s" "cz_ctx (send_out s x) = cz_ctx s" "find_drv (send_out s x) = find_drv s"
  "vs_keys (send_out s x) = vs_keys s" "core_frame s (send_out s x)" "sent (send_out s x) = sent s @ [x]"
  by (simp_all add: send_out_def dev_ok_def dev_obj_ok_def pool_ok_def abs_reg_def find_drv_def fun_eq_iff
      reg_keys_def vs_keys_def core_frame_def delays_idle_def dev_at_def [abs_def])

lemma vs_good_send_out [simp]: "vs_good (send_out s x) = vs_good s"
  by (simp add: vs_good_def vs_table.in_sync_def reg_ok_def)

lemma virtual_switch_probe_sync:
  assumes "vs_good s" and "\<forall>rx \<in> set rxs. length (rx_buf rx) = 64"
  shows "runs (virtual_switch_probe True rxs s) (\<lambda>(r, t). r = 0 \<and> vs_good t \<and>
    set (map snd (vs_keys t)) = announced 8 rxs \<union> set (map snd (vs_keys s)) \<and>
    sent t = sent s @ [UDP_BROADCAST VIRTUAL_SWITCH_LISTEN_PORT probe_frame] \<and>
    (\<forall>e. e \<noteq> 1 \<longrightarrow> reg_keys e t = reg_keys e s) \<and> cz_ctx t = cz_ctx s \<and> core_frame s t)"
proof -
  let ?s = "send_out s (UDP_BROADCAST VIRTUAL_SWITCH_LISTEN_PORT probe_frame)"
  have f: "take 8 (front (replicate 64 0) (le16 VS_CMD_DEVICE_DISCOVER @ le16 8)) = probe_frame"
    by (simp add: front_def probe_frame_def numeral_eq_Suc)
  have "runs (for_list probe_body rxs (8, ?s)) (\<lambda>(c, t). vs_good t \<and>
    set (map snd (vs_keys t)) = announced 8 rxs \<union> set (map snd (vs_keys ?s)) \<and>
    (\<forall>e. e \<noteq> 1 \<longrightarrow> reg_keys e t = reg_keys e ?s) \<and> cz_ctx t = cz_ctx ?s \<and> sent t = sent ?s \<and> core_frame ?s t)"
    using assms by (intro probe_loop_sync) simp_all
  then show ?thesis using f core_frame_trans [of s ?s]
    by (auto elim!: runsE simp: virtual_switch_probe_def)
qed

end
