(* ===== verification/Drv_Cg_Zigbee.thy ===== *)
theory Drv_Cg_Zigbee
  imports Drv_Virtual_Switch
begin

text \<open>
  The ZigBee driver, \<^verbatim>\<open>core_daemon/driver_cg_zigbee.c\<close>. Requests go out as frames on a UART and
  their answers come back through the driver's monitor thread, which hands a frame to the
  waiting request with a condition variable. \<open>cz_un_msgs\<close> counts the \<^verbatim>\<open>notify\<close> datagrams waiting
  for the monitor thread, \<open>cz_condition\<close> says whether the condition was signalled during the
  current wait. What happens while a request sleeps in \<^verbatim>\<open>pthread_cond_timedwait\<close> is an
  argument: the UART reads of the monitor thread in that time, and whether the wait wakes
  up spuriously. A local \<^verbatim>\<open>wbuf\<close> starts with the contents \<open>stk_buf\<close>.
\<close>

abbreviation (input) CZ_HEADER_MAGIC :: u16 where "CZ_HEADER_MAGIC \<equiv> 0x55AA"
abbreviation (input) CZ_HEADER_LEN :: nat where "CZ_HEADER_LEN \<equiv> 12"
abbreviation (input) CZ_DEFAULT_EP :: u16 where "CZ_DEFAULT_EP \<equiv> 10"
abbreviation (input) CZ_CMD_DEVICE_DISCOVER :: u16 where "CZ_CMD_DEVICE_DISCOVER \<equiv> 0x9101"
abbreviation (input) CZ_CMD_DEVICE_DISCOVER_RESP :: u16 where "CZ_CMD_DEVICE_DISCOVER_RESP \<equiv> 0x9102"
abbreviation (input) CZ_CMD_GET_STATUS :: u16 where "CZ_CMD_GET_STATUS \<equiv> 0x9111"
abbreviation (input) CZ_CMD_GET_STATUS_RESP :: u16 where "CZ_CMD_GET_STATUS_RESP \<equiv> 0x9112"
abbreviation (input) CZ_CMD_SET_STATUS :: u16 where "CZ_CMD_SET_STATUS \<equiv> 0x9113"
abbreviation (input) CZ_CMD_STATUS_CHANGED :: u16 where "CZ_CMD_STATUS_CHANGED \<equiv> 0x9114"
abbreviation (input) CZ_CMD_EVENT :: u16 where "CZ_CMD_EVENT \<equiv> 0x9121"
abbreviation (input) CZ_CMD_DO_ACTION :: u16 where "CZ_CMD_DO_ACTION \<equiv> 0x9131"
abbreviation (input) CZ_CMD_KEEP_ALIVE :: u16 where "CZ_CMD_KEEP_ALIVE \<equiv> 0x9141"
abbreviation (input) CZ_CMD_RESULT :: u16 where "CZ_CMD_RESULT \<equiv> 0x9191"
abbreviation (input) CZ_PKT_TYPE_UC :: u16 where "CZ_PKT_TYPE_UC \<equiv> 0"
abbreviation (input) CZ_PKT_TYPE_BC :: u16 where "CZ_PKT_TYPE_BC \<equiv> 1"

definition cz_drv :: HSB_DEV_DRV_T where
  "cz_drv = \<lparr>drv_name = ''cg zigbee'', drv_id = 2, drv_op = Some cz_drv_op\<rparr>"

section \<open>The device table\<close>

definition cz_find_dev_by_mac :: "box \<Rightarrow> buf \<Rightarrow> CZ_DEV_T option" where
  "cz_find_dev_by_mac s mac = find (\<lambda>d. czi_mac (cz_info d) = mac) (cz_queue (cz_ctx s))"

definition cz_find_dev_by_id :: "box \<Rightarrow> u32 \<Rightarrow> CZ_DEV_T option" where
  "cz_find_dev_by_id s devid = find (\<lambda>d. devid = cz_id d) (cz_queue (cz_ctx s))"

definition cz_find_dev_by_short_addr :: "box \<Rightarrow> u16 \<Rightarrow> CZ_DEV_T option" where
  "cz_find_dev_by_short_addr s short_addr = find (\<lambda>d. short_addr = cz_short_addr d) (cz_queue (cz_ctx s))"

definition cz_info_at :: "buf \<Rightarrow> nat \<Rightarrow> CZ_INFO_T option" where
  "cz_info_at b off = do {
     c \<leftarrow> GET_u16 b off;
     i \<leftarrow> GET_u16 b (off + 2);
     st \<leftarrow> GET_u32 b (off + 12);
     ev \<leftarrow> GET_u32 b (off + 16);
     ac \<leftarrow> GET_u32 b (off + 20);
     Some \<lparr>czi_dev_class = c, czi_interface = i, czi_mac = take 8 (drop (off + 4) b),
       czi_status_bm = st, czi_event_bm = ev, czi_action_bm = ac\<rparr>
   }"

definition cz_register_device :: "box \<Rightarrow> u16 \<Rightarrow> u16 \<Rightarrow> CZ_INFO_T \<Rightarrow> (int \<times> box) option" where
  "cz_register_device s short_addr end_point info =
     (case cz_find_dev_by_mac s (czi_mac info) of
        Some pdev \<Rightarrow> Some (errno HSB_E_OK, s)
      | None \<Rightarrow> do {
          let dev_info = \<lparr>info_cls = ucast (czi_dev_class info), info_interface = ucast (czi_interface info),
                info_mac = czi_mac info\<rparr>;
          (ret, devid, s) \<leftarrow> dev_online s (drv_id cz_drv) dev_info sample_op;
          if ret \<noteq> errno HSB_E_OK then Some (ret, s)
          else Some (0, cz_ctx_update (cz_queue_update (\<lambda>q. g_queue_push_tail q
                 \<lparr>cz_id = devid, cz_short_addr = short_addr, cz_end_point = end_point, cz_idle_time = 0,
                  cz_info = info\<rparr>)) s)
        })"

section \<open>Frames\<close>

definition COND_LOCK :: "box \<Rightarrow> box option" where
  "COND_LOCK s = (if cz_cond_mutex (cz_ctx s) then None
     else Some (cz_ctx_update (cz_cond_mutex_update (\<lambda>_. True)) s))"

definition COND_UNLOCK :: "box \<Rightarrow> box" where
  "COND_UNLOCK s = cz_ctx_update (cz_cond_mutex_update (\<lambda>_. False)) s"

definition notify_process :: "box \<Rightarrow> box" where
  "notify_process s = cz_ctx_update (cz_un_msgs_update Suc) s"

text \<open>The six header fields every frame starts with, \<open>len\<close> being the length after the header.\<close>

definition cz_header :: "buf \<Rightarrow> nat \<Rightarrow> u16 \<Rightarrow> u16 \<Rightarrow> u16 \<Rightarrow> u16 \<Rightarrow> buf option" where
  "cz_header wbuf len type short_addr end_point trans_id = do {
     wbuf \<leftarrow> SET_u16 wbuf 0 CZ_HEADER_MAGIC;
     wbuf \<leftarrow> SET_u16 wbuf 2 (of_nat (len + CZ_HEADER_LEN));
     wbuf \<leftarrow> SET_u16 wbuf 4 type;
     wbuf \<leftarrow> SET_u16 wbuf 6 short_addr;
     wbuf \<leftarrow> SET_u16 wbuf 8 end_point;
     SET_u16 wbuf 10 trans_id
   }"

text \<open>\<^verbatim>\<open>memcpy(pctx->send_buf, wbuf, len + CZ_HEADER_LEN)\<close>, the length, and the notification.\<close>

definition cz_send :: "box \<Rightarrow> buf \<Rightarrow> nat \<Rightarrow> box option" where
  "cz_send s wbuf len =
     (if len + CZ_HEADER_LEN > length wbuf then None
      else do {
        sb \<leftarrow> put_bytes (cz_send_buf (cz_ctx s)) 0 (take (len + CZ_HEADER_LEN) wbuf);
        Some (notify_process (cz_ctx_update (\<lambda>c. c\<lparr>cz_send_buf := sb, cz_send_len := len + CZ_HEADER_LEN\<rparr>) s))
      })"

definition cz_probe :: "box \<Rightarrow> (int \<times> box) option" where
  "cz_probe s = do {
     let wbuf = stk_buf s;
     s \<leftarrow> COND_LOCK s;
     let s = cz_ctx_update (cz_is_waiting_update (\<lambda>_. False)) s;
     let len = 8;
     wbuf \<leftarrow> cz_header wbuf len CZ_PKT_TYPE_BC 0xFFFF CZ_DEFAULT_EP 0;
     wbuf \<leftarrow> SET_u16 wbuf (CZ_HEADER_LEN + 0) CZ_CMD_DEVICE_DISCOVER;
     wbuf \<leftarrow> SET_u16 wbuf (CZ_HEADER_LEN + 2) (of_nat len);
     s \<leftarrow> cz_send s wbuf len;
     Some (errno HSB_E_OK, COND_UNLOCK s)
   }"

section \<open>The monitor thread\<close>

definition deal_recv_buf :: "box \<Rightarrow> buf \<Rightarrow> nat \<Rightarrow> (int \<times> box) option" where
  "deal_recv_buf s b len = do {
     magic \<leftarrow> GET_u16 b 0;
     tlen \<leftarrow> GET_u16 b 2;
     type \<leftarrow> GET_u16 b 4;
     short_addr \<leftarrow> GET_u16 b 6;
     end_point \<leftarrow> GET_u16 b 8;
     trans_id \<leftarrow> GET_u16 b 10;
     cmd \<leftarrow> GET_u16 b (CZ_HEADER_LEN + 0);
     rlen \<leftarrow> GET_u16 b (CZ_HEADER_LEN + 2);
     if trans_id = 0 then
       (if cmd = CZ_CMD_DEVICE_DISCOVER_RESP then
          (if unat rlen \<noteq> 32 then Some (errno HSB_E_OTHERS, s)
           else do {
             info \<leftarrow> cz_info_at b (CZ_HEADER_LEN + 8);
             (r, s) \<leftarrow> cz_register_device s short_addr end_point info;
             Some (errno HSB_E_OK, s)
           })
        else if cmd = CZ_CMD_EVENT then do {
          eid \<leftarrow> GET_u16 b (CZ_HEADER_LEN + 4);
          param \<leftarrow> GET_u16 b (CZ_HEADER_LEN + 6);
          param2 \<leftarrow> GET_u32 b (CZ_HEADER_LEN + 8);
          case cz_find_dev_by_short_addr s short_addr of
            None \<Rightarrow> Some (errno HSB_E_OTHERS, s)
          | Some pdev \<Rightarrow> do {
              s \<leftarrow> report_event s (cz_id pdev) eid param param2;
              Some (errno HSB_E_OK, s)
            }
        }
        else if cmd = CZ_CMD_KEEP_ALIVE then Some (errno HSB_E_OK, s)
        else if cmd = CZ_CMD_STATUS_CHANGED then do {
          sid \<leftarrow> GET_u16 b (CZ_HEADER_LEN + 4);
          v \<leftarrow> GET_u16 b (CZ_HEADER_LEN + 6);
          case cz_find_dev_by_short_addr s short_addr of
            None \<Rightarrow> Some (errno HSB_E_OTHERS, s)
          | Some pdev \<Rightarrow> do {
              s \<leftarrow> status_updated s (cz_id pdev) sid v;
              Some (errno HSB_E_OK, s)
            }
        }
        else Some (errno HSB_E_OK, s))
     else if trans_id \<noteq> cz_trans_id (cz_ctx s) then Some (errno HSB_E_OTHERS, s)
     else do {
       s \<leftarrow> COND_LOCK s;
       if \<not> cz_is_waiting (cz_ctx s) then Some (errno HSB_E_OTHERS, COND_UNLOCK s)
       else if len > length b then None
       else do {
         rb \<leftarrow> put_bytes (cz_recv_buf (cz_ctx s)) 0 (take len b);
         let s = cz_ctx_update (\<lambda>c. c\<lparr>cz_recv_buf := rb, cz_recv_len := len, cz_condition := True\<rparr>) s;
         Some (errno HSB_E_OK, COND_UNLOCK s)
       }
     }
   }"

text \<open>
  One round of the thread. A waiting notification is served before the UART; \<open>nwrite\<close> is
  what \<^verbatim>\<open>write_timeout\<close> managed to write. For the UART, \<open>nread\<close> and \<open>ret\<close> are the results of
  the two \<^verbatim>\<open>read_timeout\<close> calls and \<open>rbuf\<close> the contents of the 256-byte buffer after them.
\<close>

definition cz_monitor_notify :: "nat \<Rightarrow> box \<Rightarrow> box option" where
  "cz_monitor_notify nwrite s =
     (if cz_un_msgs (cz_ctx s) = 0 then Some s
      else if cz_send_len (cz_ctx s) > length (cz_send_buf (cz_ctx s)) then None
      else do {
        let s = cz_ctx_update (cz_un_msgs_update (\<lambda>n. n - 1)) s;
        Some (send_out s (UART_WRITE (take (min nwrite (cz_send_len (cz_ctx s))) (cz_send_buf (cz_ctx s)))))
      })"

record uart_rx =
  ur_nread :: int
  ur_ret :: int
  ur_buf :: buf

definition cz_monitor_uart :: "uart_rx \<Rightarrow> box \<Rightarrow> box option" where
  "cz_monitor_uart rx s = do {
     magic \<leftarrow> GET_u16 (ur_buf rx) 0;
     cmd_len \<leftarrow> GET_u16 (ur_buf rx) 2;
     if ur_nread rx < int CZ_HEADER_LEN \<or> magic \<noteq> CZ_HEADER_MAGIC then Some s
     else if unat cmd_len \<le> CZ_HEADER_LEN then Some s
     else if ur_nread rx + ur_ret rx > int (length (ur_buf rx)) then None
     else if ur_ret rx < int (unat cmd_len - CZ_HEADER_LEN) then Some s
     else do {
       (r, s) \<leftarrow> deal_recv_buf s (ur_buf rx) (unat cmd_len);
       Some s
     }
   }"

section \<open>Requests\<close>

record cz_io =
  ci_nwrite :: nat
  ci_rxs :: "uart_rx list"
  ci_spurious :: bool

text \<open>The sleep: the mutex is free, the monitor thread runs, the mutex is taken again.\<close>

definition cz_timedwait :: "cz_io \<Rightarrow> box \<Rightarrow> (bool \<times> box) option" where
  "cz_timedwait io s = do {
     let s = cz_ctx_update (\<lambda>c. c\<lparr>cz_cond_mutex := False, cz_condition := False\<rparr>) s;
     s \<leftarrow> cz_monitor_notify (ci_nwrite io) s;
     s \<leftarrow> for_list cz_monitor_uart (ci_rxs io) s;
     let woken = cz_condition (cz_ctx s) \<or> ci_spurious io;
     s \<leftarrow> COND_LOCK s;
     Some (\<not> woken, s)
   }"

definition cz_finish :: "box \<Rightarrow> box" where
  "cz_finish s = COND_UNLOCK
     (cz_ctx_update (\<lambda>c. c\<lparr>cz_is_waiting := False, cz_trans_id := cz_trans_id c + 1\<rparr>) s)"

text \<open>The common end of \<^verbatim>\<open>sample_set_status\<close> and \<^verbatim>\<open>sample_set_action\<close>.\<close>

definition cz_result :: "bool \<times> box \<Rightarrow> (int \<times> box) option" where
  "cz_result = (\<lambda>(timed_out, s).
     if timed_out then Some (errno HSB_E_OTHERS, cz_finish s)
     else do {
       let b = cz_recv_buf (cz_ctx s);
       let len = int (cz_recv_len (cz_ctx s)) - int CZ_HEADER_LEN;
       cmd \<leftarrow> GET_u16 b (CZ_HEADER_LEN + 0);
       rlen \<leftarrow> GET_u16 b (CZ_HEADER_LEN + 2);
       result \<leftarrow> GET_u16 b (CZ_HEADER_LEN + 4);
       if cmd \<noteq> CZ_CMD_RESULT \<or> uint rlen \<noteq> len then Some (errno HSB_E_INVALID_MSG, cz_finish s)
       else if result = 0 then Some (errno HSB_E_ACT_FAILED, cz_finish s)
       else Some (errno HSB_E_OK, cz_finish s)
     })"

definition sample_set_status :: "cz_io \<Rightarrow> HSB_STATUS_T \<Rightarrow> box \<Rightarrow> (int \<times> box) option" where
  "sample_set_status io st s =
     (case cz_find_dev_by_id s (st_devid st) of
        None \<Rightarrow> Some (errno HSB_E_ENTRY_NOT_FOUND, s)
      | Some pdev \<Rightarrow> do {
          let wbuf = stk_buf s;
          s \<leftarrow> COND_LOCK s;
          let s = cz_ctx_update (cz_is_waiting_update (\<lambda>_. True)) s;
          let len = unat (4 + 4 * st_num st);
          wbuf \<leftarrow> cz_header wbuf len CZ_PKT_TYPE_UC (cz_short_addr pdev) (cz_end_point pdev) (cz_trans_id (cz_ctx s));
          wbuf \<leftarrow> SET_u16 wbuf (CZ_HEADER_LEN + 0) CZ_CMD_SET_STATUS;
          wbuf \<leftarrow> SET_u16 wbuf (CZ_HEADER_LEN + 2) (of_nat len);
          wbuf \<leftarrow> for_list (put_status_body st CZ_HEADER_LEN) [0..<unat (st_num st)] wbuf;
          s \<leftarrow> cz_send s wbuf len;
          w \<leftarrow> cz_timedwait io s;
          cz_result w
        })"

definition sample_get_status :: "cz_io \<Rightarrow> HSB_STATUS_T \<Rightarrow> box \<Rightarrow> (int \<times> HSB_STATUS_T \<times> box) option" where
  "sample_get_status io st s =
     (case cz_find_dev_by_id s (st_devid st) of
        None \<Rightarrow> Some (errno HSB_E_ENTRY_NOT_FOUND, st, s)
      | Some pdev \<Rightarrow> do {
          let wbuf = stk_buf s;
          s \<leftarrow> COND_LOCK s;
          let s = cz_ctx_update (cz_is_waiting_update (\<lambda>_. True)) s;
          let len = 8;
          wbuf \<leftarrow> cz_header wbuf len CZ_PKT_TYPE_UC (cz_short_addr pdev) (cz_end_point pdev) (cz_trans_id (cz_ctx s));
          wbuf \<leftarrow> SET_u16 wbuf (CZ_HEADER_LEN + 0) CZ_CMD_GET_STATUS;
          wbuf \<leftarrow> SET_u16 wbuf (CZ_HEADER_LEN + 2) (of_nat len);
          wbuf \<leftarrow> SET_u32 wbuf (CZ_HEADER_LEN + 4) 0xffffffff;
          s \<leftarrow> cz_send s wbuf len;
          (timed_out, s) \<leftarrow> cz_timedwait io s;
          if timed_out then Some (errno HSB_E_OTHERS, st, cz_finish s)
          else do {
            let b = cz_recv_buf (cz_ctx s);
            let len = int (cz_recv_len (cz_ctx s)) - int CZ_HEADER_LEN;
            cmd \<leftarrow> GET_u16 b (CZ_HEADER_LEN + 0);
            rlen \<leftarrow> GET_u16 b (CZ_HEADER_LEN + 2);
            if cmd \<noteq> CZ_CMD_GET_STATUS_RESP \<or> uint rlen \<noteq> len
            then Some (errno HSB_E_INVALID_MSG, st, cz_finish s)
            else do {
              (st, status_num) \<leftarrow> get_status_loop b (unat rlen) CZ_HEADER_LEN st 4 0;
              Some (errno HSB_E_OK, st\<lparr>st_num := of_nat status_num\<rparr>, cz_finish s)
            }
          }
        })"

definition sample_set_action :: "cz_io \<Rightarrow> HSB_ACTION_T \<Rightarrow> box \<Rightarrow> (int \<times> box) option" where
  "sample_set_action io act s =
     (case cz_find_dev_by_id s (act_devid act) of
        None \<Rightarrow> Some (errno HSB_E_ENTRY_NOT_FOUND, s)
      | Some pdev \<Rightarrow> do {
          let wbuf = stk_buf s;
          s \<leftarrow> COND_LOCK s;
          let s = cz_ctx_update (cz_is_waiting_update (\<lambda>_. True)) s;
          let len = 12;
          wbuf \<leftarrow> cz_header wbuf len CZ_PKT_TYPE_UC (cz_short_addr pdev) (cz_end_point pdev) (cz_trans_id (cz_ctx s));
          wbuf \<leftarrow> SET_u16 wbuf (CZ_HEADER_LEN + 0) CZ_CMD_DO_ACTION;
          wbuf \<leftarrow> SET_u16 wbuf (CZ_HEADER_LEN + 2) (of_nat len);
          wbuf \<leftarrow> SET_u16 wbuf (CZ_HEADER_LEN + 4) (act_id act);
          wbuf \<leftarrow> SET_u16 wbuf (CZ_HEADER_LEN + 6) (act_param1 act);
          wbuf \<leftarrow> SET_u32 wbuf (CZ_HEADER_LEN + 8) (act_param2 act);
          s \<leftarrow> cz_send s wbuf len;
          w \<leftarrow> cz_timedwait io s;
          cz_result w
        })"

section \<open>The table and the registry\<close>

definition cz_key :: "CZ_DEV_T \<Rightarrow> u32 \<times> buf" where
  "cz_key d = (cz_id d, czi_mac (cz_info d))"

definition cz_keys :: "box \<Rightarrow> (u32 \<times> buf) list" where
  "cz_keys s = map cz_key (cz_queue (cz_ctx s))"

lemma cz_ctx_frame [simp]:
  "dev_ok (cz_ctx_update f s) = dev_ok s" "abs_reg (cz_ctx_update f s) = abs_reg s"
  "find_drv (cz_ctx_update f s) = find_drv s" "reg_keys e (cz_ctx_update f s) = reg_keys e s"
  "vs_keys (cz_ctx_update f s) = vs_keys s" "core_frame s (cz_ctx_update f s)"
  by (simp_all add: dev_ok_def dev_obj_ok_def pool_ok_def abs_reg_def find_drv_def fun_eq_iff reg_keys_def
      vs_keys_def core_frame_def delays_idle_def dev_at_def [abs_def])

lemma cz_known_iff: "(cz_find_dev_by_mac s mac \<noteq> None) = (mac \<in> snd ` set (cz_keys s))"
  by (auto simp: cz_find_dev_by_mac_def cz_keys_def cz_key_def find_None_iff image_iff)

definition cz_rest :: "CZ_CONTEXT_T \<Rightarrow> CZ_CONTEXT_T" where
  "cz_rest c = c\<lparr>cz_queue := []\<rparr>"

lemma cz_register_new:
  assumes "czi_mac info \<notin> snd ` set (cz_keys s)" and "reg_ok 2 s" and "length (czi_mac info) = 8"
  shows "runs (cz_register_device s addr ep info) (\<lambda>(r, t). r = errno HSB_E_OK \<and> reg_ok 2 t \<and>
      (\<exists>devid. cz_keys t = cz_keys s @ [(devid, czi_mac info)] \<and>
               reg_keys 2 t = reg_keys 2 s @ [(devid, czi_mac info)]) \<and>
      (\<forall>e. e \<noteq> 2 \<longrightarrow> reg_keys e t = reg_keys e s) \<and>
      cz_rest (cz_ctx t) = cz_rest (cz_ctx s) \<and> vs_queue t = vs_queue s \<and> sent t = sent s \<and> core_frame s t)"
proof -
  let ?info = "\<lparr>info_cls = ucast (czi_dev_class info), info_interface = ucast (czi_interface info),
      info_mac = czi_mac info\<rparr>"
  obtain drv where drv: "find_drv s 2 = Some drv" and ok: "dev_ok s" using assms(2) by (auto simp: reg_ok_def)
  have none: "cz_find_dev_by_mac s (czi_mac info) = None" using assms(1) cz_known_iff by blast
  have id: "drv_id cz_drv = 2" by (simp add: cz_drv_def)
  from dev_online_keys [OF ok drv, of ?info sample_op] assms(3)
  obtain devid t where t: "dev_online s 2 ?info sample_op = Some (errno HSB_E_OK, devid, t)" "dev_ok t"
    "drv_frame s t" "reg_keys 2 t = reg_keys 2 s @ [(devid, czi_mac info)]"
    "\<forall>e. e \<noteq> 2 \<longrightarrow> reg_keys e t = reg_keys e s"
    by (auto elim!: runsE)
  have cf: "core_frame s (cz_ctx_update f t)" for f
    by (rule core_frame_trans [OF drv_frame_core [OF t(3)]]) simp
  from t find_drv_frame [OF t(3)] drv cf show ?thesis
    by (simp add: cz_register_device_def none id reg_ok_def cz_keys_def cz_key_def drv_frame_def
        g_queue_push_tail_def cz_rest_def)
qed

interpretation cz_table: driver_table 2 cz_keys "\<lambda>x s. cz_register_device s (fst x) (fst (snd x)) (snd (snd x))"
  "\<lambda>x. czi_mac (snd (snd x))" "\<lambda>x. length (czi_mac (snd (snd x))) = 8"
proof unfold_locales
  fix x :: "u16 \<times> u16 \<times> CZ_INFO_T" and s
  assume "czi_mac (snd (snd x)) \<in> snd ` set (cz_keys s)"
  then have "cz_find_dev_by_mac s (czi_mac (snd (snd x))) \<noteq> None" using cz_known_iff by blast
  then show "cz_register_device s (fst x) (fst (snd x)) (snd (snd x)) = Some (errno HSB_E_OK, s)"
    by (auto simp: cz_register_device_def)
next
  fix x :: "u16 \<times> u16 \<times> CZ_INFO_T" and s
  assume "czi_mac (snd (snd x)) \<notin> snd ` set (cz_keys s)" "reg_ok 2 s" "length (czi_mac (snd (snd x))) = 8"
  from cz_register_new [OF this] show "runs (cz_register_device s (fst x) (fst (snd x)) (snd (snd x))) (\<lambda>(r, t).
      r = errno HSB_E_OK \<and> reg_ok 2 t \<and>
      (\<exists>devid. cz_keys t = cz_keys s @ [(devid, czi_mac (snd (snd x)))] \<and>
               reg_keys 2 t = reg_keys 2 s @ [(devid, czi_mac (snd (snd x)))]) \<and>
      (\<forall>e. e \<noteq> 2 \<longrightarrow> reg_keys e t = reg_keys e s))"
    by (rule runs_mono) auto
qed

section \<open>The invariant of registry and drivers\<close>

definition cz_bufs :: "CZ_CONTEXT_T \<Rightarrow> bool" where
  "cz_bufs c \<longleftrightarrow> length (cz_send_buf c) = 256 \<and> length (cz_recv_buf c) = 256 \<and> cz_send_len c \<le> 256 \<and>
     cz_recv_len c \<le> 256 \<and> \<not> cz_cond_mutex c"

definition box_ok :: "box \<Rightarrow> bool" where
  "box_ok s \<longleftrightarrow> vs_table.in_sync s \<and> cz_table.in_sync s \<and> cz_bufs (cz_ctx s) \<and> length (stk_buf s) = 64"

lemma box_okD:
  assumes "box_ok s"
  shows "dev_ok s" "vs_good s" "cz_table.in_sync s" "cz_bufs (cz_ctx s)" "length (stk_buf s) = 64" "reg_ok 2 s" "reg_ok 1 s"
  using assms by (auto simp: box_ok_def vs_good_def vs_table.in_sync_def cz_table.in_sync_def reg_ok_def)

lemma vs_sync_frame:
  "vs_table.in_sync s \<Longrightarrow> reg_ok 1 t \<Longrightarrow> vs_keys t = vs_keys s \<Longrightarrow> reg_keys 1 t = reg_keys 1 s \<Longrightarrow>
   vs_table.in_sync t"
  by (metis vs_table.in_sync_def)

text \<open>Steps that only touch one side keep the whole.\<close>

lemma box_ok_base_step:
  assumes "box_ok s" and "dev_ok t" and "base_frame s t"
    and "vs_keys t = vs_keys s" and "reg_keys 1 t = reg_keys 1 s"
    and "cz_keys t = cz_keys s" and "reg_keys 2 t = reg_keys 2 s" and "cz_bufs (cz_ctx t)"
  shows "box_ok t"
  using assms find_drv_base [OF assms(3)]
  by (auto simp: box_ok_def vs_table.in_sync_def cz_table.in_sync_def reg_ok_def base_frame_def)

lemmas box_ok_step = box_ok_base_step [OF _ _ core_base]

lemma box_ok_drv_frame:
  assumes "box_ok s" and "dev_ok t" and "drv_frame s t" and "abs_reg t = abs_reg s"
  shows "box_ok t"
proof (rule box_ok_step [OF assms(1,2) drv_frame_core [OF assms(3)]])
  show "cz_bufs (cz_ctx t)" using assms(3) box_okD(4) [OF assms(1)] by (simp add: drv_frame_def)
qed (use assms(3) keys_abs [OF assms(4)] in \<open>simp_all add: drv_frame_def vs_keys_def cz_keys_def\<close>)

lemma box_ok_cz:
  assumes "box_ok s" and "cz_queue (f (cz_ctx s)) = cz_queue (cz_ctx s)" and "cz_bufs (f (cz_ctx s))"
  shows "box_ok (cz_ctx_update f s)"
  using assms by (intro box_ok_step [OF assms(1)]) (simp_all add: box_okD cz_keys_def)

lemma box_ok_send_out [simp]: "box_ok (send_out s x) = box_ok s"
  by (simp add: box_ok_def vs_table.in_sync_def cz_table.in_sync_def reg_ok_def cz_keys_def) (simp add: send_out_def)

section \<open>Reports\<close>

lemma event_out_step: "box_ok s \<Longrightarrow> box_ok (event_out s i ty p q) \<and> core_frame s (event_out s i ty p q)"
  by (simp add: box_ok_drv_frame [of s] dev_ok_event_out drv_frame_core box_okD)

lemma set_box_work_mode_step:
  assumes "box_ok s"
  shows "runs (set_box_work_mode s mode) (\<lambda>(r, t). box_ok t \<and> core_frame s t \<and> drv_frame s t)"
proof (cases "HSB_WORK_MODE_VALID mode")
  case True
  let ?s = "dev_cb_update (cb_work_mode_update (\<lambda>_. mode)) s"
  have f: "drv_frame s ?s" by (simp add: drv_frame_def delays_idle_def)
  have "abs_reg ?s = abs_reg s" by (simp add: abs_reg_def)
  then have s: "box_ok ?s"
    using assms True f by (intro box_ok_drv_frame [OF assms]) (simp_all add: dev_ok_work_mode box_okD)
  have "drv_frame s (event_out ?s i ty p q)" for i ty p q
    by (rule drv_frame_trans [OF f]) simp
  then show ?thesis
    using s True assms event_out_step [OF s] by (simp add: set_box_work_mode_good box_okD drv_frame_core)
qed (use assms in \<open>simp add: set_box_work_mode_bad\<close>)

lemma report_event_step:
  assumes "box_ok s"
  shows "runs (report_event s devid eid param param2) (\<lambda>t. box_ok t \<and> core_frame s t \<and> drv_frame s t)"
proof -
  have k: "runs (map_option snd (key_pressed s param)) (\<lambda>t. box_ok t \<and> core_frame s t \<and> drv_frame s t)"
    using set_box_work_mode_step [OF assms, of "ucast param"] assms
    by (auto simp: key_pressed_def runs_def)
  show ?thesis
    using k assms event_out_step [OF assms]
    by (simp add: report_event_def dev_sensor_triggered_def dev_sensor_recovered_def dev_ir_key_def
        dev_event_eq box_okD)
qed

lemma status_updated_eq:
  assumes "box_ok s"
  shows "status_updated s devid sid v = Some (event_out s devid HSB_EVT_TYPE_STATUS_UPDATED sid (ucast v))"
proof -
  have ok: "dev_ok s" using assms by (rule box_okD)
  then have sh: "status_shape (stk_status s)" by (simp add: dev_okD)
  then have "length (st_id (stk_status s)) = 8" "length (st_val (stk_status s)) = 8" by (simp_all add: status_shape_def)
  with ok sh show ?thesis
    by (simp add: status_updated_def one_status_set_one dev_status_updated_def set_one_def dev_event_eq)
qed

section \<open>A received frame\<close>

lemma GET_u16_256: "length b = 256 \<Longrightarrow> off \<le> 254 \<Longrightarrow> GET_u16 b off = Some (of_le16 (b ! off) (b ! (off + 1)))"
  by (simp add: GET_u16_def)

lemma GET_u32_256: "length b = 256 \<Longrightarrow> off \<le> 252 \<Longrightarrow> \<exists>v. GET_u32 b off = Some v"
  by (simp add: GET_u32_def)

lemma cz_info_at_256: "length b = 256 \<Longrightarrow> \<exists>info. cz_info_at b 20 = Some info \<and>
   length (czi_mac info) = 8 \<and> czi_mac info = take 8 (drop 24 b)"
  by (simp add: cz_info_at_def GET_u16_def GET_u32_def)

lemma cz_register_step:
  assumes "box_ok s" and "length (czi_mac info) = 8"
  shows "runs (cz_register_device s addr ep info) (\<lambda>(r, t). box_ok t \<and> core_frame s t \<and>
    cz_rest (cz_ctx t) = cz_rest (cz_ctx s) \<and> vs_queue t = vs_queue s \<and> sent t = sent s)"
proof (cases "czi_mac info \<in> snd ` set (cz_keys s)")
  case True
  with cz_table.reg_known [of "(addr, ep, info)" s] assms(1) show ?thesis by simp
next
  case False
  have bufs: "cz_bufs (cz_ctx t)" if "cz_rest (cz_ctx t) = cz_rest (cz_ctx s)" for t
    using that box_okD(4) [OF assms(1)]
    by (cases "cz_ctx s"; cases "cz_ctx t") (simp add: cz_rest_def cz_bufs_def)
  have sync: "runs (cz_register_device s addr ep info) (\<lambda>(r, t). cz_table.in_sync t)"
    using cz_table.reg_sync [OF box_okD(3) [OF assms(1)], of "(addr, ep, info)"] assms(2)
    by (auto elim: runs_mono)
  from cz_register_new [OF False box_okD(6) [OF assms(1)] assms(2)] obtain r t where
    t: "cz_register_device s addr ep info = Some (r, t)" and P: "r = errno HSB_E_OK \<and> reg_ok 2 t \<and>
      (\<exists>devid. cz_keys t = cz_keys s @ [(devid, czi_mac info)] \<and>
               reg_keys 2 t = reg_keys 2 s @ [(devid, czi_mac info)]) \<and>
      (\<forall>e. e \<noteq> 2 \<longrightarrow> reg_keys e t = reg_keys e s) \<and>
      cz_rest (cz_ctx t) = cz_rest (cz_ctx s) \<and> vs_queue t = vs_queue s \<and> sent t = sent s \<and> core_frame s t"
    by (rule runs_pairE)
  then have "cz_table.in_sync t" using sync by simp
  moreover have "cz_bufs (cz_ctx t)" using P by (intro bufs) simp
  moreover have "vs_table.in_sync t"
  proof (rule vs_sync_frame)
    show "reg_ok 1 t" using P box_okD(7) [OF assms(1)] find_drv_core [of s t] by (auto simp: reg_ok_def)
  qed (use P assms(1) in \<open>simp_all add: box_ok_def vs_keys_def\<close>)
  moreover have "length (stk_buf t) = 64" using P box_okD(5) [OF assms(1)] by (simp add: core_frame_def)
  ultimately show ?thesis using P t by (simp add: box_ok_def)
qed

text \<open>The driver context apart from its device table, and what a frame may change of it.\<close>

definition wait_frame :: "box \<Rightarrow> box \<Rightarrow> bool" where
  "wait_frame s t \<longleftrightarrow> cz_trans_id (cz_ctx t) = cz_trans_id (cz_ctx s) \<and>
     cz_is_waiting (cz_ctx t) = cz_is_waiting (cz_ctx s) \<and>
     cz_send_buf (cz_ctx t) = cz_send_buf (cz_ctx s) \<and> cz_send_len (cz_ctx t) = cz_send_len (cz_ctx s) \<and>
     (cz_condition (cz_ctx s) \<longrightarrow> cz_condition (cz_ctx t)) \<and> vs_queue t = vs_queue s \<and>
     (\<not> cz_condition (cz_ctx t) \<longrightarrow> cz_recv_buf (cz_ctx t) = cz_recv_buf (cz_ctx s) \<and>
        cz_recv_len (cz_ctx t) = cz_recv_len (cz_ctx s)) \<and>
     (cz_condition (cz_ctx t) \<and> \<not> cz_condition (cz_ctx s) \<longrightarrow> cz_trans_id (cz_ctx s) \<noteq> 0 \<and> cz_is_waiting (cz_ctx s))"

lemma wait_frame_refl [simp]: "wait_frame s s"
  by (simp add: wait_frame_def)

lemma wait_frame_trans: "wait_frame s t \<Longrightarrow> wait_frame t u \<Longrightarrow> wait_frame s u"
  by (auto simp: wait_frame_def)

lemma wait_frame_rest:
  assumes "cz_rest (cz_ctx t) = cz_rest (cz_ctx s)" and "vs_queue t = vs_queue s"
  shows "wait_frame s t"
  using assms by (cases "cz_ctx s"; cases "cz_ctx t") (simp add: cz_rest_def wait_frame_def)

lemma wait_frame_drv: "drv_frame s t \<Longrightarrow> wait_frame s t"
  by (simp add: drv_frame_def wait_frame_def)

definition handed_over :: "box \<Rightarrow> buf \<Rightarrow> nat \<Rightarrow> box" where
  "handed_over s b len = cz_ctx_update (\<lambda>c. c\<lparr>cz_recv_buf := take len b @ drop len (cz_recv_buf c),
     cz_recv_len := len, cz_condition := True\<rparr>) s"

lemma unlock_lock:
  "\<not> cz_cond_mutex (cz_ctx s) \<Longrightarrow> cz_ctx_update (cz_cond_mutex_update (\<lambda>_. False)) (cz_ctx_update (cz_cond_mutex_update (\<lambda>_. True)) s) = s"
  "\<not> cz_cond_mutex (cz_ctx s) \<Longrightarrow> cz_ctx_update (cz_cond_mutex_update (\<lambda>_. False)) s = s"
  by (cases s; cases "cz_ctx s"; simp)+

definition frame_trans :: "buf \<Rightarrow> u16" where
  "frame_trans b = of_le16 (b ! 10) (b ! 11)"

text \<open>An answer with the id of the waiting request is handed over; any other answer is dropped.\<close>

lemma deal_recv_buf_answer:
  assumes "box_ok s" and "length b = 256" and "len \<le> 256" and "frame_trans b \<noteq> 0"
  shows "deal_recv_buf s b len =
    Some (if frame_trans b = cz_trans_id (cz_ctx s) \<and> cz_is_waiting (cz_ctx s)
      then (errno HSB_E_OK, handed_over s b len) else (errno HSB_E_OTHERS, s))"
proof -
  have c: "cz_bufs (cz_ctx s)" using assms(1) by (rule box_okD)
  then have m: "\<not> cz_cond_mutex (cz_ctx s)" and l: "length (cz_recv_buf (cz_ctx s)) = 256" by (simp_all add: cz_bufs_def)
  have pb: "put_bytes (cz_recv_buf (cz_ctx s)) 0 (take len b) = Some (take len b @ drop len (cz_recv_buf (cz_ctx s)))"
    using l assms(2,3) by (simp add: put_bytes_def)
  have st: "cz_ctx_update ((cz_cond_mutex_update (\<lambda>_. False)) \<circ> ((\<lambda>c. c\<lparr>cz_recv_buf := take len b @ drop len (cz_recv_buf (cz_ctx s)),
     cz_recv_len := len, cz_condition := True\<rparr>) \<circ> cz_cond_mutex_update (\<lambda>_. True))) s = handed_over s b len"
    using m by (cases s; cases "cz_ctx s") (simp add: handed_over_def)
  show ?thesis
    using assms(2,3,4) m pb st
    by (simp add: deal_recv_buf_def GET_u16_256 frame_trans_def COND_LOCK_def COND_UNLOCK_def unlock_lock o_def)
qed

lemma box_ok_handed_over:
  assumes "box_ok s" and "length b = 256" and "len \<le> 256"
  shows "box_ok (handed_over s b len)"
  unfolding handed_over_def using assms box_okD(4) [OF assms(1)]
  by (intro box_ok_cz) (simp_all add: cz_bufs_def)

text \<open>Any 256-byte frame can be dealt with.\<close>

definition cz_step :: "box \<Rightarrow> box \<Rightarrow> bool" where
  "cz_step s t \<longleftrightarrow> box_ok t \<and> core_frame s t \<and> wait_frame s t"

lemma cz_step_refl [simp]: "cz_step s s = box_ok s"
  by (simp add: cz_step_def)

lemma cz_step_trans: "cz_step s t \<Longrightarrow> cz_step t u \<Longrightarrow> cz_step s u"
  by (auto simp: cz_step_def intro: core_frame_trans wait_frame_trans)

lemma cz_step_event_out: "box_ok s \<Longrightarrow> cz_step s (event_out s i ty p q)"
  using event_out_step [of s i ty p q] by (simp add: cz_step_def wait_frame_drv)

lemma deal_recv_buf_step:
  assumes "box_ok s" and "length b = 256" and "len \<le> 256"
  shows "runs (deal_recv_buf s b len) (\<lambda>(r, t). cz_step s t)"
proof (cases "frame_trans b = 0")
  case False
  have "cz_step s (handed_over s b len)" if "frame_trans b = cz_trans_id (cz_ctx s)" "cz_is_waiting (cz_ctx s)"
    using that False box_ok_handed_over [OF assms]
    by (simp add: cz_step_def) (auto simp: handed_over_def wait_frame_def)
  with False assms show ?thesis by (simp add: deal_recv_buf_answer)
next
  case True
  obtain info where i: "cz_info_at b 20 = Some info" "length (czi_mac info) = 8"
    using cz_info_at_256 [OF assms(2)] by blast
  obtain p2 where p2: "GET_u32 b 20 = Some p2" using GET_u32_256 [OF assms(2), of 20] by auto
  have reg: "runs (cz_register_device s a e info) (\<lambda>(r, t). cz_step s t)" for a e
    using cz_register_step [OF assms(1) i(2), of a e] by (rule runs_mono) (auto simp: cz_step_def wait_frame_rest)
  have ev: "runs (report_event s d e p q) (\<lambda>t. cz_step s t)" for d e p q
    using report_event_step [OF assms(1), of d e p q] by (rule runs_mono) (simp add: cz_step_def wait_frame_drv)
  show ?thesis
    using True assms i p2 reg ev
    by (simp add: deal_recv_buf_def GET_u16_256 frame_trans_def status_updated_eq cz_step_event_out
        split: option.split)
qed

definition rx_len :: "uart_rx \<Rightarrow> nat" where
  "rx_len rx = unat (of_le16 (ur_buf rx ! 2) (ur_buf rx ! 3))"

definition rx_ok :: "uart_rx \<Rightarrow> bool" where
  "rx_ok rx \<longleftrightarrow> length (ur_buf rx) = 256 \<and> ur_nread rx \<le> 12 \<and> ur_ret rx \<le> 244 \<and> ur_ret rx \<le>
     int (rx_len rx - CZ_HEADER_LEN)"

definition rx_frame :: "uart_rx \<Rightarrow> bool" where
  "rx_frame rx \<longleftrightarrow> ur_nread rx = 12 \<and> take 2 (ur_buf rx) = le16 CZ_HEADER_MAGIC \<and>
     12 < rx_len rx \<and> ur_ret rx = int (rx_len rx - CZ_HEADER_LEN)"

lemma cz_monitor_uart_cases:
  assumes "rx_ok rx"
  shows "cz_monitor_uart rx s = (if rx_frame rx
    then map_option snd (deal_recv_buf s (ur_buf rx) (rx_len rx)) else Some s)"
    and "rx_frame rx \<Longrightarrow> rx_len rx \<le> 256"
proof -
  have l: "length (ur_buf rx) = 256" using assms by (simp add: rx_ok_def)
  have t: "(take 2 (ur_buf rx) = le16 CZ_HEADER_MAGIC) = (of_le16 (ur_buf rx ! 0) (ur_buf rx ! 1) = CZ_HEADER_MAGIC)"
    using l by (intro take2_le16) simp
  have opt: "Option.bind m (\<lambda>x. Some (snd x)) = map_option snd m" for m :: "(int \<times> box) option"
    by (cases m) auto
  show "rx_frame rx \<Longrightarrow> rx_len rx \<le> 256" using assms by (auto simp: rx_ok_def rx_frame_def)
  show "cz_monitor_uart rx s = (if rx_frame rx
    then map_option snd (deal_recv_buf s (ur_buf rx) (rx_len rx)) else Some s)"
    using assms t by (auto simp: cz_monitor_uart_def GET_u16_256 rx_ok_def rx_frame_def rx_len_def [symmetric]
        opt case_prod_unfold)
qed

lemma cz_monitor_uart_step:
  assumes "box_ok s" and "rx_ok rx"
  shows "runs (cz_monitor_uart rx s) (cz_step s)"
proof (cases "rx_frame rx")
  case True
  have "length (ur_buf rx) = 256" using assms(2) by (simp add: rx_ok_def)
  from deal_recv_buf_step [OF assms(1) this cz_monitor_uart_cases(2) [OF assms(2) True]] True assms(2)
  show ?thesis by (auto simp: cz_monitor_uart_cases(1) runs_def)
qed (use assms in \<open>simp add: cz_monitor_uart_cases(1)\<close>)

lemma cz_monitor_loop_step:
  assumes "box_ok s" and "\<forall>rx \<in> set rxs. rx_ok rx"
  shows "runs (for_list cz_monitor_uart rxs s) (cz_step s)"
proof (rule for_list_runs [where I = "cz_step s"])
  fix rx t
  assume "rx \<in> set rxs" and t: "cz_step s t"
  then have "rx_ok rx" "box_ok t" using assms(2) by (simp_all add: cz_step_def)
  from cz_monitor_uart_step [OF this(2,1)] show "runs (cz_monitor_uart rx t) (cz_step s)"
    by (rule runs_mono) (rule cz_step_trans [OF t])
qed (use assms in simp)

section \<open>A request from start to end\<close>

definition cz_head :: "nat \<Rightarrow> u16 \<Rightarrow> u16 \<Rightarrow> u16 \<Rightarrow> u16 \<Rightarrow> buf" where
  "cz_head len type short_addr end_point trans_id =
     le16 CZ_HEADER_MAGIC @ le16 (of_nat (len + CZ_HEADER_LEN)) @ le16 type @ le16 short_addr @
     le16 end_point @ le16 trans_id"

lemma length_cz_head [simp]: "length (cz_head len type sa ep t) = 12"
  by (simp add: cz_head_def)

lemma cz_header_eq:
  "length wbuf = 64 \<Longrightarrow> cz_header wbuf len type sa ep t = Some (front wbuf (cz_head len type sa ep t))"
  by (simp add: cz_header_def cz_head_def)

text \<open>The state in which the request sleeps, after the monitor thread has sent frame \<open>f\<close>.\<close>

definition armed :: "box \<Rightarrow> buf \<Rightarrow> box" where
  "armed s f = cz_ctx_update (\<lambda>c. c\<lparr>cz_cond_mutex := True, cz_is_waiting := True,
     cz_send_buf := f @ drop (length f) (cz_send_buf c), cz_send_len := length f,
     cz_un_msgs := Suc (cz_un_msgs c)\<rparr>) s"

definition listening :: "nat \<Rightarrow> buf \<Rightarrow> box \<Rightarrow> box" where
  "listening nwrite f s = send_out (cz_ctx_update (\<lambda>c. c\<lparr>cz_condition := False, cz_is_waiting := True,
     cz_send_buf := f @ drop (length f) (cz_send_buf c), cz_send_len := length f\<rparr>) s)
     (UART_WRITE (take nwrite f))"

definition finished :: "box \<Rightarrow> box" where
  "finished u = cz_ctx_update (\<lambda>c. c\<lparr>cz_is_waiting := False, cz_trans_id := cz_trans_id c + 1\<rparr>) u"

definition locked :: "box \<Rightarrow> box" where
  "locked u = cz_ctx_update (cz_cond_mutex_update (\<lambda>_. True)) u"

lemma cz_bufsD:
  assumes "box_ok s"
  shows "length (cz_send_buf (cz_ctx s)) = 256" "length (cz_recv_buf (cz_ctx s)) = 256"
    "cz_send_len (cz_ctx s) \<le> 256" "cz_recv_len (cz_ctx s) \<le> 256" "\<not> cz_cond_mutex (cz_ctx s)"
  using box_okD(4) [OF assms] by (simp_all add: cz_bufs_def)

lemma box_ok_listening:
  assumes "box_ok s" and "length f \<le> 64"
  shows "box_ok (listening nwrite f s)"
  unfolding listening_def box_ok_send_out using assms cz_bufsD [OF assms(1)]
  by (intro box_ok_cz) (simp_all add: cz_bufs_def)

lemma box_ok_finished: "box_ok u \<Longrightarrow> box_ok (finished u)"
  unfolding finished_def using cz_bufsD [of u] by (intro box_ok_cz) (simp_all add: cz_bufs_def)

lemma core_frame_listening: "core_frame s (listening nwrite f s)"
  unfolding listening_def by (rule core_frame_trans [OF cz_ctx_frame(6) send_out_frame(8)])

lemma core_frame_finished: "core_frame u (finished u)"
  by (simp add: finished_def)

lemma cz_finish_locked: "\<not> cz_cond_mutex (cz_ctx u) \<Longrightarrow> cz_finish (locked u) = finished u"
  by (cases u; cases "cz_ctx u") (simp add: cz_finish_def locked_def finished_def COND_UNLOCK_def)

lemma cz_send_front:
  assumes "\<not> cz_cond_mutex (cz_ctx s)" and "length (cz_send_buf (cz_ctx s)) = 256"
    and "length p = len + 12" and "len + 12 \<le> 64" and "length junk = 64"
  shows "cz_send (cz_ctx_update (cz_is_waiting_update (\<lambda>_. True)) (cz_ctx_update (cz_cond_mutex_update (\<lambda>_. True)) s))
    (front junk p) len = Some (armed s p)"
proof -
  have t: "take (len + 12) (front junk p) = p" using assms(3) by (simp add: take_front_len)
  show ?thesis using assms t
    by (cases s; cases "cz_ctx s") (simp add: cz_send_def put_bytes_def armed_def notify_process_def)
qed

lemma cz_timedwait_armed:
  assumes "box_ok s" and "length f \<le> 64" and "\<forall>rx \<in> set (ci_rxs io). rx_ok rx"
  shows "\<exists>u. for_list cz_monitor_uart (ci_rxs io) (listening (ci_nwrite io) f s) = Some u \<and>
    cz_step (listening (ci_nwrite io) f s) u \<and>
    cz_timedwait io (armed s f) = Some (\<not> (cz_condition (cz_ctx u) \<or> ci_spurious io), locked u)"
proof -
  let ?l = "listening (ci_nwrite io) f s"
  have m: "\<not> cz_cond_mutex (cz_ctx s)" "length (cz_send_buf (cz_ctx s)) = 256" using cz_bufsD [OF assms(1)] by simp_all
  have start: "cz_monitor_notify (ci_nwrite io)
      (cz_ctx_update (\<lambda>c. c\<lparr>cz_cond_mutex := False, cz_condition := False\<rparr>) (armed s f)) = Some ?l"
    using m assms(2) by (cases s; cases "cz_ctx s") (simp add: cz_monitor_notify_def armed_def listening_def min_def send_out_def)
  from cz_monitor_loop_step [OF box_ok_listening [OF assms(1,2)] assms(3)]
  obtain u where u: "for_list cz_monitor_uart (ci_rxs io) ?l = Some u" "cz_step ?l u" by (rule runsE)
  then have "\<not> cz_cond_mutex (cz_ctx u)" using cz_bufsD by (simp add: cz_step_def)
  with u start show ?thesis by (simp add: cz_timedwait_def COND_LOCK_def locked_def)
qed

text \<open>What the request reports, from the buffer and the condition after the sleep.\<close>

definition cz_verdict :: "bool \<Rightarrow> CZ_CONTEXT_T \<Rightarrow> HSB_ERROR_NO_T" where
  "cz_verdict spurious c =
     (let b = cz_recv_buf c in
      if \<not> (cz_condition c \<or> spurious) then HSB_E_OTHERS
      else if of_le16 (b ! 12) (b ! 13) \<noteq> CZ_CMD_RESULT \<or>
              uint (of_le16 (b ! 14) (b ! 15)) \<noteq> int (cz_recv_len c) - 12 then HSB_E_INVALID_MSG
      else if of_le16 (b ! 16) (b ! 17) = 0 then HSB_E_ACT_FAILED else HSB_E_OK)"

lemma cz_result_eq:
  assumes "box_ok u"
  shows "cz_result (\<not> (cz_condition (cz_ctx u) \<or> sp), locked u) = Some (errno (cz_verdict sp (cz_ctx u)), finished u)"
  using cz_bufsD [OF assms]
  by (auto simp: cz_result_def cz_verdict_def cz_finish_locked GET_u16_256 Let_def)
    (auto simp: locked_def GET_u16_256 cz_finish_locked [unfolded locked_def])

definition cz_action_frame :: "CZ_DEV_T \<Rightarrow> u16 \<Rightarrow> HSB_ACTION_T \<Rightarrow> buf" where
  "cz_action_frame d tid act = cz_head 12 CZ_PKT_TYPE_UC (cz_short_addr d) (cz_end_point d) tid @
     le16 CZ_CMD_DO_ACTION @ le16 12 @ le16 (act_id act) @ le16 (act_param1 act) @ le32 (act_param2 act)"

definition cz_status_frame :: "CZ_DEV_T \<Rightarrow> u16 \<Rightarrow> HSB_STATUS_T \<Rightarrow> buf" where
  "cz_status_frame d tid st = cz_head (4 + 4 * unat (st_num st)) CZ_PKT_TYPE_UC (cz_short_addr d) (cz_end_point d) tid @
     le16 CZ_CMD_SET_STATUS @ le16 (4 + 4 * ucast (st_num st)) @ status_bytes st (unat (st_num st))"

lemma sample_set_action_wait:
  assumes "box_ok s" and "cz_find_dev_by_id s (act_devid act) = Some d"
  shows "sample_set_action io act s =
    Option.bind (cz_timedwait io (armed s (cz_action_frame d (cz_trans_id (cz_ctx s)) act))) cz_result"
proof -
  let ?f = "cz_action_frame d (cz_trans_id (cz_ctx s)) act"
  have "cz_send (cz_ctx_update (cz_is_waiting_update (\<lambda>_. True)) (cz_ctx_update (cz_cond_mutex_update (\<lambda>_. True)) s))
    (front (stk_buf s) ?f) 12 = Some (armed s ?f)"
    using cz_bufsD [OF assms(1)] box_okD(5) [OF assms(1)] by (intro cz_send_front) (simp_all add: cz_action_frame_def)
  then show ?thesis
    using cz_bufsD [OF assms(1)] box_okD(5) [OF assms(1)] assms(2)
    by (simp add: sample_set_action_def COND_LOCK_def cz_header_eq cz_action_frame_def)
qed

lemma sample_set_status_wait:
  assumes "box_ok s" and "cz_find_dev_by_id s (st_devid st) = Some d" and "status_shape st" and "unat (st_num st) \<le> 8"
  shows "sample_set_status io st s =
    Option.bind (cz_timedwait io (armed s (cz_status_frame d (cz_trans_id (cz_ctx s)) st))) cz_result"
proof -
  let ?n = "unat (st_num st)" and ?f = "cz_status_frame d (cz_trans_id (cz_ctx s)) st"
  let ?h = "cz_head (4 + 4 * ?n) CZ_PKT_TYPE_UC (cz_short_addr d) (cz_end_point d) (cz_trans_id (cz_ctx s)) @
     le16 CZ_CMD_SET_STATUS @ le16 (4 + 4 * ucast (st_num st))"
  have b: "length (stk_buf s) = 64" by (rule box_okD(5) [OF assms(1)])
  have loop: "for_list (put_status_body st 12) [0..<?n] (front (stk_buf s) ?h) = Some (front (stk_buf s) (?h @ status_bytes st ?n))"
    using assms(3,4) b by (intro put_status_loop) simp_all
  have "cz_send (cz_ctx_update (cz_is_waiting_update (\<lambda>_. True)) (cz_ctx_update (cz_cond_mutex_update (\<lambda>_. True)) s))
    (front (stk_buf s) ?f) (4 + 4 * ?n) = Some (armed s ?f)"
    using cz_bufsD [OF assms(1)] b assms(4) by (intro cz_send_front) (simp_all add: cz_status_frame_def)
  then show ?thesis
    using cz_bufsD [OF assms(1)] b assms(2,4) loop
    by (simp add: sample_set_status_def COND_LOCK_def cz_header_eq cz_status_frame_def unat_status_len)
qed


lemma cz_request_end:
  assumes "box_ok s" and "length f \<le> 64" and "\<forall>rx \<in> set (ci_rxs io). rx_ok rx"
  shows "\<exists>u. for_list cz_monitor_uart (ci_rxs io) (listening (ci_nwrite io) f s) = Some u \<and>
    cz_step (listening (ci_nwrite io) f s) u \<and>
    Option.bind (cz_timedwait io (armed s f)) cz_result =
      Some (errno (cz_verdict (ci_spurious io) (cz_ctx u)), finished u)"
proof -
  from cz_timedwait_armed [OF assms] obtain u where
    u: "for_list cz_monitor_uart (ci_rxs io) (listening (ci_nwrite io) f s) = Some u"
    and st: "cz_step (listening (ci_nwrite io) f s) u"
    and w: "cz_timedwait io (armed s f) = Some (\<not> (cz_condition (cz_ctx u) \<or> ci_spurious io), locked u)"
    by blast
  have "box_ok u" using st by (simp add: cz_step_def)
  from cz_result_eq [OF this, of "ci_spurious io"] u st w show ?thesis by auto
qed

lemma length_cz_frames: "length (cz_action_frame d tid act) = 24"
  "length (cz_status_frame d tid st) = 16 + 4 * unat (st_num st)"
  by (simp_all add: cz_action_frame_def cz_status_frame_def)

text \<open>Whatever arrives during the sleep, a request ends, with the invariant and one transaction id used.\<close>

definition io_ok :: "cz_io \<Rightarrow> bool" where
  "io_ok io \<longleftrightarrow> (\<forall>rx \<in> set (ci_rxs io). rx_ok rx)"

definition cz_done :: "box \<Rightarrow> box \<Rightarrow> bool" where
  "cz_done s t \<longleftrightarrow> box_ok t \<and> core_frame s t \<and> cz_trans_id (cz_ctx t) = cz_trans_id (cz_ctx s) + 1 \<and>
     \<not> cz_is_waiting (cz_ctx t) \<and> vs_queue t = vs_queue s"

lemma cz_done_finished:
  assumes "cz_step (listening nw f s) u"
  shows "cz_done s (finished u)"
proof -
  from assms have u: "box_ok u" "core_frame (listening nw f s) u" "wait_frame (listening nw f s) u"
    by (simp_all add: cz_step_def)
  have "core_frame s (finished u)"
    by (rule core_frame_trans [OF core_frame_listening core_frame_trans [OF u(2) core_frame_finished]])
  with u show ?thesis
    by (simp add: cz_done_def box_ok_finished) (simp add: finished_def wait_frame_def listening_def)
qed

lemma sample_set_action_done:
  assumes "box_ok s" and "cz_find_dev_by_id s (act_devid act) = Some d" and "io_ok io"
  shows "runs (sample_set_action io act s) (\<lambda>(r, t). cz_done s t)"
proof -
  have "length (cz_action_frame d (cz_trans_id (cz_ctx s)) act) \<le> 64" by (simp add: length_cz_frames)
  from cz_request_end [OF assms(1) this, of io] assms(3) obtain u where
    st: "cz_step (listening (ci_nwrite io) (cz_action_frame d (cz_trans_id (cz_ctx s)) act) s) u"
    and e: "Option.bind (cz_timedwait io (armed s (cz_action_frame d (cz_trans_id (cz_ctx s)) act))) cz_result =
      Some (errno (cz_verdict (ci_spurious io) (cz_ctx u)), finished u)"
    by (auto simp: io_ok_def)
  show ?thesis
    unfolding sample_set_action_wait [OF assms(1,2)] e by (simp add: cz_done_finished [OF st])
qed

lemma sample_set_status_done:
  assumes "box_ok s" and "cz_find_dev_by_id s (st_devid st) = Some d" and "io_ok io"
    and "status_shape st" and "unat (st_num st) \<le> 8"
  shows "runs (sample_set_status io st s) (\<lambda>(r, t). cz_done s t)"
proof -
  have "length (cz_status_frame d (cz_trans_id (cz_ctx s)) st) \<le> 64" using assms(5) by (simp add: length_cz_frames)
  from cz_request_end [OF assms(1) this, of io] assms(3) obtain u where
    st: "cz_step (listening (ci_nwrite io) (cz_status_frame d (cz_trans_id (cz_ctx s)) st) s) u"
    and e: "Option.bind (cz_timedwait io (armed s (cz_status_frame d (cz_trans_id (cz_ctx s)) st))) cz_result =
      Some (errno (cz_verdict (ci_spurious io) (cz_ctx u)), finished u)"
    by (auto simp: io_ok_def)
  show ?thesis
    unfolding sample_set_status_wait [OF assms(1,2,4,5)] e by (simp add: cz_done_finished [OF st])
qed

lemma sample_set_status_overrun:
  assumes "cz_find_dev_by_id s (st_devid st) = Some d" and "status_shape st" and "8 < unat (st_num st)"
    and "box_ok s"
  shows "sample_set_status io st s = None"
proof -
  have "for_list (put_status_body st 12) [0..<unat (st_num st)] (front (stk_buf s) p) = None" if "length p = 16" for p
    using assms(2,3) that box_okD(5) [OF assms(4)] by (intro put_status_overrun) simp_all
  then show ?thesis
    using assms(1) box_okD(5) [OF assms(4)] cz_bufsD [OF assms(4)]
    by (simp add: sample_set_status_def COND_LOCK_def cz_header_eq Let_def)
qed

definition cz_get_frame :: "CZ_DEV_T \<Rightarrow> u16 \<Rightarrow> buf" where
  "cz_get_frame d tid = cz_head 8 CZ_PKT_TYPE_UC (cz_short_addr d) (cz_end_point d) tid @
     le16 CZ_CMD_GET_STATUS @ le16 8 @ le32 0xffffffff"

lemma sample_get_status_done:
  assumes "box_ok s" and "cz_find_dev_by_id s (st_devid st) = Some d" and "io_ok io"
    and "status_shape st" and "unat (st_num st) \<le> 1"
  shows "runs (sample_get_status io st s) (\<lambda>(r, st', t). cz_done s t \<and> status_shape st' \<and> unat (st_num st') \<le> 1 \<and>
     st_devid st' = st_devid st)"
proof -
  let ?f = "cz_get_frame d (cz_trans_id (cz_ctx s))"
  have b: "length (stk_buf s) = 64" by (rule box_okD(5) [OF assms(1)])
  have send: "cz_send (cz_ctx_update (cz_is_waiting_update (\<lambda>_. True)) (cz_ctx_update (cz_cond_mutex_update (\<lambda>_. True)) s))
    (front (stk_buf s) ?f) 8 = Some (armed s ?f)"
    using cz_bufsD [OF assms(1)] b by (intro cz_send_front) (simp_all add: cz_get_frame_def)
  have "length ?f \<le> 64" by (simp add: cz_get_frame_def)
  from cz_timedwait_armed [OF assms(1) this, of io] assms(3) obtain u where
    st: "cz_step (listening (ci_nwrite io) ?f s) u"
    and w: "cz_timedwait io (armed s ?f) = Some (\<not> (cz_condition (cz_ctx u) \<or> ci_spurious io), locked u)"
    by (auto simp: io_ok_def)
  have u: "box_ok u" using st by (simp add: cz_step_def)
  have fin: "cz_done s (cz_finish (locked u))" using cz_done_finished [OF st] cz_bufsD [OF u] by (simp add: cz_finish_locked)
  let ?b = "cz_recv_buf (cz_ctx u)"
  let ?rl = "of_le16 (?b ! 14) (?b ! 15)"
  have rb: "cz_recv_buf (cz_ctx (locked u)) = ?b" "cz_recv_len (cz_ctx (locked u)) = cz_recv_len (cz_ctx u)"
    by (simp_all add: locked_def)
  have loop: "runs (get_status_loop ?b (unat ?rl) 12 st 4 0) (\<lambda>(st', m). status_shape st' \<and>
      st_devid st' = st_devid st \<and> m \<le> 1)" if "uint ?rl = int (cz_recv_len (cz_ctx u)) - 12"
  proof -
    have "12 + unat ?rl \<le> length ?b" using that cz_bufsD [OF u] by (simp add: unat_eq_nat_uint)
    from get_status_loop_safe [OF assms(4) _ _ _ this, of 0 4] assms(5) show ?thesis
      by (auto elim!: runs_mono)
  qed
  have one: "unat (of_nat m :: u32) \<le> 1" if "m \<le> 1" for m using that by (cases m) auto
  have "sample_get_status io st s = Option.bind (cz_timedwait io (armed s ?f)) (\<lambda>(timed_out, s).
          if timed_out then Some (errno HSB_E_OTHERS, st, cz_finish s)
          else do {
            let b = cz_recv_buf (cz_ctx s);
            let len = int (cz_recv_len (cz_ctx s)) - int CZ_HEADER_LEN;
            cmd \<leftarrow> GET_u16 b (CZ_HEADER_LEN + 0);
            rlen \<leftarrow> GET_u16 b (CZ_HEADER_LEN + 2);
            if cmd \<noteq> CZ_CMD_GET_STATUS_RESP \<or> uint rlen \<noteq> len
            then Some (errno HSB_E_INVALID_MSG, st, cz_finish s)
            else do {
              (st, status_num) \<leftarrow> get_status_loop b (unat rlen) CZ_HEADER_LEN st 4 0;
              Some (errno HSB_E_OK, st\<lparr>st_num := of_nat status_num\<rparr>, cz_finish s)
            }
          })"
    using cz_bufsD [OF assms(1)] b assms(2) send
    by (simp add: sample_get_status_def COND_LOCK_def cz_header_eq cz_get_frame_def)
  then have run: "sample_get_status io st s =
      (if \<not> (cz_condition (cz_ctx u) \<or> ci_spurious io) then Some (errno HSB_E_OTHERS, st, cz_finish (locked u))
       else if of_le16 (?b ! 12) (?b ! 13) \<noteq> CZ_CMD_GET_STATUS_RESP \<or> uint ?rl \<noteq> int (cz_recv_len (cz_ctx u)) - 12
       then Some (errno HSB_E_INVALID_MSG, st, cz_finish (locked u))
       else Option.bind (get_status_loop ?b (unat ?rl) 12 st 4 0)
         (\<lambda>(st, n). Some (errno HSB_E_OK, st\<lparr>st_num := of_nat n\<rparr>, cz_finish (locked u))))"
    using cz_bufsD [OF u] by (simp add: w rb GET_u16_256 Let_def)
  show ?thesis
  proof (cases "uint ?rl = int (cz_recv_len (cz_ctx u)) - 12")
    case True
    from loop [OF True] obtain st' m where l: "get_status_loop ?b (unat ?rl) 12 st 4 0 = Some (st', m)"
      and P: "status_shape st' \<and> st_devid st' = st_devid st \<and> m \<le> 1" by (rule runs_pairE)
    show ?thesis unfolding run l using fin P assms(4,5) one [of m] by (auto simp: status_shape_def)
  next
    case False
    then show ?thesis unfolding run using fin assms(4,5) by auto
  qed
qed

section \<open>Properties\<close>

lemma cz_loop_unmatched:
  assumes "box_ok s" and "\<forall>rx \<in> set rxs. rx_ok rx" and "cz_trans_id (cz_ctx s) = 0" and "\<not> cz_condition (cz_ctx s)"
  shows "runs (for_list cz_monitor_uart rxs s) (\<lambda>u. \<not> cz_condition (cz_ctx u))"
  using cz_monitor_loop_step [OF assms(1,2)] assms(3,4) by (auto elim!: runs_mono simp: cz_step_def wait_frame_def)

text \<open>
  C11. A ZigBee action from the request to the answer. The frame with the device's address, the current
  transaction id and the action goes out on the UART; when a frame with that (non-zero) id and a
  positive result comes back during the wait, the request succeeds, whatever the rest of the
  receive buffer holds, and the next request uses the next id.
\<close>

theorem zigbee_action_answered:
  assumes "box_ok s" and "cz_find_dev_by_id s (act_devid act) = Some d" and "io = \<lparr>ci_nwrite = 24, ci_rxs = [rx], ci_spurious = False\<rparr>"
    and "rx_ok rx" and "rx_frame rx" and "frame_trans (ur_buf rx) = cz_trans_id (cz_ctx s)" and "cz_trans_id (cz_ctx s) \<noteq> 0"
    and "GET_u16 (ur_buf rx) 12 = Some CZ_CMD_RESULT" and "GET_u16 (ur_buf rx) 14 = Some (of_nat (rx_len rx - 12))"
    and "GET_u16 (ur_buf rx) 16 = Some result" and "result \<noteq> 0" and "18 \<le> rx_len rx"
  shows "runs (sample_set_action io act s) (\<lambda>(r, t). r = errno HSB_E_OK \<and> box_ok t \<and>
    cz_trans_id (cz_ctx t) = cz_trans_id (cz_ctx s) + 1 \<and>
    sent t = sent s @ [UART_WRITE (cz_action_frame d (cz_trans_id (cz_ctx s)) act)])"
proof -
  let ?f = "cz_action_frame d (cz_trans_id (cz_ctx s)) act" and ?b = "ur_buf rx"
  let ?l = "listening 24 ?f s" and ?n = "rx_len rx"
  have lb: "length ?b = 256" using assms(4) by (simp add: rx_ok_def)
  have n: "?n \<le> 256" by (rule cz_monitor_uart_cases(2) [OF assms(4,5)])
  have f: "length ?f \<le> 64" "take 24 ?f = ?f" by (simp_all add: length_cz_frames)
  have okl: "box_ok ?l" by (rule box_ok_listening [OF assms(1) f(1)])
  have wl: "cz_is_waiting (cz_ctx ?l)" "cz_trans_id (cz_ctx ?l) = cz_trans_id (cz_ctx s)"
    by (simp_all add: listening_def)
  have "deal_recv_buf ?l ?b ?n = Some (errno HSB_E_OK, handed_over ?l ?b ?n)"
    using deal_recv_buf_answer [OF okl lb n] wl assms(6,7) by simp
  then have loop: "for_list cz_monitor_uart [rx] ?l = Some (handed_over ?l ?b ?n)"
    using cz_monitor_uart_cases(1) [OF assms(4), of ?l] assms(5) by simp
  let ?u = "handed_over ?l ?b ?n"
  have at: "cz_recv_buf (cz_ctx ?u) ! k = ?b ! k" if "k < 18" for k
    using that lb n assms(12) by (simp add: handed_over_def nth_append)
  have "uint (of_nat (?n - 12) :: u16) = int (?n - 12)"
    using n by (simp only: unsigned_of_nat) (simp add: take_bit_nat_eq_self)
  then have u: "uint (of_nat ?n - 12 :: u16) = int ?n - 12" using assms(12) by (simp add: of_nat_diff)
  have v: "cz_verdict False (cz_ctx ?u) = HSB_E_OK"
    using assms(8-12) u lb n at [of 12] at [of 13] at [of 14] at [of 15] at [of 16] at [of 17]
    by (simp add: cz_verdict_def Let_def GET_u16_256) (auto simp: handed_over_def)
  from cz_request_end [OF assms(1) f(1), of io] assms(3,4) loop obtain
    st: "cz_step ?l ?u" and e: "Option.bind (cz_timedwait io (armed s ?f)) cz_result =
      Some (errno (cz_verdict False (cz_ctx ?u)), finished ?u)" by auto
  have "sent (finished ?u) = sent s @ [UART_WRITE ?f]"
    using f(2) by (simp add: finished_def handed_over_def listening_def)
  with cz_done_finished [OF st] v show ?thesis
    unfolding sample_set_action_wait [OF assms(1,2)] e by (simp add: cz_done_def)
qed

text \<open>
  C12. When the 16-bit transaction id has wrapped around to 0, no request can succeed: the
  monitor thread takes every frame with id 0 for an unsolicited report, so whatever
  the devices answer, the request runs into its timeout.
\<close>

theorem zigbee_trans_id_zero:
  assumes "box_ok s" and "cz_find_dev_by_id s (act_devid act) = Some d" and "io_ok io" and "\<not> ci_spurious io"
    and "cz_trans_id (cz_ctx s) = 0"
  shows "runs (sample_set_action io act s) (\<lambda>(r, t). r = errno HSB_E_OTHERS)"
proof -
  let ?f = "cz_action_frame d (cz_trans_id (cz_ctx s)) act"
  let ?l = "listening (ci_nwrite io) ?f s"
  have f: "length ?f \<le> 64" by (simp add: length_cz_frames)
  have "cz_trans_id (cz_ctx ?l) = 0" "\<not> cz_condition (cz_ctx ?l)" using assms(5) by (simp_all add: listening_def)
  with cz_loop_unmatched [OF box_ok_listening [OF assms(1) f], of "ci_rxs io" "ci_nwrite io"] assms(3)
  have c: "runs (for_list cz_monitor_uart (ci_rxs io) ?l) (\<lambda>u. \<not> cz_condition (cz_ctx u))" by (simp add: io_ok_def)
  from cz_request_end [OF assms(1) f, of io] assms(3) obtain u where
    u: "for_list cz_monitor_uart (ci_rxs io) ?l = Some u"
    and e: "Option.bind (cz_timedwait io (armed s ?f)) cz_result =
      Some (errno (cz_verdict (ci_spurious io) (cz_ctx u)), finished u)" by (auto simp: io_ok_def)
  from c u assms(4) show ?thesis unfolding sample_set_action_wait [OF assms(1,2)] e
    by (simp add: cz_verdict_def Let_def)
qed

end
