(* ===== verification/Dev_Async.thy ===== *)
theory Dev_Async
  imports Drv_Cg_Zigbee
begin

text \<open>
  The asynchronous thread of \<^verbatim>\<open>core_daemon/device.c\<close> and what it calls: the dispatch of a request to
  the driver of the device (\<^verbatim>\<open>get_dev_status\<close>, \<^verbatim>\<open>set_dev_status\<close>, \<^verbatim>\<open>set_dev_action\<close>, \<^verbatim>\<open>probe_dev\<close>),
  \<^verbatim>\<open>_process_dev_act\<close>, the thread's loop, and the start-up of the module. The operation
  tables \<^verbatim>\<open>HSB_DEV_OP_T\<close> hold all three functions, so the NULL tests on their members are
  true. The locale \<open>device_driver\<close> is the contract of such a table; both drivers satisfy
  it. A \<open>drv_env\<close> holds what the outside world does during one request.
\<close>

record drv_env =
  ev_vs_bcast :: bool
  ev_vs_rxs :: "vs_rx list"
  ev_vs_reply :: "int \<times> buf"
  ev_cz :: cz_io

section \<open>Dispatch\<close>

definition op_get_status ::
  "drv_env \<Rightarrow> HSB_DEV_OP_T \<Rightarrow> HSB_STATUS_T \<Rightarrow> box \<Rightarrow> (int \<times> HSB_STATUS_T \<times> box) option" where
  "op_get_status env op st s = (case op of
      virtual_switch_op \<Rightarrow> virtual_switch_get_status (ev_vs_reply env) st s
    | sample_op \<Rightarrow> sample_get_status (ev_cz env) st s)"

definition op_set_status :: "drv_env \<Rightarrow> HSB_DEV_OP_T \<Rightarrow> HSB_STATUS_T \<Rightarrow> box \<Rightarrow> (int \<times> box) option" where
  "op_set_status env op st s = (case op of
      virtual_switch_op \<Rightarrow> virtual_switch_set_status (ev_vs_reply env) st s
    | sample_op \<Rightarrow> sample_set_status (ev_cz env) st s)"

definition op_set_action :: "drv_env \<Rightarrow> HSB_DEV_OP_T \<Rightarrow> HSB_ACTION_T \<Rightarrow> box \<Rightarrow> (int \<times> box) option" where
  "op_set_action env op act s = (case op of
      virtual_switch_op \<Rightarrow> virtual_switch_set_action (ev_vs_reply env) act s
    | sample_op \<Rightarrow> sample_set_action (ev_cz env) act s)"

definition get_dev_status :: "drv_env \<Rightarrow> HSB_STATUS_T \<Rightarrow> box \<Rightarrow> (int \<times> HSB_STATUS_T \<times> box) option" where
  "get_dev_status env status s = do {
     p \<leftarrow> find_dev s (st_devid status);
     if p = NULL then Some (errno HSB_E_ENTRY_NOT_FOUND, status, s)
     else do {
       d \<leftarrow> deref s p;
       case dev_op d of
         None \<Rightarrow> Some (errno HSB_E_NOT_SUPPORTED, status, s)
       | Some op \<Rightarrow> op_get_status env op status s
     }
   }"

definition set_dev_status :: "drv_env \<Rightarrow> HSB_STATUS_T \<Rightarrow> box \<Rightarrow> (int \<times> box) option" where
  "set_dev_status env status s = do {
     sid \<leftarrow> arr_get (st_id status) 0;
     v \<leftarrow> arr_get (st_val status) 0;
     if st_devid status = 0 \<and> sid = HSB_STATUS_TYPE_WORK_MODE then set_box_work_mode s (ucast v)
     else do {
       p \<leftarrow> find_dev s (st_devid status);
       if p = NULL then Some (errno HSB_E_ENTRY_NOT_FOUND, s)
       else do {
         d \<leftarrow> deref s p;
         case dev_op d of
           None \<Rightarrow> Some (errno HSB_E_NOT_SUPPORTED, s)
         | Some op \<Rightarrow> op_set_status env op status s
       }
     }
   }"

definition set_dev_action :: "drv_env \<Rightarrow> HSB_ACTION_T \<Rightarrow> box \<Rightarrow> (int \<times> box) option" where
  "set_dev_action env act s = do {
     p \<leftarrow> find_dev s (act_devid act);
     if p = NULL then Some (errno HSB_E_ENTRY_NOT_FOUND, s)
     else do {
       d \<leftarrow> deref s p;
       case dev_op d of
         None \<Rightarrow> Some (errno HSB_E_NOT_SUPPORTED, s)
       | Some op \<Rightarrow> op_set_action env op act s
     }
   }"

definition drv_probe :: "drv_env \<Rightarrow> HSB_DEV_DRV_OP_T \<Rightarrow> box \<Rightarrow> (int \<times> box) option" where
  "drv_probe env op s = (case op of
      virtual_switch_drv_op \<Rightarrow> virtual_switch_probe (ev_vs_bcast env) (ev_vs_rxs env) s
    | cz_drv_op \<Rightarrow> cz_probe s)"

definition probe_dev :: "drv_env \<Rightarrow> u32 \<Rightarrow> box \<Rightarrow> (int \<times> box) option" where
  "probe_dev env drvid s = (case find_drv s drvid of
      None \<Rightarrow> Some (errno HSB_E_BAD_PARAM, s)
    | Some pdrv \<Rightarrow> (case drv_op pdrv of
          None \<Rightarrow> Some (errno HSB_E_OK, s)
        | Some op \<Rightarrow> drv_probe env op s))"

section \<open>The thread\<close>

definition process_dev_act :: "drv_env \<Rightarrow> HSB_ACT_T \<Rightarrow> box \<Rightarrow> box option" where
  "process_dev_act env act s = (case act of
      HSB_ACT_TYPE_PROBE reply probe \<Rightarrow> do {
        (ret, s) \<leftarrow> probe_dev env (probe_drvid probe) s;
        if reply = None then Some s else notify_resp s (HSB_RESP_TYPE_RESULT reply ret)
      }
    | HSB_ACT_TYPE_SET_STATUS reply status \<Rightarrow> do {
        (ret, s) \<leftarrow> set_dev_status env status s;
        if reply = None then Some s else notify_resp s (HSB_RESP_TYPE_RESULT reply ret)
      }
    | HSB_ACT_TYPE_GET_STATUS reply status \<Rightarrow> do {
        (ret, status, s) \<leftarrow> get_dev_status env status s;
        if ret \<noteq> errno HSB_E_OK then notify_resp s (HSB_RESP_TYPE_RESULT reply ret)
        else notify_resp s (HSB_RESP_TYPE_STATUS reply status)
      }
    | HSB_ACT_TYPE_DO_ACTION reply action \<Rightarrow> do {
        (ret, s) \<leftarrow> set_dev_action env action s;
        if reply = None then Some s else notify_resp s (HSB_RESP_TYPE_RESULT reply ret)
      })"

definition thread_control_pop_data :: "thread_data_control \<Rightarrow> (HSB_ACT_T option \<times> thread_data_control) option" where
  "thread_control_pop_data c =
     (if tc_mutex c then None
      else Some (case tc_data_queue c of
          [] \<Rightarrow> (None, c)
        | a # q \<Rightarrow> (Some a, c\<lparr>tc_data_queue := q\<rparr>)))"

text \<open>One round of the loop of \<^verbatim>\<open>async_process_thread\<close>; without work or after deactivation it does nothing.\<close>

definition async_process_step :: "drv_env \<Rightarrow> box \<Rightarrow> box option" where
  "async_process_step env s =
     (if \<not> tc_active (cb_async_thread_ctl (dev_cb s)) then Some s
      else do {
        (data, c) \<leftarrow> thread_control_pop_data (cb_async_thread_ctl (dev_cb s));
        let s = dev_cb_update (cb_async_thread_ctl_update (\<lambda>_. c)) s;
        case data of
          None \<Rightarrow> Some s
        | Some act \<Rightarrow> process_dev_act env act s
      })"

section \<open>Start-up\<close>

text \<open>
  \<^verbatim>\<open>pthread_create\<close> is taken to succeed for the thread of the request queue and the monitors of the drivers. Which sockets those threads
  and the probes open is in \<^verbatim>\<open>Core_Main\<close>.
\<close>

definition init_private_thread :: "box \<Rightarrow> (int \<times> box) option" where
  "init_private_thread s = do {
     c \<leftarrow> thread_control_activate (thread_control_init (cb_async_thread_ctl (dev_cb s)));
     Some (0, dev_cb_update (cb_async_thread_ctl_update (\<lambda>_. c)) s)
   }"

definition init_virtual_switch_drv :: "box \<Rightarrow> int \<times> box" where
  "init_virtual_switch_drv s = register_dev_drv (s\<lparr>vs_queue := []\<rparr>) (Some virtual_switch_drv)"

text \<open>\<open>fd\<close>: what \<^verbatim>\<open>open_serial_fd\<close> returned.\<close>

definition init_cz_drv :: "int \<Rightarrow> box \<Rightarrow> int \<times> box" where
  "init_cz_drv fd s = (let s = cz_ctx_update (\<lambda>c. c\<lparr>cz_queue := [], cz_cond_mutex := False\<rparr>) s in
     if fd < 0 then (errno HSB_E_OTHERS, s)
     else register_dev_drv (cz_ctx_update (cz_trans_id_update (\<lambda>_. 1)) s) (Some cz_drv))"

definition probe_all_body :: "drv_env \<Rightarrow> HSB_DEV_DRV_T \<Rightarrow> box \<Rightarrow> box option" where
  "probe_all_body env drv s = do {
     op \<leftarrow> drv_op drv;
     (r, s) \<leftarrow> drv_probe env op s;
     Some s
   }"

definition probe_all_devices :: "drv_env \<Rightarrow> box \<Rightarrow> box option" where
  "probe_all_devices env s = for_list (probe_all_body env) (cb_driverq (dev_cb s)) s"

definition init_dev_module :: "drv_env \<Rightarrow> int \<Rightarrow> box \<Rightarrow> (int \<times> box) option" where
  "init_dev_module env fd s = do {
     let s = dev_cb_update (\<lambda>c. c\<lparr>cb_queue := [], cb_mutex := False, cb_driverq := [], cb_offq := [],
       cb_dev_id := 1\<rparr>) s;
     (r, s) \<leftarrow> init_private_thread s;
     let (r, s) = init_virtual_switch_drv s;
     let (r, s) = init_cz_drv fd s;
     s \<leftarrow> probe_all_devices env s;
     Some (0, s)
   }"

section \<open>The contract of a driver\<close>

locale device_driver =
  fixes get_status :: "HSB_STATUS_T \<Rightarrow> box \<Rightarrow> (int \<times> HSB_STATUS_T \<times> box) option"
    and set_status :: "HSB_STATUS_T \<Rightarrow> box \<Rightarrow> (int \<times> box) option"
    and set_action :: "HSB_ACTION_T \<Rightarrow> box \<Rightarrow> (int \<times> box) option"
    and known :: "box \<Rightarrow> u32 \<Rightarrow> bool"
    and world :: bool
  assumes get_unknown: "\<not> known s (st_devid st) \<Longrightarrow> get_status st s = Some (errno HSB_E_ENTRY_NOT_FOUND, st, s)"
    and set_unknown: "\<not> known s (st_devid st) \<Longrightarrow> set_status st s = Some (errno HSB_E_ENTRY_NOT_FOUND, s)"
    and act_unknown: "\<not> known s (act_devid act) \<Longrightarrow> set_action act s = Some (errno HSB_E_ENTRY_NOT_FOUND, s)"
    and get_known: "world \<Longrightarrow> box_ok s \<Longrightarrow> known s (st_devid st) \<Longrightarrow> status_shape st \<Longrightarrow> unat (st_num st) \<le> 1 \<Longrightarrow>
      runs (get_status st s) (\<lambda>(r, st', t). box_ok t \<and> core_frame s t \<and> status_shape st' \<and>
        unat (st_num st') \<le> 1 \<and> st_devid st' = st_devid st)"
    and set_known: "world \<Longrightarrow> box_ok s \<Longrightarrow> known s (st_devid st) \<Longrightarrow> status_shape st \<Longrightarrow> unat (st_num st) \<le> 8 \<Longrightarrow>
      runs (set_status st s) (\<lambda>(r, t). box_ok t \<and> core_frame s t)"
    and act_known: "world \<Longrightarrow> box_ok s \<Longrightarrow> known s (act_devid act) \<Longrightarrow>
      runs (set_action act s) (\<lambda>(r, t). box_ok t \<and> core_frame s t)"
begin

lemma get_safe:
  assumes "world" and "box_ok s" and "status_shape st" and "unat (st_num st) \<le> 1"
  shows "runs (get_status st s) (\<lambda>(r, st', t). box_ok t \<and> core_frame s t \<and> status_shape st' \<and>
        unat (st_num st') \<le> 1 \<and> st_devid st' = st_devid st)"
  using assms get_known [of s st] get_unknown [of s st] by (cases "known s (st_devid st)") auto

lemma set_safe:
  assumes "world" and "box_ok s" and "status_shape st" and "unat (st_num st) \<le> 8"
  shows "runs (set_status st s) (\<lambda>(r, t). box_ok t \<and> core_frame s t)"
  using assms set_known [of s st] set_unknown [of s st] by (cases "known s (st_devid st)") auto

lemma act_safe:
  assumes "world" and "box_ok s"
  shows "runs (set_action act s) (\<lambda>(r, t). box_ok t \<and> core_frame s t)"
  using assms act_known [of s act] act_unknown [of s act] by (cases "known s (act_devid act)") auto

end

interpretation vs_driver: device_driver "virtual_switch_get_status io" "virtual_switch_set_status io"
  "virtual_switch_set_action io" "\<lambda>s i. vs_find_dev_by_id s i \<noteq> None" "length (snd io) = 64 \<and> fst io \<le> 64" for io
proof unfold_locales
  fix s and st :: HSB_STATUS_T
  assume "length (snd io) = 64 \<and> fst io \<le> 64" "box_ok s" "vs_find_dev_by_id s (st_devid st) \<noteq> None"
    "status_shape st" "unat (st_num st) \<le> 1"
  then show "runs (virtual_switch_get_status io st s) (\<lambda>(r, st', t). box_ok t \<and> core_frame s t \<and> status_shape st' \<and>
        unat (st_num st') \<le> 1 \<and> st_devid st' = st_devid st)"
    by (auto simp: virtual_switch_get_status_eq Let_def status_shape_def)
next
  fix s and st :: HSB_STATUS_T
  assume "length (snd io) = 64 \<and> fst io \<le> 64" "box_ok s" "vs_find_dev_by_id s (st_devid st) \<noteq> None"
    "status_shape st" "unat (st_num st) \<le> 8"
  then show "runs (virtual_switch_set_status io st s) (\<lambda>(r, t). box_ok t \<and> core_frame s t)"
    by (auto simp: virtual_switch_set_status_eq)
next
  fix s and act :: HSB_ACTION_T
  assume "length (snd io) = 64 \<and> fst io \<le> 64" "box_ok s" "vs_find_dev_by_id s (act_devid act) \<noteq> None"
  then show "runs (virtual_switch_set_action io act s) (\<lambda>(r, t). box_ok t \<and> core_frame s t)"
    by (auto simp: virtual_switch_set_action_eq)
qed (auto simp: virtual_switch_get_status_def virtual_switch_set_status_def virtual_switch_set_action_def)

interpretation cz_driver: device_driver "sample_get_status io" "sample_set_status io"
  "sample_set_action io" "\<lambda>s i. cz_find_dev_by_id s i \<noteq> None" "io_ok io" for io
proof unfold_locales
  fix s and st :: HSB_STATUS_T
  assume "io_ok io" "box_ok s" "cz_find_dev_by_id s (st_devid st) \<noteq> None" "status_shape st" "unat (st_num st) \<le> 1"
  with sample_get_status_done [of s st _ io]
  show "runs (sample_get_status io st s) (\<lambda>(r, st', t). box_ok t \<and> core_frame s t \<and> status_shape st' \<and>
        unat (st_num st') \<le> 1 \<and> st_devid st' = st_devid st)"
    by (auto elim!: runs_mono simp: cz_done_def)
next
  fix s and st :: HSB_STATUS_T
  assume "io_ok io" "box_ok s" "cz_find_dev_by_id s (st_devid st) \<noteq> None" "status_shape st" "unat (st_num st) \<le> 8"
  with sample_set_status_done [of s st _ io]
  show "runs (sample_set_status io st s) (\<lambda>(r, t). box_ok t \<and> core_frame s t)"
    by (auto elim!: runs_mono simp: cz_done_def)
next
  fix s and act :: HSB_ACTION_T
  assume "io_ok io" "box_ok s" "cz_find_dev_by_id s (act_devid act) \<noteq> None"
  with sample_set_action_done [of s act _ io]
  show "runs (sample_set_action io act s) (\<lambda>(r, t). box_ok t \<and> core_frame s t)"
    by (auto elim!: runs_mono simp: cz_done_def)
qed (auto simp: sample_get_status_def sample_set_status_def sample_set_action_def)

section \<open>Requests are carried out\<close>

definition env_ok :: "drv_env \<Rightarrow> bool" where
  "env_ok env \<longleftrightarrow> length (snd (ev_vs_reply env)) = 64 \<and> fst (ev_vs_reply env) \<le> 64 \<and> io_ok (ev_cz env) \<and>
     (\<forall>rx \<in> set (ev_vs_rxs env). length (rx_buf rx) = 64)"

lemma set_dev_status_step:
  assumes "box_ok s" and "env_ok env" and "status_shape st" and "unat (st_num st) \<le> 8"
  shows "runs (set_dev_status env st s) (\<lambda>(r, t). box_ok t \<and> core_frame s t)"
proof -
  have wm: "runs (set_box_work_mode s m) (\<lambda>(r, t). box_ok t \<and> core_frame s t)" for m
    using set_box_work_mode_step [OF assms(1), of m] by (rule runs_mono) auto
  have op: "runs (op_set_status env op st s) (\<lambda>(r, t). box_ok t \<and> core_frame s t)" for op
    using vs_driver.set_safe [of "ev_vs_reply env" s st] cz_driver.set_safe [of "ev_cz env" s st] assms
    by (cases op) (simp_all add: op_set_status_def env_ok_def)
  have l: "length (st_id st) = 8" "length (st_val st) = 8" using assms(3) by (simp_all add: status_shape_def)
  show ?thesis
    by (cases rule: find_dev_cases [OF box_okD(1) [OF assms(1)], of "st_devid st"])
      (use wm op l assms(1) in \<open>auto simp: set_dev_status_def split: option.split\<close>)
qed

lemma get_dev_status_step:
  assumes "box_ok s" and "env_ok env" and "status_shape st" and "unat (st_num st) \<le> 1"
  shows "runs (get_dev_status env st s) (\<lambda>(r, st', t). box_ok t \<and> core_frame s t \<and> status_shape st' \<and>
    unat (st_num st') \<le> 1 \<and> st_devid st' = st_devid st)"
proof -
  have op: "runs (op_get_status env op st s) (\<lambda>(r, st', t). box_ok t \<and> core_frame s t \<and> status_shape st' \<and>
      unat (st_num st') \<le> 1 \<and> st_devid st' = st_devid st)" for op
    using vs_driver.get_safe [of "ev_vs_reply env" s st] cz_driver.get_safe [of "ev_cz env" s st] assms
    by (cases op) (simp_all add: op_get_status_def env_ok_def)
  show ?thesis
    by (cases rule: find_dev_cases [OF box_okD(1) [OF assms(1)], of "st_devid st"])
      (use op assms in \<open>auto simp: get_dev_status_def split: option.split\<close>)
qed

lemma set_dev_action_step:
  assumes "box_ok s" and "env_ok env"
  shows "runs (set_dev_action env act s) (\<lambda>(r, t). box_ok t \<and> core_frame s t)"
proof -
  have op: "runs (op_set_action env op act s) (\<lambda>(r, t). box_ok t \<and> core_frame s t)" for op
    using vs_driver.act_safe [of "ev_vs_reply env" s act] cz_driver.act_safe [of "ev_cz env" s act] assms
    by (cases op) (simp_all add: op_set_action_def env_ok_def)
  show ?thesis
    by (cases rule: find_dev_cases [OF box_okD(1) [OF assms(1)], of "act_devid act"])
      (use op assms in \<open>auto simp: set_dev_action_def split: option.split\<close>)
qed

lemma vs_probe_step:
  assumes "box_ok s" and "\<forall>rx \<in> set rxs. length (rx_buf rx) = 64"
  shows "runs (virtual_switch_probe bcast rxs s) (\<lambda>(r, t). box_ok t \<and> core_frame s t)"
proof (cases bcast)
  case True
  from virtual_switch_probe_sync [OF box_okD(2) [OF assms(1)] assms(2)] obtain r t where
    t: "virtual_switch_probe True rxs s = Some (r, t)" and P: "r = 0 \<and> vs_good t \<and>
    set (map snd (vs_keys t)) = announced 8 rxs \<union> set (map snd (vs_keys s)) \<and>
    sent t = sent s @ [UDP_BROADCAST VIRTUAL_SWITCH_LISTEN_PORT probe_frame] \<and>
    (\<forall>e. e \<noteq> 1 \<longrightarrow> reg_keys e t = reg_keys e s) \<and> cz_ctx t = cz_ctx s \<and> core_frame s t"
    by (rule runs_pairE)
  then have "vs_table.in_sync t" and ok: "reg_ok 1 t" and cf: "core_frame s t" and cz: "cz_ctx t = cz_ctx s"
    and k: "reg_keys 2 t = reg_keys 2 s" by (auto simp: vs_good_def vs_table.in_sync_def)
  moreover have "reg_ok 2 t" using ok box_okD(6) [OF assms(1)] find_drv_core [OF cf] by (simp add: reg_ok_def)
  moreover have "cz_table.in_sync t"
    using box_okD(3) [OF assms(1)] cz k \<open>reg_ok 2 t\<close> unfolding cz_table.in_sync_def cz_keys_def by metis
  moreover have "length (stk_buf t) = 64" "cz_bufs (cz_ctx t)"
    using box_okD [OF assms(1)] cz cf by (simp_all add: core_frame_def)
  ultimately show ?thesis using True t by (simp add: box_ok_def)
qed (use assms in \<open>simp add: virtual_switch_probe_def\<close>)

definition cz_probe_frame :: "buf \<Rightarrow> buf" where
  "cz_probe_frame junk = cz_head 8 CZ_PKT_TYPE_BC 0xFFFF CZ_DEFAULT_EP 0 @ le16 CZ_CMD_DEVICE_DISCOVER @ le16 8 @
     take 4 (drop 16 junk)"

lemma cz_probe_eq:
  assumes "box_ok s"
  shows "cz_probe s = Some (errno HSB_E_OK, cz_ctx_update (\<lambda>c. c\<lparr>cz_is_waiting := False,
    cz_send_buf := cz_probe_frame (stk_buf s) @ drop 20 (cz_send_buf c), cz_send_len := 20,
    cz_un_msgs := Suc (cz_un_msgs c)\<rparr>) s)"
proof -
  let ?p = "cz_head 8 CZ_PKT_TYPE_BC 0xFFFF CZ_DEFAULT_EP 0 @ le16 CZ_CMD_DEVICE_DISCOVER @ le16 8"
  have b: "length (stk_buf s) = 64" by (rule box_okD(5) [OF assms])
  have t: "take 20 (front (stk_buf s) ?p) = cz_probe_frame (stk_buf s)"
    by (simp add: front_def cz_probe_frame_def)
  show ?thesis using b t cz_bufsD [OF assms]
    by (cases s; cases "cz_ctx s")
      (simp add: cz_probe_def COND_LOCK_def COND_UNLOCK_def cz_header_eq cz_send_def put_bytes_def notify_process_def
        cz_probe_frame_def)
qed

lemma cz_probe_step:
  assumes "box_ok s"
  shows "runs (cz_probe s) (\<lambda>(r, t). box_ok t \<and> core_frame s t)"
proof -
  have "length (cz_probe_frame (stk_buf s)) = 20" using box_okD(5) [OF assms] by (simp add: cz_probe_frame_def)
  then have "box_ok (cz_ctx_update (\<lambda>c. c\<lparr>cz_is_waiting := False,
    cz_send_buf := cz_probe_frame (stk_buf s) @ drop 20 (cz_send_buf c), cz_send_len := 20,
    cz_un_msgs := Suc (cz_un_msgs c)\<rparr>) s)"
    using cz_bufsD [OF assms] by (intro box_ok_cz [OF assms]) (simp_all add: cz_bufs_def)
  then show ?thesis by (simp add: cz_probe_eq [OF assms])
qed

lemma drv_probe_step:
  assumes "box_ok s" and "\<forall>rx \<in> set (ev_vs_rxs env). length (rx_buf rx) = 64"
  shows "runs (drv_probe env op s) (\<lambda>(r, t). box_ok t \<and> core_frame s t)"
  using vs_probe_step [OF assms(1), of "ev_vs_rxs env" "ev_vs_bcast env"] cz_probe_step [OF assms(1)] assms(2)
  by (cases op) (simp_all add: drv_probe_def)

lemma probe_dev_step:
  assumes "box_ok s" and "env_ok env"
  shows "runs (probe_dev env drvid s) (\<lambda>(r, t). box_ok t \<and> core_frame s t)"
  using drv_probe_step [OF assms(1), of env] assms by (auto simp: probe_dev_def env_ok_def split: option.split)

section \<open>Answers\<close>

lemma delivered_frame [simp]:
  "reg_keys e (delivered s m) = reg_keys e s" "vs_keys (delivered s m) = vs_keys s" "cz_keys (delivered s m) = cz_keys s"
  "find_drv (delivered s m) = find_drv s" "delays_idle (delivered s m) = delays_idle s"
  by (simp_all add: reg_keys_def abs_reg_def dev_at_def [abs_def] vs_keys_def cz_keys_def find_drv_def fun_eq_iff
      delays_idle_def)

lemma box_ok_delivered: "box_ok s \<Longrightarrow> box_ok (delivered s m)"
  by (auto simp: box_ok_def vs_table.in_sync_def cz_table.in_sync_def reg_ok_def)

lemma notify_resp_box: "box_ok s \<Longrightarrow> notify_resp s m = Some (delivered s m)"
  by (simp add: notify_resp_delivered dev_okD(10) box_okD(1))

lemma inbox_delivered:
  "inbox (delivered s m) i = inbox s i @ (if client_live s i \<and> msg_for i m then [m] else [])"
  "client_live (delivered s m) i = client_live s i"
  by (auto simp: inbox_def client_live_def contexts_delivered deliver_def addressed_def msg_for_def split: if_splits)

text \<open>
  What a request leaves in the clients' queues: events for everybody, and for the client that
  asked (if it is still connected) exactly one answer behind them.
\<close>

definition answers :: "reply \<Rightarrow> box \<Rightarrow> box \<Rightarrow> bool" where
  "answers r s t \<longleftrightarrow> (\<forall>j. client_live t j = client_live s j \<and>
     (\<exists>evs tail. inbox t j = inbox s j @ evs @ tail \<and> (\<forall>m \<in> set evs. is_event m) \<and>
       (if r = Some j \<and> client_live s j
        then \<exists>m. tail = [m] \<and> \<not> is_event m \<and> resp_ok m \<and> resp_reply m = Some j else tail = [])))"

lemma answers_events: "events_only s t \<Longrightarrow> answers None s t"
  unfolding answers_def events_only_def by force

lemma answers_delivered:
  assumes "events_only s t" and "\<not> is_event m" and "resp_reply m = r" and "resp_ok m"
  shows "answers r s (delivered t m)"
  unfolding answers_def
proof
  fix j
  from assms(1) obtain evs where e: "inbox t j = inbox s j @ evs" "\<forall>m \<in> set evs. is_event m"
    "client_live t j = client_live s j" unfolding events_only_def by blast
  let ?tail = "if client_live t j \<and> msg_for j m then [m] else []"
  have "inbox (delivered t m) j = inbox s j @ evs @ ?tail" using e by (simp add: inbox_delivered)
  moreover have "if r = Some j \<and> client_live s j
      then \<exists>m. ?tail = [m] \<and> \<not> is_event m \<and> resp_ok m \<and> resp_reply m = Some j else ?tail = []"
    using assms(2-4) e by (auto simp: msg_for_def)
  ultimately show "client_live (delivered t m) j = client_live s j \<and>
     (\<exists>evs tail. inbox (delivered t m) j = inbox s j @ evs @ tail \<and> (\<forall>m \<in> set evs. is_event m) \<and>
       (if r = Some j \<and> client_live s j
        then \<exists>m. tail = [m] \<and> \<not> is_event m \<and> resp_ok m \<and> resp_reply m = Some j else tail = []))"
    using e unfolding inbox_delivered(2) by blast
qed

text \<open>Everything that waits in a client's queue can be sent.\<close>

definition mail_ok :: "box \<Rightarrow> bool" where
  "mail_ok s \<longleftrightarrow> (\<forall>j. \<forall>m \<in> set (inbox s j). resp_ok m)"

lemma answers_mail:
  assumes "answers r s t" and "mail_ok s"
  shows "mail_ok t"
  unfolding mail_ok_def
proof (rule allI)
  fix j
  from assms(1) obtain evs tail where e: "inbox t j = inbox s j @ evs @ tail" "\<forall>m \<in> set evs. is_event m"
    and t: "if r = Some j \<and> client_live s j
      then \<exists>m. tail = [m] \<and> \<not> is_event m \<and> resp_ok m \<and> resp_reply m = Some j else tail = []"
    unfolding answers_def by blast
  from t have "\<forall>m \<in> set tail. resp_ok m" by (auto split: if_splits)
  with e assms(2) show "\<forall>m \<in> set (inbox t j). resp_ok m" by (auto simp: mail_ok_def resp_ok_event)
qed

lemma events_mail: "events_only s t \<Longrightarrow> mail_ok s \<Longrightarrow> mail_ok t"
  by (blast intro: answers_mail answers_events)

definition quiet_frame :: "box \<Rightarrow> box \<Rightarrow> bool" where
  "quiet_frame s t \<longleftrightarrow> next_ptr s \<le> next_ptr t \<and> (delays_idle s \<longrightarrow> delays_idle t)"

lemma quiet_core: "core_frame s t \<Longrightarrow> quiet_frame s t" "core_frame s t \<Longrightarrow> events_only s t"
  by (simp_all add: quiet_frame_def core_frame_def)

lemma quiet_delivered [simp]: "quiet_frame s (delivered t m) = quiet_frame s t"
  by (simp add: quiet_frame_def)

text \<open>What carrying out a request means: the operation on the driver of the device, and the answer that its result gives.\<close>

primrec carried_out :: "drv_env \<Rightarrow> HSB_ACT_T \<Rightarrow> box \<Rightarrow> (HSB_RESP_T \<times> box) option" where
  "carried_out env (HSB_ACT_TYPE_PROBE r p) s =
     map_option (\<lambda>(ret, t). (HSB_RESP_TYPE_RESULT r ret, t)) (probe_dev env (probe_drvid p) s)"
| "carried_out env (HSB_ACT_TYPE_SET_STATUS r st) s =
     map_option (\<lambda>(ret, t). (HSB_RESP_TYPE_RESULT r ret, t)) (set_dev_status env st s)"
| "carried_out env (HSB_ACT_TYPE_GET_STATUS r st) s =
     map_option (\<lambda>(ret, st', t). (if ret = errno HSB_E_OK then HSB_RESP_TYPE_STATUS r st' else HSB_RESP_TYPE_RESULT r ret, t))
       (get_dev_status env st s)"
| "carried_out env (HSB_ACT_TYPE_DO_ACTION r a) s =
     map_option (\<lambda>(ret, t). (HSB_RESP_TYPE_RESULT r ret, t)) (set_dev_action env a s)"

lemma carried_out_step:
  assumes "box_ok s" and "env_ok env" and "act_ok act"
  shows "runs (carried_out env act s) (\<lambda>(m, u). box_ok u \<and> core_frame s u \<and> \<not> is_event m \<and> resp_ok m \<and> resp_reply m = act_reply act)"
proof (cases act)
  case (HSB_ACT_TYPE_PROBE r p)
  then show ?thesis using probe_dev_step [OF assms(1,2), of "probe_drvid p"] by (auto elim!: runs_mono)
next
  case (HSB_ACT_TYPE_SET_STATUS r st)
  with assms(3) have "status_shape st" "unat (st_num st) \<le> 8" by simp_all
  from set_dev_status_step [OF assms(1,2) this] HSB_ACT_TYPE_SET_STATUS show ?thesis by (auto elim!: runs_mono)
next
  case (HSB_ACT_TYPE_GET_STATUS r st)
  with assms(3) have "status_shape st" "unat (st_num st) \<le> 1" by simp_all
  from get_dev_status_step [OF assms(1,2) this] HSB_ACT_TYPE_GET_STATUS show ?thesis by (auto split: if_splits elim!: runs_mono)
next
  case (HSB_ACT_TYPE_DO_ACTION r a)
  then show ?thesis using set_dev_action_step [OF assms(1,2), of a] by (auto elim!: runs_mono)
qed

lemma delivered_nobody:
  assumes "\<not> is_event m" and "resp_reply m = None" and "box_ok s"
  shows "delivered s m = s"
proof -
  have "length (contexts s) = MAX_TCP_CLIENT_NUM" using dev_okD(10) [OF box_okD(1) [OF assms(3)]] by (simp add: pool_ok_def)
  moreover have "deliver m i c = c" for i c using assms(1,2) by (simp add: deliver_def addressed_def)
  ultimately have "map (\<lambda>i. deliver m i (contexts s ! i)) [0..<MAX_TCP_CLIENT_NUM] = contexts s" using map_nth [of "contexts s"] by simp
  then show ?thesis by (cases s; cases "client_pool s") (simp add: delivered_def)
qed

lemma process_dev_act_eq:
  assumes "box_ok s" and "env_ok env" and "act_ok act"
  shows "process_dev_act env act s = map_option (\<lambda>(m, u). delivered u m) (carried_out env act s)"
  using carried_out_step [OF assms]
  by (cases act) (auto simp: process_dev_act_def notify_resp_box delivered_nobody elim!: runsE)

definition act_done :: "reply \<Rightarrow> box \<Rightarrow> box \<Rightarrow> bool" where
  "act_done r s t \<longleftrightarrow> box_ok t \<and> quiet_frame s t \<and> answers r s t"

lemma process_dev_act_step:
  assumes "box_ok s" and "env_ok env" and "act_ok act"
  shows "runs (process_dev_act env act s) (act_done (act_reply act) s)"
  using carried_out_step [OF assms] quiet_core [of s] unfolding process_dev_act_eq [OF assms]
  by (auto simp: act_done_def box_ok_delivered answers_delivered elim!: runs_mono)

section \<open>Properties\<close>

definition popped :: "box \<Rightarrow> box" where
  "popped s = dev_cb_update (cb_async_thread_ctl_update (tc_data_queue_update tl)) s"

lemma popped_frame [simp]:
  "reg_keys e (popped s) = reg_keys e s" "vs_keys (popped s) = vs_keys s" "cz_keys (popped s) = cz_keys s"
  "find_drv (popped s) = find_drv s" "delays_idle (popped s) = delays_idle s" "next_ptr (popped s) = next_ptr s"
  "client_live (popped s) = client_live s" "inbox (popped s) = inbox s" "stk_buf (popped s) = stk_buf s"
  "cz_ctx (popped s) = cz_ctx s"
  by (simp_all add: popped_def reg_keys_def abs_reg_def dev_at_def [abs_def] vs_keys_def cz_keys_def find_drv_def
      fun_eq_iff delays_idle_def client_live_def inbox_def)

lemma dev_ok_popped: "dev_ok s \<Longrightarrow> dev_ok (popped s)"
proof -
  assume "dev_ok s"
  moreover have "set (tl (async_queue s)) \<subseteq> set (async_queue s)" by (cases "async_queue s") auto
  ultimately show ?thesis by (auto simp: popped_def dev_ok_def dev_obj_ok_def pool_ok_def)
qed

lemma box_ok_popped: "box_ok s \<Longrightarrow> box_ok (popped s)"
  using dev_ok_popped [of s] by (auto simp: box_ok_def vs_table.in_sync_def cz_table.in_sync_def reg_ok_def)

lemma async_process_step_eq:
  assumes "box_ok s" and "tc_active (cb_async_thread_ctl (dev_cb s))" and "async_queue s = act # q"
  shows "async_process_step env s = process_dev_act env act (popped s)"
proof -
  have "\<not> tc_mutex (cb_async_thread_ctl (dev_cb s))" using dev_okD(7) [OF box_okD(1) [OF assms(1)]] .
  then have "dev_cb_update (cb_async_thread_ctl_update (\<lambda>_. (cb_async_thread_ctl (dev_cb s))\<lparr>tc_data_queue := q\<rparr>)) s = popped s"
    using assms(3) by (cases s; cases "dev_cb s"; cases "cb_async_thread_ctl (dev_cb s)") (simp add: popped_def)
  with assms dev_okD(7) [OF box_okD(1) [OF assms(1)]] show ?thesis
    by (simp add: async_process_step_def thread_control_pop_data_def)
qed

text \<open>
  C2. Every request is carried out once and answered once. A round of the active request thread, in a well-formed state
  with a request \<open>act\<close> at the head of the queue, takes the request off; runs the operation it asks for on the
  driver of its device (\<open>carried_out\<close>, which gives the answer \<open>m\<close> and the state \<open>u\<close>); and beyond \<open>u\<close> changes nothing but the clients' queues: every
  connected client has events, and only the client that asked, if it still is connected, has the one answer \<open>m\<close> behind
  them. The requests \<open>q\<close> that waited behind are still there in their order, followed only by requests of linkages, which no client has asked
  for. Assumed of the world is \<open>env_ok\<close>: answers arrive in buffers of their arrays' sizes, and frames on the serial line are at most
  256 bytes long (longer ones overrun the driver's buffer).
\<close>

theorem request_answered_once:
  assumes "box_ok s" and "env_ok env" and "tc_active (cb_async_thread_ctl (dev_cb s))" and "async_queue s = act # q"
  shows "\<exists>m u t. carried_out env act (popped s) = Some (m, u) \<and> async_process_step env s = Some t \<and>
    box_ok t \<and> t\<lparr>client_pool := client_pool u\<rparr> = u \<and>
    (\<exists>ls. async_queue t = q @ ls \<and> (\<forall>a \<in> set ls. act_reply a = None)) \<and>
    \<not> is_event m \<and> resp_ok m \<and> resp_reply m = act_reply act \<and>
    (\<forall>j. client_live t j = client_live s j \<and> (\<exists>evs. (\<forall>e \<in> set evs. is_event e) \<and>
       inbox t j = inbox s j @ evs @ (if act_reply act = Some j \<and> client_live s j then [m] else [])))"
proof -
  have a: "act_ok act" using box_okD(1) [OF assms(1)] assms(4) by (simp add: dev_ok_def)
  note p = box_ok_popped [OF assms(1)]
  from carried_out_step [OF p assms(2) a] obtain m u where
    m: "carried_out env act (popped s) = Some (m, u)" and
    P: "box_ok u \<and> core_frame (popped s) u \<and> \<not> is_event m \<and> resp_ok m \<and> resp_reply m = act_reply act" by (rule runs_pairE)
  have t: "async_process_step env s = Some (delivered u m)"
    by (simp add: async_process_step_eq [OF assms(1,3,4)] process_dev_act_eq [OF p assms(2) a] m)
  have "async_queue (popped s) = q" using assms(4) by (simp add: popped_def)
  moreover have "queue_grows (popped s) u" using P by (simp add: core_frame_def)
  ultimately have q: "\<exists>ls. async_queue (delivered u m) = q @ ls \<and> (\<forall>a \<in> set ls. act_reply a = None)" by (simp add: queue_grows_def)
  have "(delivered u m)\<lparr>client_pool := client_pool u\<rparr> = u" by (cases u) (simp add: delivered_def)
  moreover have "client_live (delivered u m) j = client_live s j \<and> (\<exists>evs. (\<forall>e \<in> set evs. is_event e) \<and>
      inbox (delivered u m) j = inbox s j @ evs @ (if act_reply act = Some j \<and> client_live s j then [m] else []))" for j
  proof -
    from P have "events_only (popped s) u" by (simp add: core_frame_def)
    then obtain evs where e: "inbox u j = inbox s j @ evs" "\<forall>m \<in> set evs. is_event m" "client_live u j = client_live s j"
      unfolding events_only_def by auto
    have "msg_for j m \<longleftrightarrow> act_reply act = Some j" using P by (simp add: msg_for_def)
    with e show ?thesis by (auto simp: inbox_delivered)
  qed
  ultimately show ?thesis using m t P q box_ok_delivered [of u m] by blast
qed

lemma async_process_step_ok:
  assumes "box_ok s" and "env_ok env"
  shows "runs (async_process_step env s) (\<lambda>t. box_ok t \<and> quiet_frame s t \<and> (mail_ok s \<longrightarrow> mail_ok t))"
proof (cases "tc_active (cb_async_thread_ctl (dev_cb s))")
  case True
  have m: "\<not> tc_mutex (cb_async_thread_ctl (dev_cb s))" using dev_okD(7) [OF box_okD(1) [OF assms(1)]] .
  show ?thesis
  proof (cases "async_queue s")
    case Nil
    with True m assms(1) show ?thesis
      by (cases s; cases "dev_cb s") (simp add: async_process_step_def thread_control_pop_data_def quiet_frame_def)
  next
    case (Cons act q)
    have "act_ok act" using box_okD(1) [OF assms(1)] Cons by (simp add: dev_ok_def)
    from process_dev_act_step [OF box_ok_popped [OF assms(1)] assms(2) this] show ?thesis
      unfolding async_process_step_eq [OF assms(1) True Cons]
      by (rule runs_mono) (auto simp: act_done_def quiet_frame_def mail_ok_def intro: answers_mail [unfolded mail_ok_def, rule_format])
  qed
qed (use assms in \<open>simp add: async_process_step_def quiet_frame_def\<close>)

section \<open>Power-on\<close>

text \<open>
  The state of the process before \<^verbatim>\<open>init_dev_module\<close>: all static objects zero, nothing on the heap
  (the first device object gets address 1), any contents of the stack, and the pool of clients as
  \<^verbatim>\<open>init_network_module\<close>, which runs before, has left it.
\<close>

definition power_on :: "tcp_client_pool \<Rightarrow> HSB_STATUS_T \<Rightarrow> buf \<Rightarrow> box" where
  "power_on pool stk junk = \<lparr>dev_heap = (\<lambda>_. None), next_ptr = 1,
     dev_cb = \<lparr>cb_queue = [], cb_mutex = False, cb_offq = [], cb_driverq = [], cb_dev_id = 0, cb_work_mode = 0,
       cb_sec_today = 0, cb_async_thread_ctl = \<lparr>tc_data_queue = [], tc_mutex = False, tc_active = False\<rparr>\<rparr>,
     client_pool = pool,
     vs_queue = [],
     cz_ctx = \<lparr>cz_queue = [], cz_condition = False, cz_is_waiting = False, cz_send_buf = replicate 256 0,
       cz_recv_buf = replicate 256 0, cz_send_len = 0, cz_recv_len = 0, cz_trans_id = 0, cz_cond_mutex = False,
       cz_un_msgs = 0\<rparr>,
     sent = [], stk_status = stk, stk_buf = junk\<rparr>"

definition booted :: "tcp_client_pool \<Rightarrow> HSB_STATUS_T \<Rightarrow> buf \<Rightarrow> box" where
  "booted pool stk junk = cz_ctx_update (cz_trans_id_update (\<lambda>_. 1)) (dev_cb_update (\<lambda>c. c\<lparr>cb_dev_id := 1,
     cb_driverq := [virtual_switch_drv, cz_drv],
     cb_async_thread_ctl := \<lparr>tc_data_queue = [], tc_mutex = False, tc_active = True\<rparr>\<rparr>) (power_on pool stk junk))"

lemma booted_ok:
  assumes "status_shape stk" and "length junk = 64" and "length (pool_context pool) = MAX_TCP_CLIENT_NUM" and "\<not> pool_mutex pool"
  shows "box_ok (booted pool stk junk)" and "delays_idle (booted pool stk junk)"
  using assms
  by (simp_all add: box_ok_def vs_table.in_sync_def cz_table.in_sync_def reg_ok_def booted_def power_on_def
      dev_ok_def pool_ok_def HSB_WORK_MODE_VALID_def find_drv_def virtual_switch_drv_def cz_drv_def vs_keys_def
      cz_keys_def reg_keys_def abs_reg_def cz_bufs_def delays_idle_def)

lemma init_dev_module_boot:
  assumes "0 \<le> fd"
  shows "init_dev_module env fd (power_on pool stk junk) =
    map_option (\<lambda>s. (0, s)) (probe_all_devices env (booted pool stk junk))"
  using assms
  by (cases "probe_all_devices env (booted pool stk junk)")
    (simp_all add: init_dev_module_def init_private_thread_def thread_control_init_def thread_control_activate_def
      init_virtual_switch_drv_def init_cz_drv_def register_dev_drv_def power_on_def booted_def
      virtual_switch_drv_def cz_drv_def g_queue_push_tail_def)

lemma probe_all_ok:
  assumes "box_ok s" and "\<forall>rx \<in> set (ev_vs_rxs env). length (rx_buf rx) = 64" and "\<forall>d \<in> set (cb_driverq (dev_cb s)). drv_op d \<noteq> None"
  shows "runs (probe_all_devices env s) (\<lambda>t. box_ok t \<and> core_frame s t)"
  unfolding probe_all_devices_def
proof (rule for_list_runs [where I = "\<lambda>t. box_ok t \<and> core_frame s t"])
  fix d t
  assume d: "d \<in> set (cb_driverq (dev_cb s))" and t: "box_ok t \<and> core_frame s t"
  from assms(3) d obtain op where op: "drv_op d = Some op" by blast
  have "runs (drv_probe env op t) (\<lambda>(r, u). box_ok u \<and> core_frame s u)"
    using drv_probe_step [OF _ assms(2), of t op] t by (auto elim!: runs_mono intro: core_frame_trans)
  with op show "runs (probe_all_body env d t) (\<lambda>t. box_ok t \<and> core_frame s t)"
    by (auto simp: probe_all_body_def elim!: runs_mono)
qed (use assms in simp)

text \<open>The whole of \<^verbatim>\<open>init_dev_module\<close> on the process image.\<close>

lemma init_dev_module_ok:
  assumes "status_shape stk" and "length junk = 64" and "length (pool_context pool) = MAX_TCP_CLIENT_NUM" and "\<not> pool_mutex pool"
    and "\<forall>rx \<in> set (ev_vs_rxs env). length (rx_buf rx) = 64" and "0 \<le> fd"
  shows "runs (init_dev_module env fd (power_on pool stk junk)) (\<lambda>(r, t). r = 0 \<and> box_ok t \<and> delays_idle t \<and>
    cb_driverq (dev_cb t) = [virtual_switch_drv, cz_drv] \<and> tc_active (cb_async_thread_ctl (dev_cb t)) \<and>
    events_only (power_on pool stk junk) t)"
proof -
  note b = booted_ok [OF assms(1-4)]
  have q: "cb_driverq (dev_cb (booted pool stk junk)) = [virtual_switch_drv, cz_drv]"
    "tc_active (cb_async_thread_ctl (dev_cb (booted pool stk junk)))"
    by (simp_all add: booted_def)
  have "events_only (power_on pool stk junk) (booted pool stk junk)" by (rule events_only_pool) (simp add: booted_def)
  then have ev: "events_only (power_on pool stk junk) t" if "core_frame (booted pool stk junk) t" for t
    using that by (auto simp: core_frame_def intro: events_only_trans)
  have "\<forall>d \<in> set (cb_driverq (dev_cb (booted pool stk junk))). drv_op d \<noteq> None"
    unfolding q by (simp add: virtual_switch_drv_def cz_drv_def)
  from probe_all_ok [OF b(1) assms(5) this] obtain t where t: "probe_all_devices env (booted pool stk junk) = Some t"
    "box_ok t \<and> core_frame (booted pool stk junk) t" by (rule runsE)
  then show ?thesis using q b ev by (simp add: init_dev_module_boot [OF assms(6)] core_frame_def)
qed

text \<open>Without a serial port only the Wi-Fi driver is registered.\<close>

lemma init_without_serial:
  assumes "status_shape stk" and "length (pool_context pool) = MAX_TCP_CLIENT_NUM" and "\<not> pool_mutex pool"
    and "\<forall>rx \<in> set (ev_vs_rxs env). length (rx_buf rx) = 64" and "fd < 0"
  shows "runs (init_dev_module env fd (power_on pool stk junk)) (\<lambda>(r, t). r = 0 \<and> vs_good t \<and> delays_idle t \<and>
    cb_driverq (dev_cb t) = [virtual_switch_drv] \<and> tc_active (cb_async_thread_ctl (dev_cb t)) \<and> cz_keys t = [] \<and> reg_keys 2 t = [])"
proof -
  let ?b = "dev_cb_update (\<lambda>c. c\<lparr>cb_dev_id := 1, cb_driverq := [virtual_switch_drv],
     cb_async_thread_ctl := \<lparr>tc_data_queue = [], tc_mutex = False, tc_active = True\<rparr>\<rparr>) (power_on pool stk junk)"
  have b: "vs_good ?b" "delays_idle ?b" "cz_keys ?b = []" "reg_keys 2 ?b = []" "cb_driverq (dev_cb ?b) = [virtual_switch_drv]"
    "tc_active (cb_async_thread_ctl (dev_cb ?b))"
    using assms(1-3)
    by (simp_all add: vs_good_def vs_table.in_sync_def reg_ok_def power_on_def dev_ok_def pool_ok_def HSB_WORK_MODE_VALID_def find_drv_def
        virtual_switch_drv_def vs_keys_def cz_keys_def reg_keys_def abs_reg_def delays_idle_def)
  have "init_dev_module env fd (power_on pool stk junk) = map_option (\<lambda>s. (0, s)) (probe_all_devices env ?b)"
    using assms(5)
    by (cases "probe_all_devices env ?b")
      (simp_all add: init_dev_module_def init_private_thread_def thread_control_init_def thread_control_activate_def
        init_virtual_switch_drv_def init_cz_drv_def register_dev_drv_def power_on_def virtual_switch_drv_def g_queue_push_tail_def)
  moreover have "runs (virtual_switch_probe (ev_vs_bcast env) (ev_vs_rxs env) ?b) (\<lambda>(r, t). vs_good t \<and> core_frame ?b t \<and>
      reg_keys 2 t = [] \<and> cz_keys t = [])"
  proof (cases "ev_vs_bcast env")
    case True
    with virtual_switch_probe_sync [OF b(1) assms(4)] b(3,4) show ?thesis by (auto simp: cz_keys_def elim!: runs_mono)
  next
    case False
    with b(1,3,4) show ?thesis by (simp add: virtual_switch_probe_def)
  qed
  ultimately show ?thesis using b
    by (auto simp: probe_all_devices_def probe_all_body_def virtual_switch_drv_def drv_probe_def core_frame_def elim!: runs_mono)
qed

text \<open>
  C3. Start-up of the device module. From the zeroed process image (with a client pool as the network module leaves it, and any contents
  of the stack), whatever is received in answer to the first probe, \<^verbatim>\<open>init_dev_module\<close> returns 0: the
  request thread is active, no delay is running, and the table of the Wi-Fi driver agrees with the registry. When the serial
  port could be opened, the whole invariant holds with both drivers registered. When it could not, \<^verbatim>\<open>init_dev_module\<close> still
  returns 0, with the Wi-Fi driver alone and no Zigbee device. The only condition on the world is that answers
  arrive in the 64-byte buffer of the probe.
\<close>

theorem init_establishes_invariant:
  assumes "status_shape stk" and "length junk = 64" and "length (pool_context pool) = MAX_TCP_CLIENT_NUM" and "\<not> pool_mutex pool"
    and "\<forall>rx \<in> set (ev_vs_rxs env). length (rx_buf rx) = 64"
  shows "runs (init_dev_module env fd (power_on pool stk junk)) (\<lambda>(r, t). r = 0 \<and> vs_good t \<and> delays_idle t \<and>
    tc_active (cb_async_thread_ctl (dev_cb t)) \<and>
    (if 0 \<le> fd then box_ok t \<and> cb_driverq (dev_cb t) = [virtual_switch_drv, cz_drv]
     else cb_driverq (dev_cb t) = [virtual_switch_drv] \<and> cz_keys t = [] \<and> reg_keys 2 t = []))"
proof (cases "0 \<le> fd")
  case True
  from init_dev_module_ok [OF assms this] True show ?thesis by (auto simp: box_okD elim!: runs_mono)
next
  case False
  then have "fd < 0" by simp
  from init_without_serial [OF assms(1,3,4,5) this, of junk] False show ?thesis by (auto elim!: runs_mono)
qed

end
