(* ===== verification/Vs_Monitor.thy ===== *)
theory Vs_Monitor
  imports Dev_Async
begin

text \<open>
  The monitor thread of the Wi-Fi switch driver (\<^verbatim>\<open>_remove_timeout_dev\<close>, \<^verbatim>\<open>_refresh_device\<close> and
  \<^verbatim>\<open>_monitor_thread\<close> of \<^verbatim>\<open>core_daemon/driver_virtual_switch.c\<close>). A round of the thread either
  times out after two seconds, ages the devices and broadcasts a keep-alive, or handles one
  datagram: \<open>ret\<close> bytes from address \<open>addr\<close> in the 16-byte buffer \<open>rbuf\<close>.
\<close>

section \<open>The code\<close>

text \<open>
  The loop pops from the queue it indexes and never shrinks \<open>len\<close>; it ends when \<open>i\<close>
  reaches \<open>len\<close> or when \<^verbatim>\<open>g_queue_peek_nth\<close> finds nothing. Every round consumes one entry,
  so the length of the queue plus one is enough fuel.
\<close>

fun remove_timeout_loop :: "nat \<Rightarrow> nat \<Rightarrow> nat \<Rightarrow> box \<Rightarrow> box option" where
  "remove_timeout_loop 0 len i s = None"
| "remove_timeout_loop (Suc fuel) len i s =
     (if i < len then
        (if i < length (vs_queue s) then do {
           pdev \<leftarrow> arr_get (vs_queue s) i;
           if vs_idle_time pdev > 10 then do {
             (r, s) \<leftarrow> dev_offline s (vs_id pdev);
             let s = s\<lparr>vs_queue := g_queue_pop_nth (vs_queue s) i\<rparr>;
             remove_timeout_loop fuel len i s
           } else do {
             q \<leftarrow> arr_set (vs_queue s) i (pdev\<lparr>vs_idle_time := vs_idle_time pdev + 1\<rparr>);
             remove_timeout_loop fuel len (i + 1) (s\<lparr>vs_queue := q\<rparr>)
           }
         } else Some s)
      else Some s)"

definition remove_timeout_dev :: "box \<Rightarrow> (int \<times> box) option" where
  "remove_timeout_dev s = do {
     let len = length (vs_queue s);
     s \<leftarrow> remove_timeout_loop (Suc len) len 0 s;
     Some (0, s)
   }"

definition refresh_device :: "box \<Rightarrow> nat \<Rightarrow> (int \<times> box) option" where
  "refresh_device s i = do {
     pdev \<leftarrow> arr_get (vs_queue s) i;
     q \<leftarrow> arr_set (vs_queue s) i (pdev\<lparr>vs_idle_time := 0\<rparr>);
     Some (0, s\<lparr>vs_queue := q\<rparr>)
   }"

definition vs_monitor_timeout :: "box \<Rightarrow> box option" where
  "vs_monitor_timeout s = do {
     (r, s) \<leftarrow> remove_timeout_dev s;
     let sbuf = replicate 16 0;
     let cmd_len = 4;
     sbuf \<leftarrow> SET_u16 sbuf 0 VS_CMD_KEEP_ALIVE;
     sbuf \<leftarrow> SET_u16 sbuf 2 (of_nat cmd_len);
     Some (send_out s (UDP_BROADCAST VIRTUAL_SWITCH_LISTEN_PORT (take cmd_len sbuf)))
   }"

definition vs_monitor_msg :: "drv_env \<Rightarrow> int \<Rightarrow> buf \<Rightarrow> u32 \<Rightarrow> box \<Rightarrow> box option" where
  "vs_monitor_msg env ret rbuf addr s =
     (if ret < 4 then Some s
      else do {
        cmd \<leftarrow> GET_u16 rbuf 0;
        len \<leftarrow> GET_u16 rbuf 2;
        if uint len \<noteq> ret then Some s
        else case vs_find_dev_by_ip s addr of
          None \<Rightarrow> do { (r, s) \<leftarrow> probe_dev env (drv_id virtual_switch_drv) s; Some s }
        | Some i \<Rightarrow> do {
            pdev \<leftarrow> arr_get (vs_queue s) i;
            s \<leftarrow> (if cmd = VS_CMD_KEEP_ALIVE then Some s
                  else if cmd = VS_CMD_STATUS_CHANGED then do {
                    sid \<leftarrow> GET_u16 rbuf 4;
                    v \<leftarrow> GET_u16 rbuf 6;
                    status_updated s (vs_id pdev) sid v
                  }
                  else if cmd = VS_CMD_EVENT then do {
                    eid \<leftarrow> GET_u16 rbuf 4;
                    param \<leftarrow> GET_u16 rbuf 6;
                    param2 \<leftarrow> GET_u32 rbuf 8;
                    report_event s (vs_id pdev) eid param param2
                  }
                  else Some s);
            (r, s) \<leftarrow> refresh_device s i;
            Some s
          }
      })"

section \<open>Ageing\<close>

definition aged :: "VS_DEV_T \<Rightarrow> VS_DEV_T" where
  "aged d = d\<lparr>vs_idle_time := vs_idle_time d + 1\<rparr>"

definition alive :: "VS_DEV_T \<Rightarrow> bool" where
  "alive d \<longleftrightarrow> vs_idle_time d \<le> 10"

lemma vs_key_aged [simp]: "vs_key (aged d) = vs_key d"
  by (simp add: aged_def vs_key_def)

lemma box_ok_vs_queue:
  assumes "box_ok s" and "map vs_key q = vs_keys s"
  shows "box_ok (s\<lparr>vs_queue := q\<rparr>)"
proof (rule box_ok_step [OF assms(1)])
  show "core_frame s (s\<lparr>vs_queue := q\<rparr>)" by (simp add: core_frame_def delays_idle_def)
qed (use assms box_okD [OF assms(1)] in \<open>simp_all add: vs_keys_def cz_keys_def\<close>)

lemma vs_key_unique:
  assumes "box_ok s" and "next_ptr s \<le> 2 ^ 32"
  shows "distinct (map fst (vs_keys s))"
proof -
  have "distinct (map dev_id (fst (abs_reg s)))" using dev_ok_unique_ids [OF box_okD(1) [OF assms(1)] assms(2)] by simp
  then have "distinct (map fst (reg_keys e s))" for e
    unfolding reg_keys_def map_map by (simp add: o_def dev_key_def distinct_map_filter)
  with assms(1) show ?thesis by (simp add: box_ok_def vs_table.in_sync_def)
qed

lemma map_filter_key: "map vs_key (filter (\<lambda>d. P (vs_key d)) q) = filter P (map vs_key q)"
  by (simp add: filter_map o_def)

lemma pop_nth_filter:
  "distinct m \<Longrightarrow> i < length m \<Longrightarrow> g_queue_pop_nth m i = filter (\<lambda>x. x \<noteq> m ! i) m"
proof (induction m arbitrary: i)
  case (Cons x xs)
  show ?case
  proof (cases i)
    case 0
    have "filter (\<lambda>y. y \<noteq> x) xs = xs" using Cons.prems(1) by (intro filter_True) auto
    with 0 show ?thesis by (simp add: g_queue_pop_nth_def)
  next
    case (Suc j)
    with Cons.prems have "x \<noteq> xs ! j" by auto
    with Suc Cons.IH [of j] Cons.prems show ?thesis by (simp add: g_queue_pop_nth_def)
  qed
qed simp

text \<open>One device whose time is up leaves both the driver's table and the registry.\<close>

lemma offline_step:
  assumes "box_ok s" and "next_ptr s \<le> 2 ^ 32" and "i < length (vs_queue s)"
  shows "runs (dev_offline s (vs_id (vs_queue s ! i))) (\<lambda>(r, t). r = errno HSB_E_OK \<and>
    vs_queue t = vs_queue s \<and> core_frame s t \<and> next_ptr t = next_ptr s \<and> sent t = sent s \<and>
    box_ok (t\<lparr>vs_queue := g_queue_pop_nth (vs_queue s) i\<rparr>))"
proof -
  let ?d = "vs_queue s ! i" and ?q = "g_queue_pop_nth (vs_queue s) i"
  have sync: "vs_keys s = reg_keys 1 s" "cz_keys s = reg_keys 2 s" using assms(1)
    by (simp_all add: box_ok_def vs_table.in_sync_def cz_table.in_sync_def)
  have "vs_key ?d \<in> set (vs_keys s)" using assms(3) by (simp add: vs_keys_def)
  then have key: "vs_key ?d \<in> set (reg_keys 1 s)" using sync(1) by simp
  then have mem: "vs_id ?d \<in> dev_id ` set (fst (abs_reg s))"
    by (auto simp: reg_keys_def dev_key_def vs_key_def)
  have dist: "distinct (map fst (vs_keys s))" by (rule vs_key_unique [OF assms(1,2)])
  have pop: "map vs_key ?q = filter (\<lambda>k. fst k \<noteq> vs_id ?d) (vs_keys s)"
  proof -
    have dk: "distinct (vs_keys s)" using dist by (rule distinct_map [THEN iffD1, THEN conjunct1])
    have "map vs_key ?q = filter (\<lambda>k. k \<noteq> vs_key ?d) (vs_keys s)"
      using pop_nth_filter [of "vs_keys s" i] dk assms(3)
      by (simp add: vs_keys_def pop_nth_map)
    also have "\<dots> = filter (\<lambda>k. fst k \<noteq> vs_id ?d) (vs_keys s)"
    proof (rule filter_cong [OF refl])
      fix k
      assume k: "k \<in> set (vs_keys s)"
      have "inj_on fst (set (vs_keys s))" using dist by (simp add: distinct_map)
      from inj_on_eq_iff [OF this k, of "vs_key ?d"] key sync(1)
      show "(k \<noteq> vs_key ?d) = (fst k \<noteq> vs_id ?d)" by (simp add: vs_key_def)
    qed
    finally show ?thesis .
  qed
  have cz: "filter (\<lambda>k. fst k \<noteq> vs_id ?d) (reg_keys 2 s) = reg_keys 2 s"
  proof -
    have "fst k \<noteq> vs_id ?d" if "k \<in> set (reg_keys 2 s)" for k
    proof
      assume eq: "fst k = vs_id ?d"
      from that obtain a where a: "a \<in> set (fst (abs_reg s))" "of_drv 2 a" "dev_id a = vs_id ?d"
        using eq by (auto simp: reg_keys_def dev_key_def)
      from key obtain b where b: "b \<in> set (fst (abs_reg s))" "of_drv 1 b" "dev_id b = vs_id ?d"
        by (auto simp: reg_keys_def dev_key_def vs_key_def)
      have "distinct (map dev_id (fst (abs_reg s)))"
        using dev_ok_unique_ids [OF box_okD(1) [OF assms(1)] assms(2)] by simp
      with a b have "a = b" by (simp add: distinct_map inj_on_def)
      with a(2) b(2) show False by (simp add: of_drv_def)
    qed
    then show ?thesis by (simp add: filter_id_conv)
  qed
  from dev_offline_refines [OF box_okD(1) [OF assms(1)], of "vs_id ?d"] mem
  have ok: "runs (dev_offline s (vs_id ?d)) (\<lambda>(r, t). r = errno HSB_E_OK)"
    by (elim runs_mono) auto
  from dev_offline_keys [OF box_okD(1) [OF assms(1)] assms(2), of "vs_id ?d"] obtain r t where
    t: "dev_offline s (vs_id ?d) = Some (r, t)" and P: "dev_ok t \<and> drv_frame s t \<and> next_ptr t = next_ptr s \<and>
    (\<forall>e. reg_keys e t = filter (\<lambda>k. fst k \<noteq> vs_id ?d) (reg_keys e s))" by (rule runs_pairE)
  have f: "find_drv t = find_drv s" using P find_drv_frame by blast
  have "vs_table.in_sync (t\<lparr>vs_queue := ?q\<rparr>)"
    using P pop sync box_okD(7) [OF assms(1)] f assms(1)
    by (simp add: vs_table.in_sync_def reg_ok_def vs_keys_def)
      (simp add: box_ok_def vs_table.in_sync_def vs_keys_def distinct_map_filter)
  moreover have "cz_table.in_sync (t\<lparr>vs_queue := ?q\<rparr>)"
    using P cz sync(2) box_okD(3,6) [OF assms(1)] f
    by (simp add: cz_table.in_sync_def reg_ok_def cz_keys_def drv_frame_def)
  moreover have "cz_bufs (cz_ctx t)" "length (stk_buf t) = 64"
    using P box_okD [OF assms(1)] by (simp_all add: drv_frame_def)
  ultimately have "box_ok (t\<lparr>vs_queue := ?q\<rparr>)" by (simp add: box_ok_def)
  with t P ok show ?thesis by (simp add: drv_frame_core) (simp add: drv_frame_def)
qed

text \<open>
  The loop splits the table: the prefix before \<open>i\<close> has been aged, the rest is still to be
  visited, and what has been dropped is gone.
\<close>

lemma remove_timeout_loop_eq:
  assumes "box_ok s" and "next_ptr s \<le> 2 ^ 32" and "vs_queue s = pre @ rest" and "length pre + length rest \<le> len"
    and "length rest < fuel"
  shows "runs (remove_timeout_loop fuel len (length pre) s) (\<lambda>t. box_ok t \<and> core_frame s t \<and>
    next_ptr t = next_ptr s \<and> sent t = sent s \<and> vs_queue t = pre @ map aged (filter alive rest))"
  using assms
proof (induction rest arbitrary: s pre fuel)
  case Nil
  then obtain n where "fuel = Suc n" by (cases fuel) auto
  with Nil show ?case by simp
next
  case (Cons d rest)
  then obtain n where n: "fuel = Suc n" "length rest < n" by (cases fuel) auto
  let ?i = "length pre"
  have i: "?i < length (vs_queue s)" "vs_queue s ! ?i = d" and il: "?i < len" using Cons.prems by simp_all
  show ?case
  proof (cases "alive d")
    case True
    let ?q = "(pre @ [aged d]) @ rest"
    have q: "(vs_queue s)[?i := aged d] = ?q" using Cons.prems(3) by simp
    have ok: "box_ok (s\<lparr>vs_queue := ?q\<rparr>)"
      using Cons.prems(1,3) by (intro box_ok_vs_queue) (simp_all add: vs_keys_def)
    have cf: "core_frame s (s\<lparr>vs_queue := ?q\<rparr>)" by (simp add: core_frame_def delays_idle_def)
    have "runs (remove_timeout_loop n len (length (pre @ [aged d])) (s\<lparr>vs_queue := ?q\<rparr>)) (\<lambda>t. box_ok t \<and>
        core_frame (s\<lparr>vs_queue := ?q\<rparr>) t \<and> next_ptr t = next_ptr (s\<lparr>vs_queue := ?q\<rparr>) \<and>
        sent t = sent (s\<lparr>vs_queue := ?q\<rparr>) \<and> vs_queue t = (pre @ [aged d]) @ map aged (filter alive rest))"
      using Cons.prems n ok by (intro Cons.IH) simp_all
    then have "runs (remove_timeout_loop n len (Suc ?i) (s\<lparr>vs_queue := ?q\<rparr>)) (\<lambda>t. box_ok t \<and> core_frame s t \<and>
    next_ptr t = next_ptr s \<and> sent t = sent s \<and> vs_queue t = pre @ map aged (filter alive (d # rest)))"
      using True core_frame_trans [OF cf] by (auto simp: runs_def)
    moreover have "remove_timeout_loop fuel len ?i s = remove_timeout_loop n len (Suc ?i) (s\<lparr>vs_queue := ?q\<rparr>)"
      using leD [OF True [unfolded alive_def]] n i il q by (simp add: aged_def [of d])
    ultimately show ?thesis by simp
  next
    case False
    have pop: "g_queue_pop_nth (vs_queue s) ?i = pre @ rest" using Cons.prems(3) by (simp add: g_queue_pop_nth_def)
    from offline_step [OF Cons.prems(1,2) i(1)] obtain r t where t: "dev_offline s (vs_id d) = Some (r, t)"
      and P: "r = errno HSB_E_OK \<and> vs_queue t = vs_queue s \<and> core_frame s t \<and> next_ptr t = next_ptr s \<and>
        sent t = sent s \<and> box_ok (t\<lparr>vs_queue := pre @ rest\<rparr>)"
      unfolding pop i(2) by (rule runs_pairE)
    let ?t = "t\<lparr>vs_queue := pre @ rest\<rparr>"
    have cf: "core_frame s ?t" using P by (simp add: core_frame_def delays_idle_def)
    have "runs (remove_timeout_loop n len ?i ?t) (\<lambda>u. box_ok u \<and> core_frame ?t u \<and>
        next_ptr u = next_ptr ?t \<and> sent u = sent ?t \<and> vs_queue u = pre @ map aged (filter alive rest))"
      using Cons.prems n P by (intro Cons.IH) simp_all
    then have "runs (remove_timeout_loop n len ?i ?t) (\<lambda>u. box_ok u \<and> core_frame s u \<and>
        next_ptr u = next_ptr s \<and> sent u = sent s \<and> vs_queue u = pre @ map aged (filter alive (d # rest)))"
      using False P core_frame_trans [OF cf] by (auto simp: runs_def)
    moreover have "remove_timeout_loop fuel len ?i s = remove_timeout_loop n len ?i ?t"
      using False n i il t P pop by (simp add: alive_def not_le)
    ultimately show ?thesis by simp
  qed
qed

lemma remove_timeout_dev_step:
  assumes "box_ok s" and "next_ptr s \<le> 2 ^ 32"
  shows "runs (remove_timeout_dev s) (\<lambda>(r, t). r = 0 \<and> box_ok t \<and> core_frame s t \<and> next_ptr t = next_ptr s \<and>
    sent t = sent s \<and> vs_queue t = map aged (filter alive (vs_queue s)))"
  using remove_timeout_loop_eq [OF assms, of "[]" "vs_queue s" "length (vs_queue s)" "Suc (length (vs_queue s))"]
  by (simp add: remove_timeout_dev_def Let_def del: remove_timeout_loop.simps)

definition keep_alive_frame :: buf where
  "keep_alive_frame = le16 VS_CMD_KEEP_ALIVE @ le16 4"

text \<open>
  C5. Devices that stay silent go offline, all others stay. One timeout round of the monitor
  thread removes exactly the devices that were idle for more than ten rounds, from the
  driver's table and from the registry alike (the invariant equates the two), ages every
  other device by one round, and then broadcasts one keep-alive. The loop ends although
  it removes entries from the queue it walks.
\<close>

theorem silent_devices_go_offline:
  assumes "box_ok s" and "next_ptr s \<le> 2 ^ 32"
  shows "runs (vs_monitor_timeout s) (\<lambda>t. box_ok t \<and> vs_queue t = map aged (filter alive (vs_queue s)) \<and>
    reg_keys 1 t = map vs_key (filter alive (vs_queue s)) \<and>
    sent t = sent s @ [UDP_BROADCAST VIRTUAL_SWITCH_LISTEN_PORT keep_alive_frame])"
proof -
  have f: "take 4 (front (replicate 16 0) keep_alive_frame) = keep_alive_frame"
    by (rule take_front_len) (simp add: keep_alive_frame_def)
  have keys: "reg_keys 1 t = map vs_key (vs_queue t)" if "box_ok t" for t
    using that by (simp add: box_ok_def vs_table.in_sync_def vs_keys_def)
  from remove_timeout_dev_step [OF assms] show ?thesis
    using f keys by (auto simp: vs_monitor_timeout_def keep_alive_frame_def elim!: runs_mono)
qed

lemma vs_monitor_timeout_step:
  assumes "box_ok s" and "next_ptr s \<le> 2 ^ 32"
  shows "runs (vs_monitor_timeout s) (\<lambda>t. box_ok t \<and> core_frame s t)"
proof -
  have "core_frame s (send_out t x)" if "core_frame s t" for t x
    by (rule core_frame_trans [OF that send_out_frame(8)])
  with remove_timeout_dev_step [OF assms] show ?thesis
    by (auto simp: vs_monitor_timeout_def elim!: runs_mono)
qed

section \<open>Messages\<close>

lemma refresh_device_step:
  assumes "box_ok s" and "i < length (vs_queue s)"
  shows "runs (refresh_device s i) (\<lambda>(r, t). box_ok t \<and> core_frame s t \<and>
    vs_queue t = (vs_queue s)[i := (vs_queue s ! i)\<lparr>vs_idle_time := 0\<rparr>])"
proof -
  let ?q = "(vs_queue s)[i := (vs_queue s ! i)\<lparr>vs_idle_time := 0\<rparr>]"
  have "map vs_key ?q = vs_keys s"
    using assms(2) by (simp add: vs_keys_def map_update) (simp add: vs_key_def list_update_same_conv)
  then have "box_ok (s\<lparr>vs_queue := ?q\<rparr>)" by (rule box_ok_vs_queue [OF assms(1)])
  then show ?thesis using assms(2) by (simp add: refresh_device_def core_frame_def delays_idle_def)
qed

lemma vs_monitor_msg_step:
  assumes "box_ok s" and "env_ok env" and "length rbuf = 16"
  shows "runs (vs_monitor_msg env ret rbuf addr s) (\<lambda>t. box_ok t \<and> core_frame s t)"
proof -
  obtain c l a b p where g: "GET_u16 rbuf 0 = Some c" "GET_u16 rbuf 2 = Some l" "GET_u16 rbuf 4 = Some a"
    "GET_u16 rbuf 6 = Some b" "GET_u32 rbuf 8 = Some p"
    using assms(3) by (simp add: GET_u16_def GET_u32_def)
  have probe: "runs (probe_dev env x s) (\<lambda>(r, t). box_ok t \<and> core_frame s t)" for x
    by (rule probe_dev_step [OF assms(1,2)])
  have refresh: "runs (refresh_device t i) (\<lambda>(r, u). box_ok u \<and> core_frame s u)"
    if "box_ok t" "drv_frame s t" "i < length (vs_queue s)" for t i
  proof -
    have "i < length (vs_queue t)" using that(2,3) by (simp add: drv_frame_def)
    from refresh_device_step [OF that(1) this] drv_frame_core [OF that(2)] show ?thesis
      by (auto elim!: runs_mono intro: core_frame_trans)
  qed
  have ev: "runs (report_event s d e x y) (\<lambda>t. runs (refresh_device t i) (\<lambda>(r, u). box_ok u \<and> core_frame s u))"
    if "i < length (vs_queue s)" for d e x y i
    using report_event_step [OF assms(1), of d e x y] by (rule runs_mono) (simp add: refresh that)
  have su: "runs (refresh_device (event_out s d ty x y) i) (\<lambda>(r, u). box_ok u \<and> core_frame s u)"
    if "i < length (vs_queue s)" for d ty x y i
    using event_out_step [OF assms(1)] that by (intro refresh) simp_all
  have st: "runs (refresh_device s i) (\<lambda>(r, u). box_ok u \<and> core_frame s u)" if "i < length (vs_queue s)" for i
    using assms(1) that by (intro refresh) simp_all
  have idx: "i < length (vs_queue s)" if "vs_find_dev_by_ip s addr = Some i" for i
    using that by (simp add: vs_find_dev_by_ip_def Let_def split: if_splits)
  show ?thesis
  proof (cases "vs_find_dev_by_ip s addr")
    case None
    with g probe assms(1) show ?thesis by (auto simp: vs_monitor_msg_def elim!: runs_mono)
  next
    case (Some i)
    note i = idx [OF Some]
    show ?thesis using Some i g assms(1) ev [OF i] su [OF i] st [OF i]
      by (simp add: vs_monitor_msg_def status_updated_eq case_prod_unfold)
  qed
qed

end
