(* ===== verification/Box_Frame.thy ===== *)
theory Box_Frame
  imports Vs_Monitor
begin

text \<open>
  The invariant of the whole box under the steps that are not driver steps: a change of one device's slots, a request
  pushed onto the asynchronous queue, a round of the scheduler, a change in the pool of clients. Each keeps
  \<open>box_ok\<close>, starts no delay and leaves the drivers alone.
\<close>

section \<open>Edits of one device\<close>

definition face_ok :: "HSB_DEV_T \<Rightarrow> HSB_DEV_T \<Rightarrow> bool" where
  "face_ok d e \<longleftrightarrow> dev_id e = dev_id d \<and> dev_driver e = dev_driver d \<and> dev_info e = dev_info d \<and>
     (dev_shape d \<longrightarrow> dev_shape e) \<and>
     ((\<forall>st \<in> set (dev_delay_status d). \<not> ds_started st) \<longrightarrow> (\<forall>st \<in> set (dev_delay_status e). \<not> ds_started st))"

lemma write_keys:
  assumes "deref s p = Some d" and "face_ok d e"
  shows "reg_keys k (dev_write s p e) = reg_keys k s"
proof -
  have at: "dev_at s p = d" using assms(1) deref_live by blast
  have e: "dev_at (dev_write s p e) q = (if q = p then e else dev_at s q)" for q by (simp add: dev_at_def dev_write_def)
  have k: "dev_key (dev_at (dev_write s p e) q) = dev_key (dev_at s q)"
    "of_drv k (dev_at (dev_write s p e) q) = of_drv k (dev_at s q)" for q
    using assms(2) at e by (auto simp: face_ok_def dev_key_def of_drv_def)
  have "map dev_key (filter (of_drv k) (map (dev_at (dev_write s p e)) q)) =
      map dev_key (filter (of_drv k) (map (dev_at s) q))" for q
    by (induction q) (simp_all add: k)
  then show ?thesis by (simp add: reg_keys_def abs_reg_def dev_write_def)
qed

lemma write_step:
  assumes "box_ok s" and "deref s p = Some d" and "face_ok d e"
  shows "box_ok (dev_write s p e)" "core_frame s (dev_write s p e)"
proof -
  have h: "dev_heap s p = Some d" using assms(2) by (simp add: deref_def split: if_splits)
  then have "dev_shape d" using dev_ok_obj [OF box_okD(1) [OF assms(1)]] by (simp add: dev_obj_ok_def)
  then have ok: "dev_ok (dev_write s p e)"
    using assms(3) by (intro dev_ok_write [OF box_okD(1) [OF assms(1)] assms(2)]) (simp_all add: face_ok_def)
  have ev: "events_only s (dev_write s p e)" by (rule events_only_pool) (simp add: dev_write_def)
  have "delays_idle (dev_write s p e)" if "delays_idle s"
    using that h assms(3) by (auto simp: delays_idle_def dev_write_def face_ok_def)
  with ev show fr: "core_frame s (dev_write s p e)" by (simp add: core_frame_def dev_write_def)
  show "box_ok (dev_write s p e)"
  proof (rule box_ok_step [OF assms(1) ok fr])
    show "cz_bufs (cz_ctx (dev_write s p e))" using box_okD(4) [OF assms(1)] by (simp add: dev_write_def)
  qed (simp_all add: write_keys [OF assms(2,3)], simp_all add: vs_keys_def cz_keys_def dev_write_def)
qed

section \<open>Requests\<close>

lemma pushed_keys [simp]:
  "reg_keys k (pushed s acts) = reg_keys k s" "vs_keys (pushed s acts) = vs_keys s" "cz_keys (pushed s acts) = cz_keys s"
  "base_frame s (pushed s acts)"
  by (simp_all add: reg_keys_def abs_reg_def dev_at_def [abs_def] vs_keys_def cz_keys_def base_frame_def delays_idle_def
      events_only_pool)

lemma pushed_core: "\<forall>a \<in> set acts. act_reply a = None \<Longrightarrow> core_frame s (pushed s acts)"
  using pushed_keys(4) [of s acts] by (auto simp: core_frame_def base_frame_def queue_grows_def)

lemma pushed_step: "box_ok s \<Longrightarrow> \<forall>a \<in> set acts. act_ok a \<Longrightarrow> box_ok (pushed s acts)"
  by (rule box_ok_base_step) (simp_all add: dev_ok_pushed box_okD)

lemma push_async_box: "box_ok s \<Longrightarrow> push_async s a = Some (pushed s [a])"
  by (simp add: push_async_pushed dev_okD(7) box_okD(1))

section \<open>The scheduler\<close>

lemma day_delays [simp]: "dev_delay_status (fold (nextday_step c) is d) = dev_delay_status d"
  by (induction "is" arbitrary: d) (simp_all add: nextday_step_def Let_def)

lemma timer_delays [simp]: "dev_delay_status (fold (timer_step c mode) is d) = dev_delay_status d"
  by (induction "is" arbitrary: d) (simp_all add: timer_step_def Let_def)

lemma delay_step_idle:
  assumes "\<forall>st \<in> set (dev_delay_status d). \<not> ds_started st"
  shows "\<forall>st \<in> set (dev_delay_status (delay_step c mode i d)). \<not> ds_started st"
  using assms by (auto simp: delay_step_def dest: set_update_subset_insert [THEN subsetD])

lemma delay_fold_idle:
  assumes "\<forall>st \<in> set (dev_delay_status d). \<not> ds_started st"
  shows "\<forall>st \<in> set (dev_delay_status (fold (delay_step c mode) is d)). \<not> ds_started st"
  using assms
proof (induction "is" arbitrary: d)
  case (Cons i "is")
  from Cons.IH [OF delay_step_idle [OF Cons.prems]] show ?case by simp
qed simp

lemma checked_idle:
  assumes "\<forall>st \<in> set (dev_delay_status d). \<not> ds_started st"
  shows "\<forall>st \<in> set (dev_delay_status (checked_dev c mode before d)). \<not> ds_started st"
proof -
  have "dev_delay_status (day_dev c before d) = dev_delay_status d" by (simp add: day_dev_def)
  moreover have "dev_delay_status (timed_dev c mode before d) = dev_delay_status d" by (simp add: timed_dev_def calculation)
  ultimately show ?thesis using assms delay_fold_idle [of "timed_dev c mode before d"] by (simp add: checked_dev_def)
qed

lemma checked_face: "face_ok d (checked_dev c mode before d)"
  using checked_idle [of d c mode before] by (simp add: face_ok_def)

lemma sec_step:
  assumes "box_ok s"
  shows "box_ok (dev_cb_update (cb_sec_today_update f) s)" "core_frame s (dev_cb_update (cb_sec_today_update f) s)"
proof -
  let ?t = "dev_cb_update (cb_sec_today_update f) s"
  show fr: "core_frame s ?t" by (simp add: core_frame_def delays_idle_def events_only_pool)
  have "reg_keys k ?t = reg_keys k s" for k by (simp add: reg_keys_def abs_reg_def dev_at_def [abs_def])
  then show "box_ok ?t" using box_okD(1,4) [OF assms] fr
    by (intro box_ok_step [OF assms]) (simp_all add: vs_keys_def cz_keys_def)
qed

lemma checked_step:
  assumes "box_ok s" and "p \<in> set (cb_queue (dev_cb s))"
  shows "box_ok (checked c p s)" "core_frame s (checked c p s)"
proof -
  let ?s = "dev_cb_update (cb_sec_today_update (\<lambda>_. of_nat (clock_sec c))) s"
  let ?e = "checked_dev c (cb_work_mode (dev_cb s)) (cb_sec_today (dev_cb s)) (dev_at s p)"
  let ?a = "check_acts c (cb_work_mode (dev_cb s)) (cb_sec_today (dev_cb s)) (stk_status s) (dev_at s p)"
  have "deref ?s p = Some (dev_at s p)" using dev_ok_deref [OF box_okD(1) [OF assms(1)] assms(2)]
    by (auto simp: deref_def)
  note w = write_step [OF sec_step(1) [OF assms(1)] this checked_face]
  have "\<forall>a \<in> set ?a. act_ok a" using act_ok_check_acts dev_okD(9) [OF box_okD(1) [OF assms(1)]] by blast
  from pushed_step [OF w(1) this] show "box_ok (checked c p s)" by (simp add: checked_def Let_def)
  show "core_frame s (checked c p s)" unfolding checked_def Let_def
    by (rule core_frame_trans [OF core_frame_trans [OF sec_step(2) [OF assms(1)] w(2)] pushed_core]) (simp add: check_acts_reply)
qed

lemma fold_checked_step:
  assumes "box_ok s" and "\<forall>(i, p) \<in> set ips. p \<in> set (cb_queue (dev_cb s))"
  shows "box_ok (fold (\<lambda>(i, p). checked (clk i) p) ips s) \<and> core_frame s (fold (\<lambda>(i, p). checked (clk i) p) ips s)"
  using assms
proof (induction ips arbitrary: s)
  case (Cons ip ips)
  obtain i p where ip: "ip = (i, p)" by (cases ip)
  with Cons.prems have c: "box_ok (checked (clk i) p s)" "core_frame s (checked (clk i) p s)"
    by (auto intro: checked_step)
  from Cons.prems ip have "\<forall>(i, q) \<in> set ips. q \<in> set (cb_queue (dev_cb (checked (clk i) p s)))" for i by auto
  with Cons.IH [OF c(1)] Cons.prems(2) c(2) ip show ?case by (auto intro: core_frame_trans)
qed simp

lemma check_timer_and_delay_step:
  assumes "box_ok s" and "\<And>i. clock_ok (clk i)"
  shows "runs (check_timer_and_delay clk s) (\<lambda>(r, t). r = errno HSB_E_OK \<and> box_ok t \<and> core_frame s t)"
proof -
  have "\<forall>(i, p) \<in> set (enumerate 0 (cb_queue (dev_cb s))). p \<in> set (cb_queue (dev_cb s))"
    by (auto simp: in_set_enumerate_eq)
  from fold_checked_step [OF assms(1) this] show ?thesis
    using assms(2) by (simp add: check_timer_and_delay_eq [OF box_okD(1) [OF assms(1)]])
qed

section \<open>Slots\<close>

text \<open>Every change of a slot is an edit of an online device, or none.\<close>

definition slot_edit :: "box \<Rightarrow> box \<Rightarrow> bool" where
  "slot_edit s t \<longleftrightarrow> t = s \<or> (\<exists>p d e. deref s p = Some d \<and> face_ok d e \<and> t = dev_write s p e)"

lemma slot_edit_step: "box_ok s \<Longrightarrow> slot_edit s t \<Longrightarrow> box_ok t \<and> core_frame s t"
  by (auto simp: slot_edit_def write_step)

lemma slot_edit_async: "slot_edit s t \<Longrightarrow> async_queue t = async_queue s \<and> sent t = sent s"
  by (auto simp: slot_edit_def dev_write_def)

lemma slot_edit_write: "deref s p = Some d \<Longrightarrow> face_ok d e \<Longrightarrow> slot_edit s (dev_write s p e)"
  by (auto simp: slot_edit_def)

lemma slot_edit_refl [simp]: "slot_edit s s"
  by (simp add: slot_edit_def)

lemma face_timer: "length ts = length (dev_timer d) \<Longrightarrow> length ss = length (dev_timer_status d) \<Longrightarrow>
    face_ok d (d\<lparr>dev_timer := ts, dev_timer_status := ss\<rparr>)"
  by (simp add: face_ok_def dev_shape_def)

lemma face_linkage: "length ls = length (dev_link d) \<Longrightarrow> length ss = length (dev_link_status d) \<Longrightarrow>
    face_ok d (d\<lparr>dev_link := ls, dev_link_status := ss\<rparr>)"
  by (simp add: face_ok_def dev_shape_def)

lemma face_delay:
  assumes "length ds = length (dev_delay d)" and "i < length (dev_delay_status d)"
    and "ds_started st = ds_started (dev_delay_status d ! i)"
  shows "face_ok d (d\<lparr>dev_delay := ds, dev_delay_status := (dev_delay_status d)[i := st]\<rparr>)"
  using assms by (auto simp: face_ok_def dev_shape_def dest!: set_update_subset_insert [THEN subsetD])

lemmas faces = face_timer face_linkage face_delay

lemma set_dev_timer_edit: "dev_ok s \<Longrightarrow> runs (set_dev_timer s devid v) (\<lambda>(r, t). slot_edit s t)"
  by (cases rule: online_dev_cases [of s devid])
    (auto simp: set_dev_timer_def Let_def dev_shape_def intro!: slot_edit_write faces)

lemma del_dev_timer_edit: "dev_ok s \<Longrightarrow> runs (del_dev_timer s devid i) (\<lambda>(r, t). slot_edit s t)"
  by (cases rule: online_dev_cases [of s devid])
    (auto simp: del_dev_timer_def Let_def dev_shape_def intro!: slot_edit_write faces)

lemma set_dev_delay_edit: "dev_ok s \<Longrightarrow> runs (set_dev_delay s devid v) (\<lambda>(r, t). slot_edit s t)"
  by (cases rule: online_dev_cases [of s devid])
    (auto simp: set_dev_delay_def Let_def dev_shape_def intro!: slot_edit_write faces)

lemma del_dev_delay_edit: "dev_ok s \<Longrightarrow> runs (del_dev_delay s devid i) (\<lambda>(r, t). slot_edit s t)"
  by (cases rule: online_dev_cases [of s devid])
    (auto simp: del_dev_delay_def Let_def dev_shape_def intro!: slot_edit_write faces)

lemma set_dev_linkage_edit: "dev_ok s \<Longrightarrow> runs (set_dev_linkage s devid v) (\<lambda>(r, t). slot_edit s t)"
  by (cases rule: online_dev_cases [of s devid])
    (auto simp: set_dev_linkage_def Let_def dev_shape_def intro!: slot_edit_write faces)

lemma del_dev_linkage_edit: "dev_ok s \<Longrightarrow> runs (del_dev_linkage s devid i) (\<lambda>(r, t). slot_edit s t)"
  by (cases rule: online_dev_cases [of s devid])
    (auto simp: del_dev_linkage_def Let_def dev_shape_def intro!: slot_edit_write faces)

lemmas slot_edits = set_dev_timer_edit del_dev_timer_edit set_dev_delay_edit del_dev_delay_edit
  set_dev_linkage_edit del_dev_linkage_edit

end
