(* ===== verification/Remote_Ctl.thy ===== *)
theory Remote_Ctl
  imports Hsb_Types
begin

text \<open>
  The remote control key tables of \<^verbatim>\<open>core_daemon/remote_ctl.c\<close>: \<^verbatim>\<open>remote_key_mapping\<close> turns
  a key of a remote into the action that makes the infra-red sender of a device
  transmit it.
\<close>

section \<open>The code\<close>

abbreviation (input) HSB_REMOTE_KEY_OK :: u32 where "HSB_REMOTE_KEY_OK \<equiv> 10"
abbreviation (input) HSB_REMOTE_KEY_BACK :: u32 where "HSB_REMOTE_KEY_BACK \<equiv> 11"
abbreviation (input) HSB_REMOTE_KEY_INVALID :: u32 where "HSB_REMOTE_KEY_INVALID \<equiv> 255"

record HSB_KEY_MAP_T =
  km_key :: u32
  km_data :: buf

record HSB_REMOTE_DRIVER_T =
  rd_id :: u16
  rd_data_len :: nat
  rd_key_map :: "HSB_KEY_MAP_T list option"

definition key_entry :: "u32 \<Rightarrow> u8 \<Rightarrow> HSB_KEY_MAP_T" where
  "key_entry k b = \<lparr>km_key = k, km_data = [b, 0, 0, 0]\<rparr>"

definition cochip_n9201_key_map :: "HSB_KEY_MAP_T list" where
  "cochip_n9201_key_map =
     [key_entry 0 0x30, key_entry 1 0x31, key_entry 2 0x32, key_entry 3 0x33, key_entry 4 0x34,
      key_entry 5 0x35, key_entry 6 0x36, key_entry 7 0x37, key_entry 8 0x38, key_entry 9 0x39,
      key_entry HSB_REMOTE_KEY_OK 0x43, key_entry HSB_REMOTE_KEY_BACK 0x42,
      key_entry HSB_REMOTE_KEY_INVALID 0]"

definition remote_drv :: "HSB_REMOTE_DRIVER_T list" where
  "remote_drv =
     [\<lparr>rd_id = 0, rd_data_len = 1, rd_key_map = Some cochip_n9201_key_map\<rparr>,
      \<lparr>rd_id = 1, rd_data_len = 2, rd_key_map = None\<rparr>,
      \<lparr>rd_id = 2, rd_data_len = 3, rd_key_map = None\<rparr>]"

text \<open>
  The scan stops at the entry for the key or at the terminating entry; running past the
  end of the table would be an access outside it.
\<close>

fun key_scan :: "HSB_KEY_MAP_T list \<Rightarrow> u32 \<Rightarrow> buf option option" where
  "key_scan [] key = None"
| "key_scan (m # ms) key =
     (if km_key m = HSB_REMOTE_KEY_INVALID then Some None
      else if km_key m = key then Some (Some (km_data m))
      else key_scan ms key)"

definition memcpy_u32 :: "u32 \<Rightarrow> buf \<Rightarrow> nat \<Rightarrow> u32 option" where
  "memcpy_u32 old data n =
     (if n \<le> length data then do {
        b \<leftarrow> put_bytes (le32 old) 0 (take n data);
        GET_u32 b 0
      } else None)"

definition remote_key_mapping :: "u16 \<Rightarrow> u32 \<Rightarrow> HSB_ACTION_T \<Rightarrow> (int \<times> HSB_ACTION_T) option" where
  "remote_key_mapping drvid key act =
     (if unat drvid \<ge> length remote_drv then Some (errno HSB_E_BAD_PARAM, act)
      else do {
        pdrv \<leftarrow> arr_get remote_drv (unat drvid);
        case rd_key_map pdrv of
          None \<Rightarrow> Some (errno HSB_E_OK,
            act\<lparr>act_id := HSB_ACT_TYPE_REMOTE_CONTROL, act_param1 := drvid, act_param2 := key\<rparr>)
        | Some key_map \<Rightarrow> do {
            found \<leftarrow> key_scan key_map key;
            case found of
              None \<Rightarrow> Some (errno HSB_E_OTHERS, act)
            | Some data \<Rightarrow> do {
                p2 \<leftarrow> memcpy_u32 (act_param2 act) data (rd_data_len pdrv);
                Some (errno HSB_E_OK,
                  act\<lparr>act_param2 := p2, act_param1 := drvid, act_id := HSB_ACT_TYPE_REMOTE_CONTROL\<rparr>)
              }
          }
      })"

section \<open>What it computes\<close>

definition n9201_code :: "u32 \<Rightarrow> u8 option" where
  "n9201_code key =
     (if key < 10 then Some (0x30 + ucast key)
      else if key = HSB_REMOTE_KEY_OK then Some 0x43
      else if key = HSB_REMOTE_KEY_BACK then Some 0x42 else None)"

lemma key_scan_eq:
  "key_scan cochip_n9201_key_map key = Some (map_option (\<lambda>b. [b, 0, 0, 0]) (n9201_code key))"
proof (cases "key < 10")
  case True
  then have "unat key < 10" by (simp add: word_less_nat_alt)
  then have "unat key \<in> {0, 1, 2, 3, 4, 5, 6, 7, 8, 9}" by force
  then have "key \<in> {0, 1, 2, 3, 4, 5, 6, 7, 8, 9}"
    by (auto simp: word_unat_eq_iff)
  then show ?thesis by (auto simp: cochip_n9201_key_map_def key_entry_def n9201_code_def)
next
  case False
  then have "\<forall>k \<in> {0, 1, 2, 3, 4, 5, 6, 7, 8, 9}. key \<noteq> k" by auto
  then show ?thesis using False
    by (auto simp: cochip_n9201_key_map_def key_entry_def n9201_code_def)
qed

lemma memcpy_u32_byte:
  "memcpy_u32 old [b, 0, 0, 0] 1 = Some (of_le32 b (ucast (drop_bit 8 old)) (ucast (drop_bit 16 old))
     (ucast (drop_bit 24 old)))"
  by (simp add: memcpy_u32_def put_bytes_def GET_u32_def le32_def)

lemma remote_key_mapping_cases:
  "remote_key_mapping drvid key act =
     Some (if unat drvid \<ge> 3 then (errno HSB_E_BAD_PARAM, act)
       else if drvid \<noteq> 0 then (errno HSB_E_OK,
         act\<lparr>act_id := HSB_ACT_TYPE_REMOTE_CONTROL, act_param1 := drvid, act_param2 := key\<rparr>)
       else (case n9201_code key of
           None \<Rightarrow> (errno HSB_E_OTHERS, act)
         | Some b \<Rightarrow> (errno HSB_E_OK, act\<lparr>act_id := HSB_ACT_TYPE_REMOTE_CONTROL, act_param1 := 0,
             act_param2 := of_le32 b (ucast (drop_bit 8 (act_param2 act)))
               (ucast (drop_bit 16 (act_param2 act))) (ucast (drop_bit 24 (act_param2 act)))\<rparr>)))"
proof (cases "unat drvid < 3")
  case True
  then consider "unat drvid = 0" | "unat drvid = 1" | "unat drvid = 2" by linarith
  then show ?thesis
  proof cases
    case 1
    then have "drvid = 0" by (simp add: unat_eq_zero)
    then show ?thesis
      by (cases "n9201_code key")
        (simp_all add: remote_key_mapping_def remote_drv_def key_scan_eq memcpy_u32_byte [unfolded One_nat_def])
  next
    case 2
    then have "drvid = 1" by (simp add: word_unat_eq_iff)
    then show ?thesis by (simp add: remote_key_mapping_def remote_drv_def)
  next
    case 3
    then have "drvid = 2" by (simp add: word_unat_eq_iff)
    then show ?thesis by (simp add: remote_key_mapping_def remote_drv_def)
  qed
qed (simp add: remote_key_mapping_def remote_drv_def)

end
