(* ===== verification/Net_Codec.thy ===== *)
theory Net_Codec
  imports Box_Frame Remote_Ctl "HOL-Library.Signed_Division"
begin

text \<open>
  The packet formats of \<^verbatim>\<open>core_daemon/network.c\<close>: the validity checks of the TCP and
  UDP servers, the reply builders, the decoders of the request bodies and the notification
  encoder. A packet argument \<open>buf\<close> is the rest of the receive array from the packet on, whatever its
  contents, and \<open>len\<close> how much of it the last read filled. A read or write outside the array is
  \<^term>\<open>None\<close>; a read beyond \<open>len\<close> but inside the array is not, and
  returns stale bytes as in the code.
\<close>

section \<open>Commands (\<^verbatim>\<open>include/net_protocol.h\<close>)\<close>

abbreviation (input) HSB_CMD_BOX_DISCOVER :: u16 where "HSB_CMD_BOX_DISCOVER \<equiv> 0x8801"
abbreviation (input) HSB_CMD_BOX_DISCOVER_RESP :: u16 where "HSB_CMD_BOX_DISCOVER_RESP \<equiv> 0x8802"
abbreviation (input) HSB_CMD_GET_DEVS :: u16 where "HSB_CMD_GET_DEVS \<equiv> 0x8811"
abbreviation (input) HSB_CMD_GET_DEVS_RESP :: u16 where "HSB_CMD_GET_DEVS_RESP \<equiv> 0x8812"
abbreviation (input) HSB_CMD_GET_INFO :: u16 where "HSB_CMD_GET_INFO \<equiv> 0x8813"
abbreviation (input) HSB_CMD_GET_INFO_RESP :: u16 where "HSB_CMD_GET_INFO_RESP \<equiv> 0x8814"
abbreviation (input) HSB_CMD_GET_STATUS :: u16 where "HSB_CMD_GET_STATUS \<equiv> 0x8821"
abbreviation (input) HSB_CMD_GET_STATUS_RESP :: u16 where "HSB_CMD_GET_STATUS_RESP \<equiv> 0x8822"
abbreviation (input) HSB_CMD_SET_STATUS :: u16 where "HSB_CMD_SET_STATUS \<equiv> 0x8823"
abbreviation (input) HSB_CMD_GET_TIMER :: u16 where "HSB_CMD_GET_TIMER \<equiv> 0x8831"
abbreviation (input) HSB_CMD_GET_TIMER_RESP :: u16 where "HSB_CMD_GET_TIMER_RESP \<equiv> 0x8832"
abbreviation (input) HSB_CMD_SET_TIMER :: u16 where "HSB_CMD_SET_TIMER \<equiv> 0x8833"
abbreviation (input) HSB_CMD_DEL_TIMER :: u16 where "HSB_CMD_DEL_TIMER \<equiv> 0x8834"
abbreviation (input) HSB_CMD_GET_DELAY :: u16 where "HSB_CMD_GET_DELAY \<equiv> 0x8841"
abbreviation (input) HSB_CMD_GET_DELAY_RESP :: u16 where "HSB_CMD_GET_DELAY_RESP \<equiv> 0x8842"
abbreviation (input) HSB_CMD_SET_DELAY :: u16 where "HSB_CMD_SET_DELAY \<equiv> 0x8843"
abbreviation (input) HSB_CMD_DEL_DELAY :: u16 where "HSB_CMD_DEL_DELAY \<equiv> 0x8844"
abbreviation (input) HSB_CMD_GET_LINKAGE :: u16 where "HSB_CMD_GET_LINKAGE \<equiv> 0x8851"
abbreviation (input) HSB_CMD_GET_LINKAGE_RESP :: u16 where "HSB_CMD_GET_LINKAGE_RESP \<equiv> 0x8852"
abbreviation (input) HSB_CMD_SET_LINKAGE :: u16 where "HSB_CMD_SET_LINKAGE \<equiv> 0x8853"
abbreviation (input) HSB_CMD_DEL_LINKAGE :: u16 where "HSB_CMD_DEL_LINKAGE \<equiv> 0x8854"
abbreviation (input) HSB_CMD_PROBE_DEV :: u16 where "HSB_CMD_PROBE_DEV \<equiv> 0x8861"
abbreviation (input) HSB_CMD_EVENT :: u16 where "HSB_CMD_EVENT \<equiv> 0x8871"
abbreviation (input) HSB_CMD_DO_ACTION :: u16 where "HSB_CMD_DO_ACTION \<equiv> 0x8881"
abbreviation (input) HSB_CMD_RESULT :: u16 where "HSB_CMD_RESULT \<equiv> 0x88A1"
abbreviation (input) HSB_CMD_LAST :: u16 where "HSB_CMD_LAST \<equiv> 0x88A2"

definition HSB_CMD_VALID :: "u16 \<Rightarrow> bool" where
  "HSB_CMD_VALID x \<longleftrightarrow> HSB_CMD_BOX_DISCOVER \<le> x \<and> x < HSB_CMD_LAST"

definition UDP_CMD_VALID :: "u16 \<Rightarrow> bool" where
  "UDP_CMD_VALID x \<longleftrightarrow> x = HSB_CMD_BOX_DISCOVER \<or> x = HSB_CMD_BOX_DISCOVER_RESP"

abbreviation (input) REPLY_FAIL :: int where "REPLY_FAIL \<equiv> 0"

section \<open>Validity\<close>

definition check_tcp_pkt_valid :: "buf \<Rightarrow> int \<Rightarrow> int option" where
  "check_tcp_pkt_valid buf len = (if len \<le> 0 then Some (- 1)
     else do {
       command \<leftarrow> GET_u16 buf 0;
       length \<leftarrow> GET_u16 buf 2;
       if \<not> HSB_CMD_VALID command then Some (- 2)
       else if len < uint length then Some (- 3)
       else Some 0
     })"

definition check_udp_pkt_valid :: "buf \<Rightarrow> int \<Rightarrow> int option" where
  "check_udp_pkt_valid buf len = (if len \<le> 0 then Some (- 1)
     else do {
       command \<leftarrow> GET_u16 buf 0;
       length \<leftarrow> GET_u16 buf 2;
       if \<not> UDP_CMD_VALID command then Some (- 2)
       else if len \<noteq> uint length then Some (- 3)
       else Some 0
     })"

section \<open>Replies\<close>

definition MAKE_CMD_HDR :: "buf \<Rightarrow> u16 \<Rightarrow> int \<Rightarrow> buf option" where
  "MAKE_CMD_HDR buf cmd len = do {
     buf \<leftarrow> SET_u16 buf 0 cmd;
     SET_u16 buf 2 (of_int len)
   }"

definition reply_result :: "buf \<Rightarrow> int \<Rightarrow> (int \<times> buf) option" where
  "reply_result buf ok = do {
     buf \<leftarrow> MAKE_CMD_HDR buf HSB_CMD_RESULT 8;
     buf \<leftarrow> SET_u16 buf 4 (of_int ok);
     Some (8, buf)
   }"

definition reply_dev_id_body :: "u32 list \<Rightarrow> nat \<Rightarrow> buf \<Rightarrow> buf option" where
  "reply_dev_id_body devid i buf = do {
     v \<leftarrow> arr_get devid i;
     SET_u32 buf (4 + i * 4) v
   }"

definition reply_dev_id_list :: "buf \<Rightarrow> u32 list \<Rightarrow> nat \<Rightarrow> (int \<times> buf) option" where
  "reply_dev_id_list buf devid dev_num = do {
     let len = int dev_num * 4 + 4;
     buf \<leftarrow> MAKE_CMD_HDR buf HSB_CMD_GET_DEVS_RESP len;
     buf \<leftarrow> for_list (reply_dev_id_body devid) [0..<dev_num] buf;
     Some (len, buf)
   }"

definition reply_get_device_info :: "buf \<Rightarrow> HSB_DEV_T \<Rightarrow> (int \<times> buf) option" where
  "reply_get_device_info buf dev = do {
     buf \<leftarrow> MAKE_CMD_HDR buf HSB_CMD_GET_INFO_RESP 24;
     buf \<leftarrow> SET_u32 buf 4 (dev_id dev);
     drv \<leftarrow> dev_driver dev;
     buf \<leftarrow> SET_u32 buf 8 (drv_id drv);
     buf \<leftarrow> SET_u16 buf 12 (ucast (info_cls (dev_info dev)));
     buf \<leftarrow> SET_u16 buf 14 (ucast (info_interface (dev_info dev)));
     buf \<leftarrow> (if length (info_mac (dev_info dev)) < 6 then None
       else put_bytes buf 16 (take 6 (info_mac (dev_info dev))));
     Some (24, buf)
   }"

definition reply_get_timer :: "buf \<Rightarrow> u32 \<Rightarrow> HSB_TIMER_T \<Rightarrow> (int \<times> buf) option" where
  "reply_get_timer buf devid tm = do {
     buf \<leftarrow> MAKE_CMD_HDR buf HSB_CMD_GET_TIMER_RESP 24;
     buf \<leftarrow> SET_u32 buf 4 devid;
     buf \<leftarrow> SET_u16 buf 8 (tm_id tm);
     buf \<leftarrow> SET_u8 buf 10 (tm_work_mode tm);
     buf \<leftarrow> SET_u8 buf 11 (tm_flag tm);
     buf \<leftarrow> SET_u8 buf 12 (tm_hour tm);
     buf \<leftarrow> SET_u8 buf 13 (tm_min tm);
     buf \<leftarrow> SET_u8 buf 14 (tm_sec tm);
     buf \<leftarrow> SET_u8 buf 15 (tm_wday tm);
     buf \<leftarrow> SET_u16 buf 16 (tm_act_id tm);
     buf \<leftarrow> SET_u16 buf 18 (tm_act_param1 tm);
     buf \<leftarrow> SET_u32 buf 20 (tm_act_param2 tm);
     Some (24, buf)
   }"

definition reply_get_delay :: "buf \<Rightarrow> u32 \<Rightarrow> HSB_DELAY_T \<Rightarrow> (int \<times> buf) option" where
  "reply_get_delay buf devid delay = do {
     buf \<leftarrow> MAKE_CMD_HDR buf HSB_CMD_GET_DELAY_RESP 32;
     buf \<leftarrow> SET_u32 buf 4 devid;
     buf \<leftarrow> SET_u16 buf 8 (dl_id delay);
     buf \<leftarrow> SET_u8 buf 10 (dl_work_mode delay);
     buf \<leftarrow> SET_u8 buf 11 (dl_flag delay);
     buf \<leftarrow> SET_u16 buf 12 (dl_evt_id delay);
     buf \<leftarrow> SET_u16 buf 14 (dl_evt_param1 delay);
     buf \<leftarrow> SET_u32 buf 16 (dl_evt_param2 delay);
     buf \<leftarrow> SET_u16 buf 20 (dl_act_id delay);
     buf \<leftarrow> SET_u16 buf 22 (dl_act_param1 delay);
     buf \<leftarrow> SET_u32 buf 24 (dl_act_param2 delay);
     buf \<leftarrow> SET_u32 buf 28 (dl_delay_sec delay);
     Some (32, buf)
   }"

definition reply_get_linkage :: "buf \<Rightarrow> u32 \<Rightarrow> HSB_LINKAGE_T \<Rightarrow> (int \<times> buf) option" where
  "reply_get_linkage buf devid link = do {
     buf \<leftarrow> MAKE_CMD_HDR buf HSB_CMD_GET_LINKAGE_RESP 32;
     buf \<leftarrow> SET_u32 buf 4 devid;
     buf \<leftarrow> SET_u16 buf 8 (lk_id link);
     buf \<leftarrow> SET_u8 buf 10 (lk_work_mode link);
     buf \<leftarrow> SET_u8 buf 11 (lk_flag link);
     buf \<leftarrow> SET_u16 buf 12 (lk_evt_id link);
     buf \<leftarrow> SET_u16 buf 14 (lk_evt_param1 link);
     buf \<leftarrow> SET_u32 buf 16 (lk_evt_param2 link);
     buf \<leftarrow> SET_u32 buf 20 (lk_act_devid link);
     buf \<leftarrow> SET_u16 buf 24 (lk_act_id link);
     buf \<leftarrow> SET_u16 buf 26 (lk_act_param1 link);
     buf \<leftarrow> SET_u32 buf 28 (lk_act_param2 link);
     Some (32, buf)
   }"

definition reply_box_discover :: "buf \<Rightarrow> u16 \<Rightarrow> (int \<times> buf) option" where
  "reply_box_discover buf bid = do {
     buf \<leftarrow> MAKE_CMD_HDR buf HSB_CMD_BOX_DISCOVER_RESP 8;
     buf \<leftarrow> SET_u8 buf 4 0;
     buf \<leftarrow> SET_u8 buf 5 1;
     buf \<leftarrow> SET_u16 buf 6 bid;
     Some (8, buf)
   }"

section \<open>Request bodies\<close>

text \<open>
  \<^verbatim>\<open>_get_dev_status\<close>: the division is that of C, towards zero, so a \<open>len\<close> of 1 to 4 gives \<open>-1\<close>
  statuses, and the store to the unsigned \<^verbatim>\<open>num\<close> wraps.
\<close>

definition get_dev_status_body :: "buf \<Rightarrow> nat \<Rightarrow> HSB_STATUS_T \<Rightarrow> HSB_STATUS_T option" where
  "get_dev_status_body buf i st = do {
     v \<leftarrow> GET_u16 buf (8 + i * 4);
     ids \<leftarrow> arr_set (st_id st) i v;
     w \<leftarrow> GET_u16 buf (10 + i * 4);
     vals \<leftarrow> arr_set (st_val st) i w;
     Some (st\<lparr>st_id := ids, st_val := vals\<rparr>)
   }"

definition get_dev_status_pkt :: "buf \<Rightarrow> int \<Rightarrow> HSB_STATUS_T \<Rightarrow> HSB_STATUS_T option" where
  "get_dev_status_pkt buf len st = do {
     let total = (len - 8) sdiv 4;
     let total = (if total > 8 then 8 else total);
     st \<leftarrow> for_list (get_dev_status_body buf) [0..<nat total] st;
     Some (st\<lparr>st_num := of_int total\<rparr>)
   }"

definition get_timer_pkt :: "buf \<Rightarrow> HSB_TIMER_T option" where
  "get_timer_pkt buf = do {
     timer_id \<leftarrow> GET_u16 buf 8;
     work_mode \<leftarrow> GET_u8 buf 10;
     flag \<leftarrow> GET_u8 buf 11;
     hour \<leftarrow> GET_u8 buf 12;
     min \<leftarrow> GET_u8 buf 13;
     sec \<leftarrow> GET_u8 buf 14;
     wday \<leftarrow> GET_u8 buf 15;
     actid \<leftarrow> GET_u16 buf 16;
     param1 \<leftarrow> GET_u16 buf 18;
     param2 \<leftarrow> GET_u32 buf 20;
     Some \<lparr>tm_id = timer_id, tm_work_mode = work_mode, tm_flag = flag, tm_hour = hour, tm_min = min,
       tm_sec = sec, tm_wday = wday, tm_act_id = actid, tm_act_param1 = param1, tm_act_param2 = param2\<rparr>
   }"

definition get_delay_pkt :: "buf \<Rightarrow> HSB_DELAY_T option" where
  "get_delay_pkt buf = do {
     delay_id \<leftarrow> GET_u16 buf 8;
     work_mode \<leftarrow> GET_u8 buf 10;
     flag \<leftarrow> GET_u8 buf 11;
     evtid \<leftarrow> GET_u16 buf 12;
     evtparam1 \<leftarrow> GET_u16 buf 14;
     evtparam2 \<leftarrow> GET_u32 buf 16;
     actid \<leftarrow> GET_u16 buf 20;
     param1 \<leftarrow> GET_u16 buf 22;
     param2 \<leftarrow> GET_u32 buf 24;
     delay_sec \<leftarrow> GET_u32 buf 28;
     Some \<lparr>dl_id = delay_id, dl_work_mode = work_mode, dl_flag = flag, dl_evt_id = evtid,
       dl_evt_param1 = evtparam1, dl_evt_param2 = evtparam2, dl_act_id = actid, dl_act_param1 = param1,
       dl_act_param2 = param2, dl_delay_sec = delay_sec\<rparr>
   }"

definition get_linkage_pkt :: "buf \<Rightarrow> HSB_LINKAGE_T option" where
  "get_linkage_pkt buf = do {
     link_id \<leftarrow> GET_u16 buf 8;
     work_mode \<leftarrow> GET_u8 buf 10;
     flag \<leftarrow> GET_u8 buf 11;
     evtid \<leftarrow> GET_u16 buf 12;
     evtparam1 \<leftarrow> GET_u16 buf 14;
     evtparam2 \<leftarrow> GET_u32 buf 16;
     actdev \<leftarrow> GET_u32 buf 20;
     actid \<leftarrow> GET_u16 buf 24;
     param1 \<leftarrow> GET_u16 buf 26;
     param2 \<leftarrow> GET_u32 buf 28;
     Some \<lparr>lk_id = link_id, lk_work_mode = work_mode, lk_flag = flag, lk_evt_id = evtid,
       lk_evt_param1 = evtparam1, lk_evt_param2 = evtparam2, lk_act_devid = actdev, lk_act_id = actid,
       lk_act_param1 = param1, lk_act_param2 = param2\<rparr>
   }"

section \<open>Notifications\<close>

definition notify_status_body :: "HSB_STATUS_T \<Rightarrow> nat \<Rightarrow> buf \<Rightarrow> buf option" where
  "notify_status_body st i buf = do {
     v \<leftarrow> arr_get (st_id st) i;
     buf \<leftarrow> SET_u16 buf (8 + 4 * i) v;
     w \<leftarrow> arr_get (st_val st) i;
     SET_u16 buf (10 + 4 * i) w
   }"

definition make_notify_resp :: "buf \<Rightarrow> HSB_RESP_T \<Rightarrow> (int \<times> buf) option" where
  "make_notify_resp buf resp = (case resp of
      HSB_RESP_TYPE_EVENT r e \<Rightarrow> do {
        buf \<leftarrow> MAKE_CMD_HDR buf HSB_CMD_EVENT 16;
        buf \<leftarrow> SET_u32 buf 4 (evt_devid e);
        buf \<leftarrow> SET_u16 buf 8 (evt_id e);
        buf \<leftarrow> SET_u16 buf 10 (evt_param1 e);
        buf \<leftarrow> SET_u32 buf 12 (evt_param2 e);
        Some (16, buf)
      }
    | HSB_RESP_TYPE_RESULT r v \<Rightarrow> do {
        buf \<leftarrow> MAKE_CMD_HDR buf HSB_CMD_RESULT 8;
        buf \<leftarrow> SET_u16 buf 4 (of_int v);
        Some (8, buf)
      }
    | HSB_RESP_TYPE_STATUS r st \<Rightarrow> do {
        let len = sint (8 + st_num st * 4);
        buf \<leftarrow> MAKE_CMD_HDR buf HSB_CMD_GET_STATUS_RESP len;
        buf \<leftarrow> SET_u32 buf 4 (st_devid st);
        buf \<leftarrow> for_list (notify_status_body st) [0..<unat (st_num st)] buf;
        Some (len, buf)
      })"

section \<open>What the replies look like\<close>

definition hdr :: "u16 \<Rightarrow> nat \<Rightarrow> buf" where
  "hdr cmd len = le16 cmd @ le16 (of_nat len)"

lemma length_hdr [simp]: "length (hdr cmd len) = 4"
  by (simp add: hdr_def)

lemma MAKE_CMD_HDR_fill [simp]: "4 \<le> n \<Longrightarrow> MAKE_CMD_HDR (fill n []) cmd (int len) = Some (fill n (hdr cmd len))"
  by (simp add: MAKE_CMD_HDR_def hdr_def del: SET_u16_start)

lemmas MAKE_CMD_HDR_numeral [simp] = MAKE_CMD_HDR_fill [of _ _ "numeral k" for k, unfolded of_nat_numeral]

definition result_frame :: "int \<Rightarrow> buf" where
  "result_frame v = hdr HSB_CMD_RESULT 8 @ le16 (of_int v) @ [0, 0]"

lemma fill_pad: "length p + k \<le> n \<Longrightarrow> fill n (p @ replicate k 0) = fill n p"
  by (simp add: fill_def replicate_add [symmetric])

lemma fill_pad2: "length p + 2 \<le> n \<Longrightarrow> fill n (p @ [0, 0]) = fill n p"
  using fill_pad [of p 2 n] by (simp add: numeral_eq_Suc)

lemma reply_result_eq:
  assumes "8 \<le> n"
  shows "reply_result (fill n []) v = Some (8, fill n (result_frame v))"
proof -
  have "fill n (result_frame v) = fill n (hdr HSB_CMD_RESULT 8 @ le16 (of_int v))"
    using fill_pad2 [of "hdr HSB_CMD_RESULT 8 @ le16 (of_int v)" n] assms by (simp add: result_frame_def)
  then show ?thesis using assms by (simp add: reply_result_def)
qed

definition devs_frame :: "u32 list \<Rightarrow> buf" where
  "devs_frame ids = hdr HSB_CMD_GET_DEVS_RESP (4 + 4 * length ids) @ concat (map le32 ids)"

lemma length_le32s [simp]: "length (concat (map le32 ids)) = 4 * length ids"
  by (induction ids) simp_all

lemma reply_dev_id_loop:
  assumes "k \<le> length ids" and "4 + 4 * k \<le> n" and "length p = 4"
  shows "for_list (reply_dev_id_body ids) [0..<k] (fill n p) = Some (fill n (p @ concat (map le32 (take k ids))))"
  using assms(1,2)
proof (induction k)
  case (Suc k)
  have "reply_dev_id_body ids k (fill n (p @ concat (map le32 (take k ids)))) =
      Some (fill n (p @ concat (map le32 (take (Suc k) ids))))"
    using Suc.prems assms(3) by (simp add: reply_dev_id_body_def take_Suc_conv_app_nth)
  with Suc show ?case by (simp add: for_list_append)
qed simp

lemma reply_dev_id_list_eq:
  assumes "k \<le> length ids" and "4 + 4 * k \<le> n"
  shows "reply_dev_id_list (fill n []) ids k = Some (int (4 + 4 * k), fill n (devs_frame (take k ids)))"
proof -
  have l: "int k * 4 + 4 = int (4 + 4 * k)" by simp
  show ?thesis
    using assms reply_dev_id_loop [OF assms, of "hdr HSB_CMD_GET_DEVS_RESP (4 + 4 * k)"]
    unfolding reply_dev_id_list_def l by (simp add: devs_frame_def min_def del: of_nat_add of_nat_mult)
qed

definition info_frame :: "HSB_DEV_T \<Rightarrow> HSB_DEV_DRV_T \<Rightarrow> buf" where
  "info_frame dev drv = hdr HSB_CMD_GET_INFO_RESP 24 @ le32 (dev_id dev) @ le32 (drv_id drv) @
     le16 (ucast (info_cls (dev_info dev))) @ le16 (ucast (info_interface (dev_info dev))) @
     take 6 (info_mac (dev_info dev)) @ [0, 0]"

lemma reply_get_device_info_eq:
  assumes "24 \<le> n" and "dev_driver dev = Some drv" and "length (info_mac (dev_info dev)) = 8"
  shows "reply_get_device_info (fill n []) dev = Some (24, fill n (info_frame dev drv))"
proof -
  let ?p = "hdr HSB_CMD_GET_INFO_RESP 24 @ le32 (dev_id dev) @ le32 (drv_id drv) @
     le16 (ucast (info_cls (dev_info dev))) @ le16 (ucast (info_interface (dev_info dev))) @
     take 6 (info_mac (dev_info dev))"
  have "fill n (info_frame dev drv) = fill n ?p"
    using fill_pad2 [of ?p n] assms(1,3) by (simp add: info_frame_def)
  then show ?thesis using assms by (simp add: reply_get_device_info_def put_bytes_fill)
qed

section \<open>Slot packets\<close>

text \<open>
  The reply to a GET of a slot and the body of a SET carry the same bytes: what a
  client reads back it can send again under another command.
\<close>

definition timer_body_bytes :: "u32 \<Rightarrow> HSB_TIMER_T \<Rightarrow> buf" where
  "timer_body_bytes devid tm = le32 devid @ le16 (tm_id tm) @
     [tm_work_mode tm, tm_flag tm, tm_hour tm, tm_min tm, tm_sec tm, tm_wday tm] @
     le16 (tm_act_id tm) @ le16 (tm_act_param1 tm) @ le32 (tm_act_param2 tm)"

definition delay_body_bytes :: "u32 \<Rightarrow> HSB_DELAY_T \<Rightarrow> buf" where
  "delay_body_bytes devid d = le32 devid @ le16 (dl_id d) @ [dl_work_mode d, dl_flag d] @
     le16 (dl_evt_id d) @ le16 (dl_evt_param1 d) @ le32 (dl_evt_param2 d) @
     le16 (dl_act_id d) @ le16 (dl_act_param1 d) @ le32 (dl_act_param2 d) @ le32 (dl_delay_sec d)"

definition linkage_body_bytes :: "u32 \<Rightarrow> HSB_LINKAGE_T \<Rightarrow> buf" where
  "linkage_body_bytes devid k = le32 devid @ le16 (lk_id k) @ [lk_work_mode k, lk_flag k] @
     le16 (lk_evt_id k) @ le16 (lk_evt_param1 k) @ le32 (lk_evt_param2 k) @
     le32 (lk_act_devid k) @ le16 (lk_act_id k) @ le16 (lk_act_param1 k) @ le32 (lk_act_param2 k)"

locale slot_codec =
  fixes reply :: "buf \<Rightarrow> u32 \<Rightarrow> 'v \<Rightarrow> (int \<times> buf) option"
    and decode :: "buf \<Rightarrow> 'v option"
    and body :: "u32 \<Rightarrow> 'v \<Rightarrow> buf"
    and cmd :: u16
    and size :: nat
  assumes body_length: "length (body devid v) + 4 = size"
    and reply_body: "size \<le> n \<Longrightarrow> reply (fill n []) devid v = Some (int size, fill n (hdr cmd size @ body devid v))"
    and decode_body: "length h = 4 \<Longrightarrow> decode (h @ body devid v @ rest) = Some v"
begin

lemma reply_take:
  assumes "size \<le> n"
  shows "runs (reply (replicate n 0) devid v) (\<lambda>(len, b). take (nat len) b = hdr cmd size @ body devid v)"
proof -
  have "length (hdr cmd size @ body devid v) = size" using body_length [of devid v] by simp
  then have "take size (fill n (hdr cmd size @ body devid v)) = hdr cmd size @ body devid v"
    using assms take_fill [of "hdr cmd size @ body devid v" size n] by simp
  with reply_body [OF assms] show ?thesis by (simp add: replicate_fill)
qed

lemma reply_decode:
  assumes "size \<le> n" and "length h = 4"
  shows "runs (reply (replicate n 0) devid v) (\<lambda>(len, b). decode (h @ drop 4 (take (nat len) b) @ rest) = Some v)"
  using reply_take [OF assms(1), of devid v] by (rule runs_mono) (auto simp: decode_body [OF assms(2)])

end

lemma four_bytes: "length h = 4 \<Longrightarrow> \<exists>a b c d. h = [a, b, c, d]"
  by (auto simp: numeral_eq_Suc length_Suc_conv)

interpretation timer_codec: slot_codec reply_get_timer get_timer_pkt timer_body_bytes HSB_CMD_GET_TIMER_RESP 24
proof unfold_locales
  show "get_timer_pkt (h @ timer_body_bytes devid v @ rest) = Some v" if "length h = 4" for h devid v rest
    using four_bytes [OF that]
    by (auto simp: get_timer_pkt_def timer_body_bytes_def GET_u8_def GET_u16_def GET_u32_def le16_def le32_def)
qed (simp_all add: reply_get_timer_def timer_body_bytes_def)

interpretation delay_codec: slot_codec reply_get_delay get_delay_pkt delay_body_bytes HSB_CMD_GET_DELAY_RESP 32
proof unfold_locales
  show "get_delay_pkt (h @ delay_body_bytes devid v @ rest) = Some v" if "length h = 4" for h devid v rest
    using four_bytes [OF that]
    by (auto simp: get_delay_pkt_def delay_body_bytes_def GET_u8_def GET_u16_def GET_u32_def le16_def le32_def)
qed (simp_all add: reply_get_delay_def delay_body_bytes_def)

interpretation linkage_codec: slot_codec reply_get_linkage get_linkage_pkt linkage_body_bytes HSB_CMD_GET_LINKAGE_RESP 32
proof unfold_locales
  show "get_linkage_pkt (h @ linkage_body_bytes devid v @ rest) = Some v" if "length h = 4" for h devid v rest
    using four_bytes [OF that]
    by (auto simp: get_linkage_pkt_def linkage_body_bytes_def GET_u8_def GET_u16_def GET_u32_def le16_def le32_def)
qed (simp_all add: reply_get_linkage_def linkage_body_bytes_def)

section \<open>What the notifications look like\<close>

definition notify_frame :: "HSB_RESP_T \<Rightarrow> buf" where
  "notify_frame m = (case m of
      HSB_RESP_TYPE_EVENT r e \<Rightarrow> hdr HSB_CMD_EVENT 16 @ le32 (evt_devid e) @ le16 (evt_id e) @
        le16 (evt_param1 e) @ le32 (evt_param2 e)
    | HSB_RESP_TYPE_RESULT r v \<Rightarrow> result_frame v
    | HSB_RESP_TYPE_STATUS r st \<Rightarrow> hdr HSB_CMD_GET_STATUS_RESP (8 + 4 * unat (st_num st)) @
        le32 (st_devid st) @ status_bytes st (unat (st_num st)))"

lemma notify_status_body_put: "notify_status_body st = put_status_body st 4"
  by (simp add: fun_eq_iff notify_status_body_def put_status_body_def mult.commute)

lemma status_len:
  assumes "unat (n :: u32) \<le> 8"
  shows "sint (8 + n * 4) = int (8 + 4 * unat n)"
proof -
  have "unat (8 + n * 4) = 8 + 4 * unat n" using assms by (simp add: unat_word_ariths)
  then have u: "uint (8 + n * 4) = int (8 + 4 * unat n)" by (metis uint_nat)
  have "signed_take_bit 31 (int (8 + 4 * k)) = int (8 + 4 * k)" if "k \<le> 8" for k
    using that by (intro signed_take_bit_int_eq_self) simp_all
  from this [OF assms] show ?thesis by (simp add: sint_uint u del: of_nat_add of_nat_mult)
qed

lemma make_notify_resp_eq:
  assumes "resp_ok m" and "64 \<le> n"
  shows "make_notify_resp (fill n []) m = Some (int (length (notify_frame m)), fill n (notify_frame m))"
proof (cases m)
  case (HSB_RESP_TYPE_RESULT r v)
  have "fill n (result_frame v) = fill n (hdr HSB_CMD_RESULT 8 @ le16 (of_int v))"
    using fill_pad2 [of "hdr HSB_CMD_RESULT 8 @ le16 (of_int v)" n] assms by (simp add: result_frame_def)
  then show ?thesis using assms HSB_RESP_TYPE_RESULT by (simp add: make_notify_resp_def notify_frame_def)
    (simp add: result_frame_def)
next
  case (HSB_RESP_TYPE_EVENT r e)
  then show ?thesis using assms by (simp add: make_notify_resp_def notify_frame_def)
next
  case (HSB_RESP_TYPE_STATUS r st)
  let ?k = "unat (st_num st)" and ?h = "hdr HSB_CMD_GET_STATUS_RESP (8 + 4 * unat (st_num st)) @ le32 (st_devid st)"
  from HSB_RESP_TYPE_STATUS assms have sh: "status_shape st" "?k \<le> 8" by simp_all
  from put_status_loop [OF sh(1,2), of ?h 4 "replicate n 0"] assms(2) sh(2)
  have l: "for_list (notify_status_body st) [0..<?k] (fill n ?h) = Some (fill n (?h @ status_bytes st ?k))"
    by (simp add: notify_status_body_put fill_front)
  have h: "MAKE_CMD_HDR (fill n []) HSB_CMD_GET_STATUS_RESP (int (8 + 4 * ?k)) =
      Some (fill n (hdr HSB_CMD_GET_STATUS_RESP (8 + 4 * ?k)))" using assms(2) by (intro MAKE_CMD_HDR_fill) simp
  show ?thesis using assms(2) l h HSB_RESP_TYPE_STATUS
    by (simp add: make_notify_resp_def notify_frame_def status_len [OF sh(2)] del: of_nat_add of_nat_mult)
qed


section \<open>Headers and fields of a packet that is complete\<close>

lemma GET_u16_hdr [simp]:
  "GET_u16 (hdr cmd len @ r) 0 = Some cmd" "GET_u16 (hdr cmd len @ r) 2 = Some (of_nat len)"
  by (simp_all add: GET_u16_def hdr_def le16_def)

lemma check_tcp_pkt_valid_hdr:
  "check_tcp_pkt_valid (hdr cmd l @ r) len = Some (if len \<le> 0 then - 1 else if \<not> HSB_CMD_VALID cmd then - 2
     else if len < uint (of_nat l :: u16) then - 3 else 0)"
  by (simp add: check_tcp_pkt_valid_def)

text \<open>Where the buffer has four bytes, the checks never read outside it.\<close>

lemma check_tcp_pkt_valid_runs: "4 \<le> length b \<Longrightarrow> \<exists>r. check_tcp_pkt_valid b len = Some r"
  by (simp add: check_tcp_pkt_valid_def GET_u16_def)

text \<open>Status lists: the number of entries by the length.\<close>

lemma get_dev_status_loop:
  assumes "status_shape st" and "k \<le> 8" and "8 + 4 * k \<le> length b"
  shows "runs (for_list (get_dev_status_body b) [0..<k] st) (\<lambda>t. status_shape t \<and> st_devid t = st_devid st \<and>
    (\<forall>i < k. GET_u16 b (8 + i * 4) = Some (st_id t ! i) \<and> GET_u16 b (10 + i * 4) = Some (st_val t ! i)))"
  using assms(2,3)
proof (induction k)
  case (Suc k)
  then have "runs (for_list (get_dev_status_body b) [0..<k] st) (\<lambda>t. status_shape t \<and> st_devid t = st_devid st \<and>
    (\<forall>i < k. GET_u16 b (8 + i * 4) = Some (st_id t ! i) \<and> GET_u16 b (10 + i * 4) = Some (st_val t ! i)))" by simp
  then obtain t where t: "for_list (get_dev_status_body b) [0..<k] st = Some t" and P: "status_shape t"
    "st_devid t = st_devid st" "\<forall>i < k. GET_u16 b (8 + i * 4) = Some (st_id t ! i) \<and> GET_u16 b (10 + i * 4) = Some (st_val t ! i)"
    by (rule runsE) blast
  from Suc.prems f16.get_defined [of b "8 + k * 4"] f16.get_defined [of b "10 + k * 4"] obtain v w where
    v: "GET_u16 b (8 + k * 4) = Some v" "GET_u16 b (10 + k * 4) = Some w" by auto
  have b: "get_dev_status_body b k t = Some (t\<lparr>st_id := (st_id t)[k := v], st_val := (st_val t)[k := w]\<rparr>)"
    using v P(1) Suc.prems by (simp add: get_dev_status_body_def status_shape_def)
  show ?case using t P v b Suc.prems(1) by (auto simp: for_list_append status_shape_def nth_list_update less_Suc_eq)
qed (use assms in simp)

lemma sdiv_4: "0 \<le> a \<Longrightarrow> a sdiv 4 = a div (4 :: int)"
  by (cases "a = 0") (simp_all add: signed_divide_int_def)

lemma get_dev_status_pkt_ok:
  assumes "status_shape st" and "8 \<le> len" and "nat len \<le> length b"
  shows "runs (get_dev_status_pkt b len st) (\<lambda>t. status_shape t \<and> st_devid t = st_devid st \<and>
    unat (st_num t) = min 8 ((nat len - 8) div 4) \<and>
    (\<forall>i < unat (st_num t). GET_u16 b (8 + i * 4) = Some (st_id t ! i) \<and> GET_u16 b (10 + i * 4) = Some (st_val t ! i)))"
proof -
  define k where "k = min 8 ((nat len - 8) div 4)"
  have q: "(len - 8) sdiv 4 = int ((nat len - 8) div 4)" using assms(2) by (simp add: sdiv_4 nat_diff_distrib zdiv_int)
  have tot: "(if int ((nat len - 8) div 4) > 8 then 8 else int ((nat len - 8) div 4)) = int k" by (simp add: k_def)
  have k: "k \<le> 8" by (simp add: k_def)
  then have u: "unat (of_nat k :: u32) = k" by (simp add: unat_of_nat)
  have "4 * k \<le> nat len - 8" unfolding k_def by linarith
  moreover have "8 \<le> nat len" using assms(2) by simp
  ultimately have "8 + 4 * k \<le> length b" using assms(3) by linarith
  from get_dev_status_loop [OF assms(1) k this] show ?thesis
    unfolding get_dev_status_pkt_def q Let_def tot k_def [symmetric]
    by (auto simp: u status_shape_def elim!: runs_mono)
qed

end
