(* ===== verification/Net_Server.thy ===== *)
theory Net_Server
  imports Net_Codec
begin

text \<open>
  The packet handlers of \<^verbatim>\<open>core_daemon/network.c\<close>. \<^verbatim>\<open>deal_tcp_packet\<close> is split into one
  definition per \<^verbatim>\<open>case\<close> of its \<^verbatim>\<open>switch\<close>; each returns the length of the reply and the reply
  buffer, \<^verbatim>\<open>reply\<close> is the context of the client (an index into the pool), and
  \<open>sent\<close> logs the buffers handed to the write calls.
\<close>

section \<open>The cases of \<^verbatim>\<open>deal_tcp_packet\<close>\<close>

text \<open>
  \<^verbatim>\<open>dev_id[128]\<close> is uninitialised, but only the entries \<^verbatim>\<open>get_dev_id_list\<close> has written are read;
  the same holds for the local \<^verbatim>\<open>HSB_DEV_T dev\<close>.
\<close>

definition tcp_get_devs :: "buf \<Rightarrow> box \<Rightarrow> (int \<times> buf \<times> box) option" where
  "tcp_get_devs reply_buf s = do {
     (ret, devid, dev_num, s) \<leftarrow> get_dev_id_list s (replicate 128 0);
     (rlen, reply_buf) \<leftarrow> (if ret \<noteq> errno HSB_E_OK then reply_result reply_buf ret
       else reply_dev_id_list reply_buf devid dev_num);
     Some (rlen, reply_buf, s)
   }"

definition tcp_get_info :: "buf \<Rightarrow> buf \<Rightarrow> box \<Rightarrow> (int \<times> buf \<times> box) option" where
  "tcp_get_info buf reply_buf s = do {
     devid \<leftarrow> GET_u32 buf 4;
     (ret, dev, s) \<leftarrow> get_dev_info s devid zero_dev;
     (rlen, reply_buf) \<leftarrow> (if ret \<noteq> errno HSB_E_OK then reply_result reply_buf ret
       else reply_get_device_info reply_buf dev);
     Some (rlen, reply_buf, s)
   }"

definition tcp_get_status :: "buf \<Rightarrow> reply \<Rightarrow> buf \<Rightarrow> box \<Rightarrow> (int \<times> buf \<times> box) option" where
  "tcp_get_status buf reply reply_buf s = do {
     devid \<leftarrow> GET_u32 buf 4;
     (ret, s) \<leftarrow> get_dev_status_async s devid reply;
     Some (0, reply_buf, s)
   }"

definition tcp_set_status :: "buf \<Rightarrow> int \<Rightarrow> reply \<Rightarrow> buf \<Rightarrow> box \<Rightarrow> (int \<times> buf \<times> box) option" where
  "tcp_set_status buf len reply reply_buf s = do {
     devid \<leftarrow> GET_u32 buf 4;
     status \<leftarrow> get_dev_status_pkt buf len (zero_status\<lparr>st_devid := devid\<rparr>);
     (ret, s) \<leftarrow> set_dev_status_async s status reply;
     Some (0, reply_buf, s)
   }"

definition tcp_get_timer :: "buf \<Rightarrow> buf \<Rightarrow> box \<Rightarrow> (int \<times> buf \<times> box) option" where
  "tcp_get_timer buf reply_buf s = do {
     devid \<leftarrow> GET_u32 buf 4;
     timer_id \<leftarrow> GET_u16 buf 8;
     (ret, tm) \<leftarrow> get_dev_timer s devid timer_id zero_timer;
     (rlen, reply_buf) \<leftarrow> (if ret \<noteq> errno HSB_E_OK then reply_result reply_buf ret
       else reply_get_timer reply_buf devid tm);
     Some (rlen, reply_buf, s)
   }"

definition tcp_set_timer :: "buf \<Rightarrow> buf \<Rightarrow> box \<Rightarrow> (int \<times> buf \<times> box) option" where
  "tcp_set_timer buf reply_buf s = do {
     devid \<leftarrow> GET_u32 buf 4;
     tm \<leftarrow> get_timer_pkt buf;
     (ret, s) \<leftarrow> set_dev_timer s devid tm;
     (rlen, reply_buf) \<leftarrow> reply_result reply_buf ret;
     Some (rlen, reply_buf, s)
   }"

definition tcp_del_timer :: "buf \<Rightarrow> buf \<Rightarrow> box \<Rightarrow> (int \<times> buf \<times> box) option" where
  "tcp_del_timer buf reply_buf s = do {
     devid \<leftarrow> GET_u32 buf 4;
     timer_id \<leftarrow> GET_u16 buf 8;
     (ret, s) \<leftarrow> del_dev_timer s devid timer_id;
     (rlen, reply_buf) \<leftarrow> reply_result reply_buf ret;
     Some (rlen, reply_buf, s)
   }"

definition tcp_get_delay :: "buf \<Rightarrow> buf \<Rightarrow> box \<Rightarrow> (int \<times> buf \<times> box) option" where
  "tcp_get_delay buf reply_buf s = do {
     devid \<leftarrow> GET_u32 buf 4;
     delay_id \<leftarrow> GET_u16 buf 8;
     (ret, delay) \<leftarrow> get_dev_delay s devid delay_id zero_delay;
     (rlen, reply_buf) \<leftarrow> (if ret \<noteq> errno HSB_E_OK then reply_result reply_buf ret
       else reply_get_delay reply_buf devid delay);
     Some (rlen, reply_buf, s)
   }"

definition tcp_set_delay :: "buf \<Rightarrow> buf \<Rightarrow> box \<Rightarrow> (int \<times> buf \<times> box) option" where
  "tcp_set_delay buf reply_buf s = do {
     devid \<leftarrow> GET_u32 buf 4;
     delay \<leftarrow> get_delay_pkt buf;
     (ret, s) \<leftarrow> set_dev_delay s devid delay;
     (rlen, reply_buf) \<leftarrow> reply_result reply_buf ret;
     Some (rlen, reply_buf, s)
   }"

definition tcp_del_delay :: "buf \<Rightarrow> buf \<Rightarrow> box \<Rightarrow> (int \<times> buf \<times> box) option" where
  "tcp_del_delay buf reply_buf s = do {
     devid \<leftarrow> GET_u32 buf 4;
     delay_id \<leftarrow> GET_u16 buf 8;
     (ret, s) \<leftarrow> del_dev_delay s devid delay_id;
     (rlen, reply_buf) \<leftarrow> reply_result reply_buf ret;
     Some (rlen, reply_buf, s)
   }"

definition tcp_get_linkage :: "buf \<Rightarrow> buf \<Rightarrow> box \<Rightarrow> (int \<times> buf \<times> box) option" where
  "tcp_get_linkage buf reply_buf s = do {
     devid \<leftarrow> GET_u32 buf 4;
     link_id \<leftarrow> GET_u16 buf 8;
     (ret, link) \<leftarrow> get_dev_linkage s devid link_id zero_linkage;
     (rlen, reply_buf) \<leftarrow> (if ret \<noteq> errno HSB_E_OK then reply_result reply_buf ret
       else reply_get_linkage reply_buf devid link);
     Some (rlen, reply_buf, s)
   }"

definition tcp_set_linkage :: "buf \<Rightarrow> buf \<Rightarrow> box \<Rightarrow> (int \<times> buf \<times> box) option" where
  "tcp_set_linkage buf reply_buf s = do {
     devid \<leftarrow> GET_u32 buf 4;
     link \<leftarrow> get_linkage_pkt buf;
     (ret, s) \<leftarrow> set_dev_linkage s devid link;
     (rlen, reply_buf) \<leftarrow> reply_result reply_buf ret;
     Some (rlen, reply_buf, s)
   }"

definition tcp_del_linkage :: "buf \<Rightarrow> buf \<Rightarrow> box \<Rightarrow> (int \<times> buf \<times> box) option" where
  "tcp_del_linkage buf reply_buf s = do {
     devid \<leftarrow> GET_u32 buf 4;
     link_id \<leftarrow> GET_u16 buf 8;
     (ret, s) \<leftarrow> del_dev_linkage s devid link_id;
     (rlen, reply_buf) \<leftarrow> reply_result reply_buf ret;
     Some (rlen, reply_buf, s)
   }"

definition tcp_do_action :: "buf \<Rightarrow> reply \<Rightarrow> buf \<Rightarrow> box \<Rightarrow> (int \<times> buf \<times> box) option" where
  "tcp_do_action buf reply reply_buf s = do {
     devid \<leftarrow> GET_u32 buf 4;
     actid \<leftarrow> GET_u16 buf 8;
     param1 \<leftarrow> GET_u16 buf 10;
     param2 \<leftarrow> GET_u32 buf 12;
     let act = \<lparr>act_devid = devid, act_id = 0, act_param1 = 0, act_param2 = 0\<rparr>;
     (ret, act) \<leftarrow> (if actid = HSB_ACT_TYPE_REMOTE_CONTROL then remote_key_mapping param1 param2 act
       else Some (errno HSB_E_OK, act\<lparr>act_id := actid, act_param1 := param1, act_param2 := param2\<rparr>));
     if ret \<noteq> errno HSB_E_OK then do {
       (rlen, reply_buf) \<leftarrow> reply_result reply_buf ret;
       Some (rlen, reply_buf, s)
     } else do {
       (ret, s) \<leftarrow> set_dev_action_async s act reply;
       Some (0, reply_buf, s)
     }
   }"

definition tcp_probe_dev :: "buf \<Rightarrow> reply \<Rightarrow> buf \<Rightarrow> box \<Rightarrow> (int \<times> buf \<times> box) option" where
  "tcp_probe_dev buf reply reply_buf s = do {
     type \<leftarrow> GET_u16 buf 4;
     (ret, s) \<leftarrow> probe_dev_async s \<lparr>probe_drvid = ucast type\<rparr> reply;
     Some (0, reply_buf, s)
   }"

definition tcp_switch :: "u16 \<Rightarrow> buf \<Rightarrow> int \<Rightarrow> reply \<Rightarrow> buf \<Rightarrow> box \<Rightarrow> (int \<times> buf \<times> box) option" where
  "tcp_switch cmd buf len reply reply_buf s =
     (if cmd = HSB_CMD_GET_DEVS then tcp_get_devs reply_buf s
      else if cmd = HSB_CMD_GET_INFO then tcp_get_info buf reply_buf s
      else if cmd = HSB_CMD_GET_STATUS then tcp_get_status buf reply reply_buf s
      else if cmd = HSB_CMD_SET_STATUS then tcp_set_status buf len reply reply_buf s
      else if cmd = HSB_CMD_GET_TIMER then tcp_get_timer buf reply_buf s
      else if cmd = HSB_CMD_SET_TIMER then tcp_set_timer buf reply_buf s
      else if cmd = HSB_CMD_DEL_TIMER then tcp_del_timer buf reply_buf s
      else if cmd = HSB_CMD_GET_DELAY then tcp_get_delay buf reply_buf s
      else if cmd = HSB_CMD_SET_DELAY then tcp_set_delay buf reply_buf s
      else if cmd = HSB_CMD_DEL_DELAY then tcp_del_delay buf reply_buf s
      else if cmd = HSB_CMD_GET_LINKAGE then tcp_get_linkage buf reply_buf s
      else if cmd = HSB_CMD_SET_LINKAGE then tcp_set_linkage buf reply_buf s
      else if cmd = HSB_CMD_DEL_LINKAGE then tcp_del_linkage buf reply_buf s
      else if cmd = HSB_CMD_DO_ACTION then tcp_do_action buf reply reply_buf s
      else if cmd = HSB_CMD_PROBE_DEV then tcp_probe_dev buf reply reply_buf s
      else do {
        (rlen, reply_buf) \<leftarrow> reply_result reply_buf REPLY_FAIL;
        Some (rlen, reply_buf, s)
      })"

text \<open>
  Writing a prefix of a buffer; a length beyond the buffer would send what lies behind it. \<open>sent\<close> records the buffers handed to
  \<^verbatim>\<open>write_timeout\<close>. How much of one arrives is not recorded: \<^verbatim>\<open>deal_tcp_packet\<close> ignores the result, so a partial or failed write
  changes nothing else.
\<close>

definition write_buf :: "int \<Rightarrow> buf \<Rightarrow> int \<Rightarrow> box \<Rightarrow> box option" where
  "write_buf fd buf len s =
     (if int (length buf) < len then None else Some (send_out s (TCP_WRITE fd (take (nat len) buf))))"

text \<open>The results are the return value, \<^verbatim>\<open>*used\<close> and the state.\<close>

definition deal_tcp_packet :: "int \<Rightarrow> buf \<Rightarrow> int \<Rightarrow> reply \<Rightarrow> box \<Rightarrow> (int \<times> int \<times> box) option" where
  "deal_tcp_packet fd buf len reply s = do {
     v \<leftarrow> check_tcp_pkt_valid buf len;
     if v \<noteq> 0 then Some (- 1, len, s)
     else do {
       cmd \<leftarrow> GET_u16 buf 0;
       cmdlen \<leftarrow> GET_u16 buf 2;
       let reply_buf = replicate 1024 0;
       let used = uint cmdlen;
       (rlen, reply_buf, s) \<leftarrow> tcp_switch cmd buf len reply reply_buf s;
       if rlen < 0 then Some (- 2, used, s)
       else if rlen > 0 then do {
         s \<leftarrow> write_buf fd reply_buf rlen s;
         Some (0, used, s)
       }
       else Some (0, used, s)
     }
   }"

section \<open>UDP\<close>

definition deal_udp_packet :: "buf \<Rightarrow> int \<Rightarrow> box \<Rightarrow> (int \<times> box) option" where
  "deal_udp_packet buf len s = do {
     v \<leftarrow> check_udp_pkt_valid buf len;
     if v \<noteq> 0 then Some (- 1, s)
     else do {
       cmd \<leftarrow> GET_u16 buf 0;
       let reply_buf = replicate 32 0;
       (rlen, reply_buf) \<leftarrow> (if cmd = HSB_CMD_BOX_DISCOVER then do {
           uid \<leftarrow> GET_u16 buf 6;
           reply_box_discover reply_buf 1
         } else Some (0, reply_buf));
       if rlen > 0 then Some (0, send_out s (UDP_REPLY (take (nat rlen) reply_buf)))
       else Some (0, s)
     }
   }"

section \<open>The cases, in terms of what they answer\<close>

abbreviation (input) blank :: buf where "blank \<equiv> fill 1024 []"

lemma length_result_frame [simp]: "length (result_frame v) = 8"
  by (simp add: result_frame_def)

lemma reply_result_blank [simp]: "reply_result blank v = Some (8, fill 1024 (result_frame v))"
  by (rule reply_result_eq) simp

text \<open>The slots of the devices and the packets that carry them, together.\<close>

locale slot_service = slot_store set_slot get_slot del_slot vid ok fits slot + slot_codec reply decode body cmd size
  for set_slot :: "'s \<Rightarrow> u32 \<Rightarrow> 'v \<Rightarrow> (int \<times> 's) option"
    and get_slot :: "'s \<Rightarrow> u32 \<Rightarrow> u16 \<Rightarrow> 'v \<Rightarrow> (int \<times> 'v) option"
    and del_slot :: "'s \<Rightarrow> u32 \<Rightarrow> u16 \<Rightarrow> (int \<times> 's) option"
    and vid :: "'v \<Rightarrow> u16" and ok :: "'s \<Rightarrow> bool" and fits :: "'s \<Rightarrow> u32 \<Rightarrow> u16 \<Rightarrow> bool"
    and slot :: "'s \<Rightarrow> u32 \<Rightarrow> u16 \<Rightarrow> 'v option"
    and reply :: "buf \<Rightarrow> u32 \<Rightarrow> 'v \<Rightarrow> (int \<times> buf) option" and decode :: "buf \<Rightarrow> 'v option"
    and body :: "u32 \<Rightarrow> 'v \<Rightarrow> buf" and cmd :: u16 and size :: nat +
  assumes size_fits: "size \<le> 1024"
begin

definition answer :: "'s \<Rightarrow> u32 \<Rightarrow> u16 \<Rightarrow> buf" where
  "answer s devid i = (case slot s devid i of None \<Rightarrow> result_frame (errno HSB_E_BAD_PARAM)
     | Some v \<Rightarrow> hdr cmd size @ body devid v)"

lemma length_answer: "length (answer s devid i) \<le> 1024"
proof (cases "slot s devid i")
  case (Some v)
  then show ?thesis using body_length [of devid v] size_fits by (simp add: answer_def)
qed (simp add: answer_def)

lemma read_eq:
  assumes "ok s"
  shows "(do { (ret, v) \<leftarrow> get_slot s devid i out;
      (rlen, b) \<leftarrow> (if ret \<noteq> errno HSB_E_OK then reply_result blank ret else reply blank devid v);
      Some (rlen, b, u) }) = Some (int (length (answer s devid i)), fill 1024 (answer s devid i), u)"
proof (cases "slot s devid i")
  case None
  then show ?thesis using assms by (simp add: get_law answer_def)
next
  case (Some v)
  then show ?thesis
    using assms body_length [of devid v] reply_body [OF size_fits, of devid v] by (simp add: get_law answer_def)
qed

text \<open>Storing what a packet carries and reading it back.\<close>

lemma store_then_read:
  assumes "ok s" and "fits s devid (vid v)" and "length h = 4"
  shows "runs (do { w \<leftarrow> decode (h @ body devid v @ rest); set_slot s devid w })
    (\<lambda>(r, t). r = errno HSB_E_OK \<and> ok t \<and> answer t devid (vid v) = hdr cmd size @ body devid v)"
  using set_fits [OF assms(1,2)] by (auto simp: decode_body [OF assms(3)] answer_def elim!: runs_mono)

end

interpretation timer_service: slot_service set_dev_timer get_dev_timer del_dev_timer tm_id dev_ok timer_fits timer_slot
  reply_get_timer get_timer_pkt timer_body_bytes HSB_CMD_GET_TIMER_RESP 24
  by unfold_locales simp

interpretation delay_service: slot_service set_dev_delay get_dev_delay del_dev_delay dl_id dev_ok delay_fits delay_slot
  reply_get_delay get_delay_pkt delay_body_bytes HSB_CMD_GET_DELAY_RESP 32
  by unfold_locales simp

interpretation linkage_service: slot_service set_dev_linkage get_dev_linkage del_dev_linkage lk_id dev_ok linkage_fits linkage_slot
  reply_get_linkage get_linkage_pkt linkage_body_bytes HSB_CMD_GET_LINKAGE_RESP 32
  by unfold_locales simp

section \<open>One packet keeps the box intact\<close>

text \<open>
  What every case guarantees: the invariant, no delay started, no client and no queue of devices touched, and
  a reply that lies inside the reply buffer.
\<close>

definition pkt_frame :: "box \<Rightarrow> box \<Rightarrow> bool" where
  "pkt_frame s t \<longleftrightarrow> base_frame s t \<and> client_pool t = client_pool s \<and> cb_queue (dev_cb t) = cb_queue (dev_cb s)"

lemma pkt_frame_refl [simp]: "pkt_frame s s"
  by (simp add: pkt_frame_def)

lemma pkt_frame_trans: "pkt_frame s t \<Longrightarrow> pkt_frame t u \<Longrightarrow> pkt_frame s u"
  by (auto simp: pkt_frame_def intro: base_frame_trans)

definition case_ok :: "box \<Rightarrow> int \<times> buf \<times> box \<Rightarrow> bool" where
  "case_ok s res \<longleftrightarrow> (case res of (rlen, b, t) \<Rightarrow> 0 \<le> rlen \<and> rlen \<le> 1024 \<and> length b = 1024 \<and>
     box_ok t \<and> pkt_frame s t)"

lemma case_ok_frame: "length p \<le> 1024 \<Longrightarrow> box_ok t \<Longrightarrow> pkt_frame s t \<Longrightarrow> case_ok s (int (length p), fill 1024 p, t)"
  by (simp add: case_ok_def)

lemma case_ok_8: "box_ok t \<Longrightarrow> pkt_frame s t \<Longrightarrow> case_ok s (8, fill 1024 (result_frame v), t)"
  using case_ok_frame [of "result_frame v"] by simp

lemma slot_edit_pkt: "box_ok s \<Longrightarrow> slot_edit s t \<Longrightarrow> box_ok t \<and> pkt_frame s t"
  using slot_edit_step [of s t] core_base [of s t] by (auto simp: pkt_frame_def slot_edit_def dev_write_def)

lemma slot_change_case:
  assumes "box_ok s" and "runs m (\<lambda>(r, t). slot_edit s t)"
  shows "runs (do { (ret, t) \<leftarrow> m; (rlen, b) \<leftarrow> reply_result blank ret; Some (rlen, b, t) }) (case_ok s)"
  using assms(2) slot_edit_pkt [OF assms(1)] by (auto elim!: runs_mono intro!: case_ok_8)

lemma push_case:
  assumes "box_ok s" and "act_ok a"
  shows "runs (do { t \<leftarrow> push_async s a; Some (0, blank, t) }) (case_ok s)"
  using pushed_step [OF assms(1), of "[a]"] assms by (simp add: push_async_box case_ok_def pkt_frame_def)

lemma get_defined:
  "off + 1 \<le> length b \<Longrightarrow> \<exists>v. GET_u8 b off = Some v" "off + 2 \<le> length b \<Longrightarrow> \<exists>v. GET_u16 b off = Some v"
  "off + 4 \<le> length b \<Longrightarrow> \<exists>v. GET_u32 b off = Some v"
  by (simp_all add: GET_u8_def GET_u16_def GET_u32_def)

lemma slot_pkts_defined:
  "24 \<le> length b \<Longrightarrow> \<exists>v. get_timer_pkt b = Some v" "32 \<le> length b \<Longrightarrow> \<exists>v. get_delay_pkt b = Some v"
  "32 \<le> length b \<Longrightarrow> \<exists>v. get_linkage_pkt b = Some v"
  by (simp_all add: get_timer_pkt_def get_delay_pkt_def get_linkage_pkt_def GET_u8_def GET_u16_def GET_u32_def)

lemma slot_read_cases:
  assumes "box_ok s" and "10 \<le> length b"
  shows "runs (tcp_get_timer b blank s) (case_ok s)" "runs (tcp_get_delay b blank s) (case_ok s)"
    "runs (tcp_get_linkage b blank s) (case_ok s)"
proof -
  from get_defined(3) [of 4 b] get_defined(2) [of 8 b] assms(2) obtain devid i where
    g: "GET_u32 b 4 = Some devid" "GET_u16 b 8 = Some i" by auto
  note ok = box_okD(1) [OF assms(1)]
  show "runs (tcp_get_timer b blank s) (case_ok s)"
    using timer_service.length_answer [of s devid i] assms(1)
    unfolding tcp_get_timer_def g bind.bind_lunit timer_service.read_eq [OF ok] by (simp add: case_ok_frame)
  show "runs (tcp_get_delay b blank s) (case_ok s)"
    using delay_service.length_answer [of s devid i] assms(1)
    unfolding tcp_get_delay_def g bind.bind_lunit delay_service.read_eq [OF ok] by (simp add: case_ok_frame)
  show "runs (tcp_get_linkage b blank s) (case_ok s)"
    using linkage_service.length_answer [of s devid i] assms(1)
    unfolding tcp_get_linkage_def g bind.bind_lunit linkage_service.read_eq [OF ok] by (simp add: case_ok_frame)
qed

lemma slot_delete_cases:
  assumes "box_ok s" and "10 \<le> length b"
  shows "runs (tcp_del_timer b blank s) (case_ok s)" "runs (tcp_del_delay b blank s) (case_ok s)"
    "runs (tcp_del_linkage b blank s) (case_ok s)"
proof -
  from get_defined(3) [of 4 b] get_defined(2) [of 8 b] assms(2) obtain devid i where
    g: "GET_u32 b 4 = Some devid" "GET_u16 b 8 = Some i" by auto
  note edit = slot_change_case [OF assms(1) slot_edits(2) [OF box_okD(1) [OF assms(1)]]]
    slot_change_case [OF assms(1) slot_edits(4) [OF box_okD(1) [OF assms(1)]]]
    slot_change_case [OF assms(1) slot_edits(6) [OF box_okD(1) [OF assms(1)]]]
  show "runs (tcp_del_timer b blank s) (case_ok s)" "runs (tcp_del_delay b blank s) (case_ok s)"
    "runs (tcp_del_linkage b blank s) (case_ok s)"
    unfolding tcp_del_timer_def tcp_del_delay_def tcp_del_linkage_def g bind.bind_lunit by (rule edit)+
qed

lemma slot_store_cases:
  assumes "box_ok s"
  shows "24 \<le> length b \<Longrightarrow> runs (tcp_set_timer b blank s) (case_ok s)"
    "32 \<le> length b \<Longrightarrow> runs (tcp_set_delay b blank s) (case_ok s)"
    "32 \<le> length b \<Longrightarrow> runs (tcp_set_linkage b blank s) (case_ok s)"
proof -
  note edit = slot_change_case [OF assms slot_edits(1) [OF box_okD(1) [OF assms]]]
    slot_change_case [OF assms slot_edits(3) [OF box_okD(1) [OF assms]]]
    slot_change_case [OF assms slot_edits(5) [OF box_okD(1) [OF assms]]]
  show "runs (tcp_set_timer b blank s) (case_ok s)" if "24 \<le> length b"
  proof -
    from get_defined(3) [of 4 b] slot_pkts_defined(1) [OF that] that obtain devid v where
      g: "GET_u32 b 4 = Some devid" "get_timer_pkt b = Some v" by auto
    show ?thesis unfolding tcp_set_timer_def g bind.bind_lunit by (rule edit)
  qed
  show "runs (tcp_set_delay b blank s) (case_ok s)" if "32 \<le> length b"
  proof -
    from get_defined(3) [of 4 b] slot_pkts_defined(2) [OF that] that obtain devid v where
      g: "GET_u32 b 4 = Some devid" "get_delay_pkt b = Some v" by auto
    show ?thesis unfolding tcp_set_delay_def g bind.bind_lunit by (rule edit)
  qed
  show "runs (tcp_set_linkage b blank s) (case_ok s)" if "32 \<le> length b"
  proof -
    from get_defined(3) [of 4 b] slot_pkts_defined(3) [OF that] that obtain devid v where
      g: "GET_u32 b 4 = Some devid" "get_linkage_pkt b = Some v" by auto
    show ?thesis unfolding tcp_set_linkage_def g bind.bind_lunit by (rule edit)
  qed
qed

lemma request_cases:
  assumes "box_ok s"
  shows "8 \<le> length b \<Longrightarrow> runs (tcp_get_status b reply blank s) (case_ok s)"
    "8 \<le> len \<Longrightarrow> nat len \<le> length b \<Longrightarrow> runs (tcp_set_status b len reply blank s) (case_ok s)"
    "16 \<le> length b \<Longrightarrow> runs (tcp_do_action b reply blank s) (case_ok s)"
    "6 \<le> length b \<Longrightarrow> runs (tcp_probe_dev b reply blank s) (case_ok s)"
proof -
  have push: "runs (do { (r, t) \<leftarrow> do { u \<leftarrow> push_async s a; Some (errno HSB_E_OK, u) }; Some (0, blank, t) }) (case_ok s)"
    if "act_ok a" for a
    using push_case [OF assms that] by simp
  show "runs (tcp_get_status b reply blank s) (case_ok s)" if "8 \<le> length b"
  proof -
    from get_defined(3) [of 4 b] that obtain devid where g: "GET_u32 b 4 = Some devid" by auto
    show ?thesis unfolding tcp_get_status_def g get_dev_status_async_def bind.bind_lunit
      by (rule push) (simp add: status_shape_def zero_status_def)
  qed
  show "runs (tcp_set_status b len reply blank s) (case_ok s)" if "8 \<le> len" "nat len \<le> length b"
  proof -
    have "8 \<le> length b" using that by linarith
    with get_defined(3) [of 4 b] obtain devid where g: "GET_u32 b 4 = Some devid" by auto
    have "status_shape (zero_status\<lparr>st_devid := devid\<rparr>)" by (simp add: status_shape_def zero_status_def)
    from get_dev_status_pkt_ok [OF this that] obtain st where st: "get_dev_status_pkt b len (zero_status\<lparr>st_devid := devid\<rparr>) = Some st"
      and P: "status_shape st \<and> st_devid st = st_devid (zero_status\<lparr>st_devid := devid\<rparr>) \<and>
        unat (st_num st) = min 8 ((nat len - 8) div 4) \<and>
        (\<forall>i < unat (st_num st). GET_u16 b (8 + i * 4) = Some (st_id st ! i) \<and> GET_u16 b (10 + i * 4) = Some (st_val st ! i))"
      by (rule runsE)
    show ?thesis unfolding tcp_set_status_def g st set_dev_status_async_def bind.bind_lunit
      by (rule push) (use P in simp)
  qed
  show "runs (tcp_do_action b reply blank s) (case_ok s)" if "16 \<le> length b"
  proof -
    from get_defined(3) [of 4 b] get_defined(2) [of 8 b] get_defined(2) [of 10 b] get_defined(3) [of 12 b] that
    obtain devid i p q where g: "GET_u32 b 4 = Some devid" "GET_u16 b 8 = Some i" "GET_u16 b 10 = Some p" "GET_u32 b 12 = Some q"
      by auto
    obtain r act where m: "remote_key_mapping p q \<lparr>act_devid = devid, act_id = 0, act_param1 = 0, act_param2 = 0\<rparr> = Some (r, act)"
      by (metis remote_key_mapping_cases surj_pair)
    show ?thesis using push_case [OF assms, of "HSB_ACT_TYPE_DO_ACTION reply a" for a] assms
      by (simp add: tcp_do_action_def g m Let_def set_dev_action_async_def case_ok_8)
  qed
  show "runs (tcp_probe_dev b reply blank s) (case_ok s)" if "6 \<le> length b"
  proof -
    from get_defined(2) [of 4 b] that obtain i where g: "GET_u16 b 4 = Some i" by auto
    show ?thesis unfolding tcp_probe_dev_def g probe_dev_async_def bind.bind_lunit by (rule push) simp
  qed
qed

text \<open>The list of devices.\<close>

definition online_ids :: "box \<Rightarrow> u32 list" where
  "online_ids s = map (\<lambda>p. dev_id (dev_at s p)) (cb_queue (dev_cb s))"

lemma get_dev_id_list_loop_eq:
  assumes "\<forall>p \<in> set ps. deref s p = Some (dev_at s p) \<and> p \<noteq> 0" and "num + length ps \<le> length ids"
  shows "get_dev_id_list_loop s ps ids num =
    Some (take num ids @ map (\<lambda>p. dev_id (dev_at s p)) ps @ drop (num + length ps) ids, num + length ps)"
  using assms
proof (induction ps arbitrary: ids num)
  case (Cons p ps)
  then have "get_dev_id_list_loop s (p # ps) ids num =
      get_dev_id_list_loop s ps (ids[num := dev_id (dev_at s p)]) (Suc num)" by simp
  also have "\<dots> = Some (take (Suc num) (ids[num := dev_id (dev_at s p)]) @ map (\<lambda>p. dev_id (dev_at s p)) ps @
      drop (Suc num + length ps) (ids[num := dev_id (dev_at s p)]), Suc num + length ps)"
    using Cons.prems by (intro Cons.IH) simp_all
  finally show ?case using Cons.prems by (simp add: take_Suc_conv_app_nth)
qed simp

lemma locked_view [simp]:
  "deref (dev_cb_update (cb_mutex_update f) s) = deref s" "dev_at (dev_cb_update (cb_mutex_update f) s) = dev_at s"
  "find_dev_loop (dev_cb_update (cb_mutex_update f) s) ps devid = find_dev_loop s ps devid"
proof -
  show d: "deref (dev_cb_update (cb_mutex_update f) s) = deref s" by (simp add: fun_eq_iff deref_def)
  show "dev_at (dev_cb_update (cb_mutex_update f) s) = dev_at s" by (simp add: fun_eq_iff dev_at_def)
  show "find_dev_loop (dev_cb_update (cb_mutex_update f) s) ps devid = find_dev_loop s ps devid"
  proof (induction ps)
    case (Cons p ps)
    then show ?case by (cases "deref s p") (simp_all add: d)
  qed simp
qed

lemma unlock_free: "\<not> cb_mutex (dev_cb s) \<Longrightarrow> dev_cb_update (cb_mutex_update (\<lambda>_. False)) s = s"
  by (cases s; cases "dev_cb s") simp

lemma relock [simp]: "dev_cb_update (cb_mutex_update f) (dev_cb_update (cb_mutex_update g) s) = dev_cb_update (cb_mutex_update (f \<circ> g)) s"
  by (simp add: o_def)

lemma get_dev_id_list_eq:
  assumes "dev_ok s" and "length (cb_queue (dev_cb s)) \<le> 128"
  shows "runs (get_dev_id_list s (replicate 128 0)) (\<lambda>(r, ids, n, t). r = 0 \<and> n = length (online_ids s) \<and>
    n \<le> length ids \<and> take n ids = online_ids s \<and> t = s)"
proof -
  let ?l = "dev_cb_update (cb_mutex_update (\<lambda>_. True)) s"
  have m: "\<not> cb_mutex (dev_cb s)" using assms(1) by (rule dev_okD)
  have "\<forall>p \<in> set (cb_queue (dev_cb s)). deref ?l p = Some (dev_at ?l p) \<and> p \<noteq> 0"
    using dev_ok_deref [OF assms(1)] by simp
  from get_dev_id_list_loop_eq [OF this, of 0 "replicate 128 0"] assms(2) m show ?thesis
    by (simp add: get_dev_id_list_def HSB_DEVICE_CB_LOCK_def HSB_DEVICE_CB_UNLOCK_def online_ids_def unlock_free o_def)
qed

lemma tcp_get_devs_eq:
  assumes "box_ok s" and "length (cb_queue (dev_cb s)) \<le> 128"
  shows "tcp_get_devs blank s = Some (int (length (devs_frame (online_ids s))), fill 1024 (devs_frame (online_ids s)), s)"
proof -
  from get_dev_id_list_eq [OF box_okD(1) [OF assms(1)] assms(2)] obtain r ids n t where
    g: "get_dev_id_list s (replicate 128 0) = Some (r, ids, n, t)" and P: "r = 0" "n = length (online_ids s)"
    "n \<le> length ids" "take n ids = online_ids s" "t = s" by (auto elim!: runsE)
  have "n \<le> 128" using P(2) assms(2) by (simp add: online_ids_def)
  with reply_dev_id_list_eq [OF P(3), of 1024] P show ?thesis
    by (simp add: tcp_get_devs_def g) (simp add: devs_frame_def)
qed

lemma tcp_get_devs_ok:
  assumes "box_ok s" and "length (cb_queue (dev_cb s)) \<le> 128"
  shows "runs (tcp_get_devs blank s) (case_ok s)"
proof -
  have "length (online_ids s) \<le> 128" using assms(2) by (simp add: online_ids_def)
  then have "length (devs_frame (online_ids s)) \<le> 1024" by (simp add: devs_frame_def)
  then show ?thesis using assms by (simp add: tcp_get_devs_eq case_ok_def)
qed

text \<open>More than 128 devices online: the list runs over the local array.\<close>

lemma get_dev_id_list_loop_overrun:
  assumes "\<forall>p \<in> set ps. deref s p = Some (dev_at s p) \<and> p \<noteq> 0" and "length ids < num + length ps" and "num \<le> length ids"
  shows "get_dev_id_list_loop s ps ids num = None"
  using assms
proof (induction ps arbitrary: ids num)
  case (Cons p ps)
  then show ?case by (cases "num < length ids") (simp_all add: arr_set_out)
qed simp

lemma get_dev_info_eq:
  assumes "dev_ok s"
  shows "get_dev_info s devid out = Some (case online_dev s devid of None \<Rightarrow> (- 1, out, s) | Some d \<Rightarrow> (0, d, s))"
proof -
  have m: "\<not> cb_mutex (dev_cb s)" using assms by (rule dev_okD)
  have f: "find_dev (dev_cb_update (cb_mutex_update (\<lambda>_. True)) s) devid = find_dev s devid" by (simp add: find_dev_def)
  show ?thesis
    by (cases rule: online_dev_cases [OF assms, of devid])
      (simp_all add: get_dev_info_def HSB_DEVICE_CB_LOCK_def HSB_DEVICE_CB_UNLOCK_def m f unlock_free o_def)
qed

lemma online_dev_facts:
  assumes "dev_ok s" and "online_dev s devid = Some d"
  shows "\<exists>drv. dev_driver d = Some drv" "length (info_mac (dev_info d)) = 8" "dev_id d = devid"
proof -
  from assms(2) obtain p where f: "find (\<lambda>p. dev_id (dev_at s p) = devid) (cb_queue (dev_cb s)) = Some p" "dev_at s p = d"
    by (auto simp: online_dev_def)
  then have p: "p \<in> set (cb_queue (dev_cb s))" "dev_id (dev_at s p) = devid" by (auto simp: find_Some_iff)
  show "\<exists>drv. dev_driver d = Some drv" "length (info_mac (dev_info d)) = 8" "dev_id d = devid"
    using dev_ok_deref [OF assms(1) p(1)] dev_ok_queue [OF assms(1) p(1)] f(2) p(2) by (auto simp: dev_shape_def)
qed

definition info_answer :: "box \<Rightarrow> u32 \<Rightarrow> buf" where
  "info_answer s devid = (case online_dev s devid of None \<Rightarrow> result_frame (- 1)
     | Some d \<Rightarrow> info_frame d (the (dev_driver d)))"

lemma tcp_get_info_eq:
  assumes "box_ok s" and "GET_u32 b 4 = Some devid"
  shows "tcp_get_info b blank s = Some (int (length (info_answer s devid)), fill 1024 (info_answer s devid), s)"
    and "length (info_answer s devid) \<le> 1024"
proof -
  note ok = box_okD(1) [OF assms(1)]
  have "tcp_get_info b blank s = Some (int (length (info_answer s devid)), fill 1024 (info_answer s devid), s) \<and>
      length (info_answer s devid) \<le> 1024"
  proof (cases "online_dev s devid")
    case None
    then show ?thesis by (simp add: tcp_get_info_def assms(2) get_dev_info_eq [OF ok] info_answer_def)
  next
    case (Some d)
    note f = online_dev_facts [OF ok Some]
    then obtain drv where "dev_driver d = Some drv" by blast
    with f reply_get_device_info_eq [of 1024 d drv] Some show ?thesis
      by (simp add: tcp_get_info_def assms(2) get_dev_info_eq [OF ok] info_answer_def info_frame_def)
  qed
  then show "tcp_get_info b blank s = Some (int (length (info_answer s devid)), fill 1024 (info_answer s devid), s)"
    and "length (info_answer s devid) \<le> 1024" by blast+
qed

lemma tcp_get_info_ok:
  assumes "box_ok s" and "8 \<le> length b"
  shows "runs (tcp_get_info b blank s) (case_ok s)"
proof -
  from get_defined(3) [of 4 b] assms(2) obtain devid where "GET_u32 b 4 = Some devid" by auto
  from tcp_get_info_eq [OF assms(1) this] assms(1) show ?thesis by (simp add: case_ok_def)
qed

section \<open>The whole packet handler\<close>

text \<open>How far into the packet the handler of a command reads.\<close>

definition need :: "u16 \<Rightarrow> nat" where
  "need cmd = (if cmd \<in> {HSB_CMD_GET_INFO, HSB_CMD_GET_STATUS, HSB_CMD_SET_STATUS} then 8
     else if cmd \<in> {HSB_CMD_GET_TIMER, HSB_CMD_DEL_TIMER, HSB_CMD_GET_DELAY, HSB_CMD_DEL_DELAY,
       HSB_CMD_GET_LINKAGE, HSB_CMD_DEL_LINKAGE} then 10
     else if cmd = HSB_CMD_SET_TIMER then 24
     else if cmd \<in> {HSB_CMD_SET_DELAY, HSB_CMD_SET_LINKAGE} then 32
     else if cmd = HSB_CMD_DO_ACTION then 16
     else if cmd = HSB_CMD_PROBE_DEV then 6
     else 4)"

lemma tcp_switch_ok:
  assumes "box_ok s" and "length (cb_queue (dev_cb s)) \<le> 128" and "need cmd \<le> length b"
    and "cmd = HSB_CMD_SET_STATUS \<longrightarrow> 8 \<le> len \<and> nat len \<le> length b"
  shows "runs (tcp_switch cmd b len reply blank s) (case_ok s)"
proof -
  note cases = tcp_get_devs_ok [OF assms(1,2)] tcp_get_info_ok [OF assms(1), of b] slot_read_cases [OF assms(1), of b]
    slot_delete_cases [OF assms(1), of b] slot_store_cases [OF assms(1), of b] request_cases [OF assms(1), where b = b]
  show ?thesis
    using cases assms(1,3,4) case_ok_8 [OF assms(1) pkt_frame_refl, of REPLY_FAIL]
    unfolding tcp_switch_def need_def by (simp split: if_splits del: runs_bind) (elim disjE; simp)+
qed

text \<open>Sending the reply.\<close>

definition replied :: "int \<Rightarrow> buf \<Rightarrow> box \<Rightarrow> box" where
  "replied fd p s = (if p = [] then s else send_out s (TCP_WRITE fd p))"

lemma replied_frame: "box_ok s \<Longrightarrow> box_ok (replied fd p s) \<and> pkt_frame s (replied fd p s)"
  using core_base [OF send_out_frame(8), of s "TCP_WRITE fd p"] by (simp add: replied_def pkt_frame_def) (simp add: send_out_def)

definition tcp_finish :: "int \<Rightarrow> int \<Rightarrow> int \<times> buf \<times> box \<Rightarrow> int \<times> int \<times> box" where
  "tcp_finish fd used res = (case res of (rlen, b, t) \<Rightarrow> (0, used, replied fd (take (nat rlen) b) t))"

lemma deal_tcp_packet_eq:
  assumes "GET_u16 b 0 = Some cmd" and "GET_u16 b 2 = Some cmdlen"
    and "runs (tcp_switch cmd b len reply blank s) (case_ok s)"
  shows "deal_tcp_packet fd b len reply s =
    (if 0 < len \<and> HSB_CMD_VALID cmd \<and> uint cmdlen \<le> len
     then map_option (tcp_finish fd (uint cmdlen)) (tcp_switch cmd b len reply blank s) else Some (- 1, len, s))"
proof -
  from assms(3) obtain rlen rb t where t: "tcp_switch cmd b len reply blank s = Some (rlen, rb, t)"
    and c: "case_ok s (rlen, rb, t)" by (auto elim!: runsE)
  from c have r: "0 \<le> rlen" "rlen \<le> 1024" "length rb = 1024" by (simp_all add: case_ok_def)
  then show ?thesis using t assms(1,2)
    by (auto simp: deal_tcp_packet_def check_tcp_pkt_valid_def Let_def replicate_fill [of 1024] write_buf_def
        tcp_finish_def replied_def)
qed

lemma deal_tcp_packet_ok:
  assumes "box_ok s" and "length (cb_queue (dev_cb s)) \<le> 128" and "4 \<le> length b" and "len \<le> int (length b)"
    and "\<And>cmd. GET_u16 b 0 = Some cmd \<Longrightarrow> int (need cmd) \<le> len"
  shows "runs (deal_tcp_packet fd b len reply s) (\<lambda>(r, used, t). box_ok t \<and> pkt_frame s t \<and> 0 \<le> used \<and> used \<le> len)"
proof -
  from get_defined(2) [of 0 b] get_defined(2) [of 2 b] assms(3) obtain cmd cmdlen where
    g: "GET_u16 b 0 = Some cmd" "GET_u16 b 2 = Some cmdlen" by auto
  note n = assms(5) [OF g(1)]
  have "need cmd \<le> length b" "cmd = HSB_CMD_SET_STATUS \<longrightarrow> 8 \<le> len \<and> nat len \<le> length b"
    using n assms(4) by (auto simp: need_def)
  from tcp_switch_ok [OF assms(1,2) this] have sw: "runs (tcp_switch cmd b len reply blank s) (case_ok s)" .
  have pos: "0 \<le> len" using n by simp
  from sw have "runs (map_option (tcp_finish fd (uint cmdlen)) (tcp_switch cmd b len reply blank s))
      (\<lambda>(r, used, t). box_ok t \<and> pkt_frame s t \<and> used = uint cmdlen)"
  proof (rule runsE)
    fix res
    assume t: "tcp_switch cmd b len reply blank s = Some res" and c: "case_ok s res"
    obtain rlen rb u where r: "res = (rlen, rb, u)" by (cases res)
    with c have "box_ok u" "pkt_frame s u" by (simp_all add: case_ok_def)
    with replied_frame [OF \<open>box_ok u\<close>] show ?thesis by (auto simp: t r tcp_finish_def intro: pkt_frame_trans)
  qed
  then show ?thesis
    unfolding deal_tcp_packet_eq [OF g sw] using assms(1) pos by (auto elim!: runs_mono)
qed

section \<open>Packets side by side\<close>

text \<open>A field that lies inside a packet is the same whatever follows the packet.\<close>

lemma GET_prefix:
  "off + 1 \<le> length p \<Longrightarrow> GET_u8 (p @ r) off = GET_u8 p off"
  "off + 2 \<le> length p \<Longrightarrow> GET_u16 (p @ r) off = GET_u16 p off"
  "off + 4 \<le> length p \<Longrightarrow> GET_u32 (p @ r) off = GET_u32 p off"
  by (simp_all add: GET_u8_def GET_u16_def GET_u32_def nth_append)

lemma tcp_switch_prefix:
  assumes "need cmd \<le> length p" and "cmd \<noteq> HSB_CMD_SET_STATUS"
  shows "tcp_switch cmd (p @ r) len reply b s = tcp_switch cmd p len' reply b s"
proof -
  note defs = tcp_get_info_def tcp_get_status_def tcp_get_timer_def tcp_set_timer_def tcp_del_timer_def
    tcp_get_delay_def tcp_set_delay_def tcp_del_delay_def tcp_get_linkage_def tcp_set_linkage_def tcp_del_linkage_def
    tcp_do_action_def tcp_probe_dev_def get_timer_pkt_def get_delay_pkt_def get_linkage_pkt_def
  have read: "tcp_get_info (p @ r) b s = tcp_get_info p b s" "tcp_get_status (p @ r) reply b s = tcp_get_status p reply b s"
    if "8 \<le> length p" using that by (simp_all add: defs GET_prefix)
  have slot: "tcp_get_timer (p @ r) b s = tcp_get_timer p b s" "tcp_del_timer (p @ r) b s = tcp_del_timer p b s"
    "tcp_get_delay (p @ r) b s = tcp_get_delay p b s" "tcp_del_delay (p @ r) b s = tcp_del_delay p b s"
    "tcp_get_linkage (p @ r) b s = tcp_get_linkage p b s" "tcp_del_linkage (p @ r) b s = tcp_del_linkage p b s"
    if "10 \<le> length p" using that by (simp_all add: defs GET_prefix)
  have sets: "24 \<le> length p \<Longrightarrow> tcp_set_timer (p @ r) b s = tcp_set_timer p b s"
    "32 \<le> length p \<Longrightarrow> tcp_set_delay (p @ r) b s = tcp_set_delay p b s"
    "32 \<le> length p \<Longrightarrow> tcp_set_linkage (p @ r) b s = tcp_set_linkage p b s"
    "16 \<le> length p \<Longrightarrow> tcp_do_action (p @ r) reply b s = tcp_do_action p reply b s"
    "6 \<le> length p \<Longrightarrow> tcp_probe_dev (p @ r) reply b s = tcp_probe_dev p reply b s"
    by (simp_all add: defs GET_prefix)
  show ?thesis
    using assms read slot sets unfolding tcp_switch_def need_def
    by (simp split: if_splits) (elim disjE; simp)+
qed

text \<open>A complete packet: the length field says how long it is and the fields of its command lie inside.\<close>

definition pkt_wf :: "buf \<Rightarrow> bool" where
  "pkt_wf p \<longleftrightarrow> length p < 65536 \<and> (\<exists>cmd r. p = hdr cmd (length p) @ r \<and> need cmd \<le> length p \<and> HSB_CMD_VALID cmd)"

definition pkt_cmd :: "buf \<Rightarrow> u16" where
  "pkt_cmd p = of_le16 (p ! 0) (p ! 1)"

lemma pkt_wfE:
  assumes "pkt_wf p"
  obtains "4 \<le> length p" "GET_u16 (p @ r) 0 = Some (pkt_cmd p)" "GET_u16 (p @ r) 2 = Some (of_nat (length p))"
    "uint (of_nat (length p) :: u16) = int (length p)" "need (pkt_cmd p) \<le> length p" "HSB_CMD_VALID (pkt_cmd p)"
proof -
  from assms obtain cmd q where p: "p = hdr cmd (length p) @ q" and n: "need cmd \<le> length p" "HSB_CMD_VALID cmd"
    and l: "length p < 65536" by (auto simp: pkt_wf_def)
  have "pkt_cmd p = cmd" using p by (metis (no_types, lifting) GET_u16_def GET_u16_hdr(1) One_nat_def add_0 option.distinct(1)
        option.inject pkt_cmd_def)
  moreover have "GET_u16 (p @ r) 0 = Some cmd" "GET_u16 (p @ r) 2 = Some (of_nat (length p))"
    by (metis GET_u16_hdr append.assoc p)+
  moreover have "uint (of_nat (length p) :: u16) = int (length p)" 
    using l by (simp add: unsigned_of_nat take_bit_nat_eq_self)
  moreover have "4 \<le> length p" by (subst p) simp
  ultimately show ?thesis using n that by simp
qed

lemma deal_tcp_packet_alone:
  assumes "box_ok s" and "length (cb_queue (dev_cb s)) \<le> 128" and "pkt_wf p" and "pkt_cmd p \<noteq> HSB_CMD_SET_STATUS"
    and "int (length p) \<le> len"
  shows "deal_tcp_packet fd (p @ r) len reply s = deal_tcp_packet fd p (int (length p)) reply s"
proof -
  from assms(3) have w: "4 \<le> length p" "GET_u16 (p @ r) 0 = Some (pkt_cmd p)" "GET_u16 (p @ r) 2 = Some (of_nat (length p))"
    "GET_u16 p 0 = Some (pkt_cmd p)" "GET_u16 p 2 = Some (of_nat (length p))"
    "uint (of_nat (length p) :: u16) = int (length p)" "need (pkt_cmd p) \<le> length p" "HSB_CMD_VALID (pkt_cmd p)"
    using pkt_wfE [of p r] pkt_wfE [of p "[]"] by auto
  from tcp_switch_ok [OF assms(1,2) w(7)] assms(4)
  have sw: "runs (tcp_switch (pkt_cmd p) p (int (length p)) reply blank s) (case_ok s)" by simp
  note eq = tcp_switch_prefix [OF w(7) assms(4), of r len reply blank s "int (length p)"]
  from deal_tcp_packet_eq [OF w(2,3), of len reply s fd] deal_tcp_packet_eq [OF w(4,5) sw, of fd] sw eq
  show ?thesis using w assms(5) by (cases "p = []") simp_all
qed

end
