(* ===== verification/Net_Client.thy ===== *)
theory Net_Client
  imports Net_Server
begin

text \<open>
  The threads of \<^verbatim>\<open>core_daemon/network.c\<close> around the packet handlers: the loop over the packets of one read, the
  delivery of queued notifications, one pass through the loop of
  \<^verbatim>\<open>tcp_client_handler\<close> (\<open>tcp_client_round\<close>, whose argument holds what \<^verbatim>\<open>select\<close>,
  \<^verbatim>\<open>read\<close> and \<^verbatim>\<open>write\<close> returned) and of \<^verbatim>\<open>tcp_listen_thread\<close>.
\<close>

section \<open>A connected client\<close>

text \<open>\<open>wret n\<close> is what the \<open>n\<close>-th call of \<^verbatim>\<open>write\<close> returns.\<close>

fun process_notify_loop :: "int \<Rightarrow> (nat \<Rightarrow> int) \<Rightarrow> nat \<Rightarrow> nat \<Rightarrow> HSB_RESP_T list \<Rightarrow> box \<Rightarrow> (int \<times> box) option" where
  "process_notify_loop fd wret i n [] s = Some (0, s)"
| "process_notify_loop fd wret i n (resp # q) s = do {
     c \<leftarrow> arr_get (contexts s) i;
     let s = ctx_write s i (c\<lparr>ctx_queue := q\<rparr>);
     (len, buf) \<leftarrow> make_notify_resp (replicate 64 0) resp;
     s \<leftarrow> write_buf fd buf len s;
     if wret n \<le> 0 then Some (wret n, s)
     else process_notify_loop fd wret i (Suc n) q s
   }"

definition process_notify :: "int \<Rightarrow> (nat \<Rightarrow> int) \<Rightarrow> nat \<Rightarrow> box \<Rightarrow> (int \<times> box) option" where
  "process_notify fd wret i s = do {
     c \<leftarrow> arr_get (contexts s) i;
     process_notify_loop fd wret i 0 (ctx_queue c) s
   }"

text \<open>
  The packets of one read: \<^verbatim>\<open>while (nwrite < nread)\<close>. The loop need not end, so the model counts the
  rounds it may take; the boolean says whether the loop was left.
\<close>

fun tcp_packets :: "nat \<Rightarrow> int \<Rightarrow> buf \<Rightarrow> int \<Rightarrow> int \<Rightarrow> nat \<Rightarrow> box \<Rightarrow> (bool \<times> box) option" where
  "tcp_packets fuel sockfd msg nread nwrite i s =
     (if nwrite \<ge> nread then Some (True, s)
      else case fuel of
        0 \<Rightarrow> Some (False, s)
      | Suc fuel \<Rightarrow> do {
          (r, tmp, s) \<leftarrow> deal_tcp_packet sockfd (drop (nat nwrite) msg) (nread - nwrite) (Some i) s;
          tcp_packets fuel sockfd msg nread (nwrite + tmp) i s
        })"

declare tcp_packets.simps [simp del]

record client_io =
  io_select :: int
  io_sock_ready :: bool
  io_nread :: int
  io_msg :: buf
  io_un_ready :: bool
  io_wret :: "nat \<Rightarrow> int"

definition client_close :: "nat \<Rightarrow> box \<Rightarrow> (bool \<times> box) option" where
  "client_close i s = do {
     (r, s) \<leftarrow> put_client_context s i;
     Some (False, s)
   }"

text \<open>
  One pass through the loop of \<^verbatim>\<open>tcp_client_handler\<close>; the boolean says whether the handler goes on. \<^verbatim>\<open>FD_SET\<close> with the
  descriptor -1, which the context holds when its notification socket could not be opened, is undefined. An inner loop
  that does not end within \<open>fuel\<close> rounds is \<^term>\<open>None\<close>.
\<close>

definition tcp_client_round :: "nat \<Rightarrow> client_io \<Rightarrow> nat \<Rightarrow> box \<Rightarrow> (bool \<times> box) option" where
  "tcp_client_round fuel io i s = do {
     c \<leftarrow> arr_get (contexts s) i;
     let sockfd = ctx_tcp_sockfd c;
     if ctx_un_sockfd c < 0 then None
     else if io_select io \<le> 0 then client_close i s
     else if io_sock_ready io \<and> io_nread io \<le> 0 then client_close i s
     else do {
       s \<leftarrow> (if io_sock_ready io then do {
           (fin, s) \<leftarrow> tcp_packets fuel sockfd (io_msg io) (io_nread io) 0 i s;
           if fin then Some s else None
         } else Some s);
       s \<leftarrow> (if io_un_ready io then do {
           c \<leftarrow> arr_get (contexts s) i;
           let s = ctx_write s i (c\<lparr>ctx_un_msgs := ctx_un_msgs c - 1\<rparr>);
           (r, s) \<leftarrow> process_notify sockfd (io_wret io) i s;
           Some s
         } else Some s);
       Some (True, s)
     }
   }"

text \<open>
  One round of \<^verbatim>\<open>tcp_listen_thread\<close>: a connection gets a context, and a handler thread for it, or is closed
  at once; a failing \<^verbatim>\<open>accept\<close> ends the thread.
\<close>

definition tcp_listen_round :: "int \<Rightarrow> int \<Rightarrow> box \<Rightarrow> (bool \<times> nat option \<times> box) option" where
  "tcp_listen_round sockfd unfd s = (if sockfd < 0 then Some (False, None, s)
     else do {
       (pctx, s) \<leftarrow> get_client_context s sockfd unfd;
       Some (True, pctx, s)
     })"

section \<open>The packets of one read\<close>

lemma tcp_packets_done: "nread \<le> nwrite \<Longrightarrow> tcp_packets fuel fd msg nread nwrite i s = Some (True, s)"
  by (subst tcp_packets.simps) simp

lemma tcp_packets_next: "nwrite < nread \<Longrightarrow> tcp_packets (Suc fuel) fd msg nread nwrite i s =
    do { (r, tmp, s) \<leftarrow> deal_tcp_packet fd (drop (nat nwrite) msg) (nread - nwrite) (Some i) s;
         tcp_packets fuel fd msg nread (nwrite + tmp) i s }"
  by (subst tcp_packets.simps) simp

lemma tcp_packets_out: "nwrite < nread \<Longrightarrow> tcp_packets 0 fd msg nread nwrite i s = Some (False, s)"
  by (subst tcp_packets.simps) simp

lemma deal_tcp_packet_wf:
  assumes "box_ok s" and "length (cb_queue (dev_cb s)) \<le> 128" and "pkt_wf p" and "int (length p) \<le> len"
    and "len \<le> int (length (p @ r))"
  shows "runs (deal_tcp_packet fd (p @ r) len reply s) (\<lambda>(x, used, t). box_ok t \<and> pkt_frame s t \<and> used = int (length p))"
proof -
  from pkt_wfE [OF assms(3), of r] have w: "4 \<le> length p" "GET_u16 (p @ r) 0 = Some (pkt_cmd p)"
    "GET_u16 (p @ r) 2 = Some (of_nat (length p))" "uint (of_nat (length p) :: u16) = int (length p)"
    "need (pkt_cmd p) \<le> length p" "HSB_CMD_VALID (pkt_cmd p)" by auto
  have n: "need (pkt_cmd p) \<le> length (p @ r)" "pkt_cmd p = HSB_CMD_SET_STATUS \<longrightarrow> 8 \<le> len \<and> nat len \<le> length (p @ r)"
    using w(5) assms(4,5) by (auto simp: need_def)
  note sw = tcp_switch_ok [OF assms(1,2) n, of reply]
  from deal_tcp_packet_ok [OF assms(1,2), of "p @ r" len fd reply] w assms(4,5) obtain x used t where
    t: "deal_tcp_packet fd (p @ r) len reply s = Some (x, used, t)" "box_ok t" "pkt_frame s t" by (auto elim!: runsE)
  with deal_tcp_packet_eq [OF w(2,3) sw, of fd] w assms(4) have "used = int (length p)"
    by (cases "tcp_switch (pkt_cmd p) (p @ r) len reply blank s"; cases "p = []") (auto simp: tcp_finish_def split: prod.splits)
  with t show ?thesis by simp
qed

lemma pkt_frame_devs: "pkt_frame s t \<Longrightarrow> length (cb_queue (dev_cb s)) \<le> n \<Longrightarrow> length (cb_queue (dev_cb t)) \<le> n"
  by (simp add: pkt_frame_def)

lemma tcp_packets_wf:
  assumes "box_ok s" and "length (cb_queue (dev_cb s)) \<le> 128" and "\<forall>p \<in> set pkts. pkt_wf p" and "length pkts \<le> fuel"
  shows "runs (tcp_packets fuel fd (pre @ concat pkts @ junk) (int (length (pre @ concat pkts))) (int (length pre)) i s)
    (\<lambda>(fin, t). fin \<and> box_ok t \<and> pkt_frame s t)"
  using assms
proof (induction pkts arbitrary: pre s fuel)
  case Nil
  then show ?case by (simp add: tcp_packets_done)
next
  case (Cons p pkts)
  then obtain f where f: "fuel = Suc f" "length pkts \<le> f" by (cases fuel) auto
  from Cons.prems(3) have p: "pkt_wf p" "0 < length p" using pkt_wfE [of p "[]"] by force+
  let ?msg = "pre @ concat (p # pkts) @ junk" and ?n = "int (length (pre @ concat (p # pkts)))"
  have d: "drop (nat (int (length pre))) ?msg = p @ concat pkts @ junk" "?n - int (length pre) = int (length (p @ concat pkts))"
    by simp_all
  from deal_tcp_packet_wf [OF Cons.prems(1,2) p(1), of "int (length (p @ concat pkts))" "concat pkts @ junk" fd "Some i"]
  obtain x t where t: "deal_tcp_packet fd (p @ concat pkts @ junk) (int (length (p @ concat pkts))) (Some i) s =
      Some (x, int (length p), t)" "box_ok t" "pkt_frame s t" by (auto elim!: runsE)
  have "runs (tcp_packets f fd ((pre @ p) @ concat pkts @ junk) (int (length ((pre @ p) @ concat pkts)))
      (int (length (pre @ p))) i t) (\<lambda>(fin, u). fin \<and> box_ok u \<and> pkt_frame t u)"
    using Cons.prems f(2) t pkt_frame_devs by (intro Cons.IH) auto
  then have "runs (tcp_packets f fd ?msg ?n (int (length pre) + int (length p)) i t)
      (\<lambda>(fin, u). fin \<and> box_ok u \<and> pkt_frame s u)"
    using t(3) by (auto intro: pkt_frame_trans elim!: runs_mono)
  moreover have "int (length pre) < ?n" using p(2) by (simp del: length_greater_0_conv)
  ultimately show ?case unfolding f(1) tcp_packets_next [OF \<open>int (length pre) < ?n\<close>] d t(1) by simp
qed

text \<open>Packets that arrive together are handled as if each had arrived alone, in order.\<close>

definition deal_alone :: "int \<Rightarrow> nat \<Rightarrow> buf \<Rightarrow> box \<Rightarrow> box option" where
  "deal_alone fd i p s = map_option (\<lambda>(r, used, t). t) (deal_tcp_packet fd p (int (length p)) (Some i) s)"

lemma tcp_packets_alone:
  assumes "box_ok s" and "length (cb_queue (dev_cb s)) \<le> 128"
    and "\<forall>p \<in> set pkts. pkt_wf p \<and> pkt_cmd p \<noteq> HSB_CMD_SET_STATUS" and "length pkts \<le> fuel"
  shows "tcp_packets fuel fd (pre @ concat pkts @ junk) (int (length (pre @ concat pkts))) (int (length pre)) i s =
    map_option (Pair True) (for_list (deal_alone fd i) pkts s)"
  using assms
proof (induction pkts arbitrary: pre s fuel)
  case Nil
  then show ?case by (simp add: tcp_packets_done)
next
  case (Cons p pkts)
  then obtain f where f: "fuel = Suc f" "length pkts \<le> f" by (cases fuel) auto
  from Cons.prems(3) have p: "pkt_wf p" "pkt_cmd p \<noteq> HSB_CMD_SET_STATUS" "0 < length p"
    using pkt_wfE [of p "[]"] by force+
  let ?msg = "pre @ concat (p # pkts) @ junk" and ?n = "int (length (pre @ concat (p # pkts)))"
  have d: "drop (nat (int (length pre))) ?msg = p @ concat pkts @ junk" "?n - int (length pre) = int (length (p @ concat pkts))"
    by simp_all
  have a: "deal_tcp_packet fd (p @ concat pkts @ junk) (int (length (p @ concat pkts))) (Some i) s =
      deal_tcp_packet fd p (int (length p)) (Some i) s"
    by (rule deal_tcp_packet_alone [OF Cons.prems(1,2) p(1,2)]) simp
  from deal_tcp_packet_wf [OF Cons.prems(1,2) p(1), of "int (length p)" "[]" fd "Some i"]
  obtain x t where t: "deal_tcp_packet fd p (int (length p)) (Some i) s = Some (x, int (length p), t)"
    "box_ok t" "pkt_frame s t" by (auto elim!: runsE)
  have "tcp_packets f fd ((pre @ p) @ concat pkts @ junk) (int (length ((pre @ p) @ concat pkts)))
      (int (length (pre @ p))) i t = map_option (Pair True) (for_list (deal_alone fd i) pkts t)"
    using Cons.prems f(2) t pkt_frame_devs by (intro Cons.IH) auto
  moreover have "int (length pre) < ?n" using p(3) by (simp del: length_greater_0_conv)
  moreover have "deal_alone fd i p s = Some t" by (simp add: deal_alone_def t(1))
  ultimately show ?case unfolding f(1) tcp_packets_next [OF \<open>int (length pre) < ?n\<close>] d a t(1) by simp
qed

text \<open>A length field of 0: the loop makes no progress.\<close>

lemma tcp_packets_stuck:
  assumes "box_ok s" and "length (cb_queue (dev_cb s)) \<le> 128" and "0 \<le> nwrite" and "nwrite < nread"
    and "nread \<le> int (length msg)" and "GET_u16 (drop (nat nwrite) msg) 0 = Some cmd" and "HSB_CMD_VALID cmd"
    and "int (need cmd) \<le> nread - nwrite" and "GET_u16 (drop (nat nwrite) msg) 2 = Some 0"
  shows "runs (tcp_packets fuel fd msg nread nwrite i s) (\<lambda>(fin, t). \<not> fin)"
  using assms(1,2)
proof (induction fuel arbitrary: s)
  case 0
  then show ?case using assms(4) by (simp add: tcp_packets_out)
next
  case (Suc fuel)
  let ?b = "drop (nat nwrite) msg" and ?len = "nread - nwrite"
  have l: "?len \<le> int (length ?b)" using assms(3,5) by simp
  have n: "need cmd \<le> length ?b" "cmd = HSB_CMD_SET_STATUS \<longrightarrow> 8 \<le> ?len \<and> nat ?len \<le> length ?b"
    using l assms(8) by (auto simp: need_def)
  from tcp_switch_ok [OF Suc.prems n, of "Some i"] obtain rlen rb u where
    u: "tcp_switch cmd ?b ?len (Some i) blank s = Some (rlen, rb, u)" and c: "case_ok s (rlen, rb, u)" by (auto elim!: runsE)
  from c have "box_ok u" "pkt_frame s u" by (simp_all add: case_ok_def)
  let ?t = "replied fd (take (nat rlen) rb) u"
  have ok: "box_ok ?t" "length (cb_queue (dev_cb ?t)) \<le> 128"
    using replied_frame [OF \<open>box_ok u\<close>] \<open>pkt_frame s u\<close> Suc.prems(2) pkt_frame_devs by blast+
  have "deal_tcp_packet fd ?b ?len (Some i) s = Some (0, 0, ?t)"
    using deal_tcp_packet_eq [OF assms(6,9) tcp_switch_ok [OF Suc.prems n], of fd] u assms(4,7) by (simp add: tcp_finish_def)
  with Suc.IH [OF ok] show ?case using assms(4) by (simp add: tcp_packets_next)
qed

section \<open>Notifications\<close>

lemma ctx_write_frame [simp]:
  "dev_heap (ctx_write s i c) = dev_heap s" "next_ptr (ctx_write s i c) = next_ptr s" "dev_cb (ctx_write s i c) = dev_cb s"
  "vs_queue (ctx_write s i c) = vs_queue s" "cz_ctx (ctx_write s i c) = cz_ctx s" "sent (ctx_write s i c) = sent s"
  "stk_status (ctx_write s i c) = stk_status s" "stk_buf (ctx_write s i c) = stk_buf s"
  by (simp_all add: ctx_write_def)

lemma pool_swap:
  assumes "box_ok s" and "pool_ok t" and "t = s\<lparr>client_pool := client_pool t\<rparr>"
  shows "box_ok t" "quiet_frame s t"
proof -
  have h: "dev_heap t = dev_heap s" "next_ptr t = next_ptr s" "dev_cb t = dev_cb s" "vs_queue t = vs_queue s" "cz_ctx t = cz_ctx s"
    "stk_status t = stk_status s" "stk_buf t = stk_buf s"
    by (subst assms(3), simp)+
  have ok: "dev_ok t" using box_okD(1) [OF assms(1)] assms(2) by (simp add: dev_ok_def dev_obj_ok_def h)
  have k: "reg_keys e t = reg_keys e s" "find_drv t = find_drv s" for e
    by (simp_all add: reg_keys_def abs_reg_def dev_at_def [abs_def] find_drv_def fun_eq_iff h)
  show "quiet_frame s t" by (simp add: quiet_frame_def h delays_idle_def)
  have "vs_keys t = vs_keys s" "cz_keys t = cz_keys s" by (simp_all add: vs_keys_def cz_keys_def h)
  then show "box_ok t" using assms(1) ok
    unfolding box_ok_def vs_table.in_sync_def cz_table.in_sync_def reg_ok_def k h by metis
qed

lemma ctx_write_step:
  assumes "box_ok s"
  shows "box_ok (ctx_write s i c)" "quiet_frame s (ctx_write s i c)"
proof -
  have "pool_ok (ctx_write s i c)" using dev_okD(10) [OF box_okD(1) [OF assms]] by (simp add: pool_ok_def)
  moreover have "ctx_write s i c = s\<lparr>client_pool := client_pool (ctx_write s i c)\<rparr>" by (simp add: ctx_write_def)
  ultimately show "box_ok (ctx_write s i c)" "quiet_frame s (ctx_write s i c)" using pool_swap [OF assms] by blast+
qed

text \<open>
  How far a drain of the queue gets: \<open>k\<close> messages have been taken off and written, in order; it stops early only
  because the last write failed.
\<close>

definition drained :: "int \<Rightarrow> (nat \<Rightarrow> int) \<Rightarrow> nat \<Rightarrow> nat \<Rightarrow> HSB_RESP_T list \<Rightarrow> nat \<Rightarrow> box \<Rightarrow> box \<Rightarrow> bool" where
  "drained fd wret i n q k s t \<longleftrightarrow> k \<le> length q \<and> sent t = sent s @ map (\<lambda>m. TCP_WRITE fd (notify_frame m)) (take k q) \<and>
     inbox t i = drop k q \<and> (\<forall>j. j \<noteq> i \<longrightarrow> inbox t j = inbox s j) \<and> (\<forall>j. client_live t j = client_live s j) \<and>
     (\<forall>j < k - 1. 0 < wret (n + j)) \<and> (k < length q \<longrightarrow> 0 < k \<and> wret (n + k - 1) \<le> 0)"

lemma length_notify_frame: "resp_ok m \<Longrightarrow> length (notify_frame m) \<le> 64"
  by (cases m) (simp_all add: notify_frame_def)

lemma process_notify_loop_ok:
  assumes "box_ok s" and "i < MAX_TCP_CLIENT_NUM" and "inbox s i = q" and "\<forall>m \<in> set q. resp_ok m"
  shows "runs (process_notify_loop fd wret i n q s) (\<lambda>(r, t). box_ok t \<and> quiet_frame s t \<and> (\<exists>k. drained fd wret i n q k s t))"
  using assms
proof (induction q arbitrary: s n)
  case Nil
  then show ?case by (auto simp: drained_def quiet_frame_def)
next
  case (Cons m q)
  have len: "length (contexts s) = MAX_TCP_CLIENT_NUM" using dev_okD(10) [OF box_okD(1) [OF Cons.prems(1)]] by (simp add: pool_ok_def)
  let ?u = "send_out (ctx_write s i ((contexts s ! i)\<lparr>ctx_queue := q\<rparr>)) (TCP_WRITE fd (notify_frame m))"
  have u: "box_ok ?u" "quiet_frame s ?u"
    using ctx_write_step [OF Cons.prems(1)] by (simp, simp add: quiet_frame_def send_out_def delays_idle_def)
  have un: "inbox ?u j = (if j = i then q else inbox s j)" "client_live ?u j = client_live s j" for j
    using Cons.prems(2) len by (simp_all add: inbox_def client_live_def send_out_def nth_list_update)
  have "make_notify_resp (replicate 64 0) m = Some (int (length (notify_frame m)), fill 64 (notify_frame m))"
    using make_notify_resp_eq [of m 64] Cons.prems(4) by (simp add: replicate_fill)
  moreover have "take (length (notify_frame m)) (fill 64 (notify_frame m)) = notify_frame m"
    by (simp add: fill_def)
  ultimately have step: "process_notify_loop fd wret i n (m # q) s =
      (if wret n \<le> 0 then Some (wret n, ?u) else process_notify_loop fd wret i (Suc n) q ?u)"
    using length_notify_frame [of m] Cons.prems(2,4) len by (simp add: write_buf_def)
  show ?case
  proof (cases "wret n \<le> 0")
    case True
    then have "drained fd wret i n (m # q) 1 s ?u" using un by (simp add: drained_def)
    with True u show ?thesis unfolding step by auto
  next
    case False
    have "runs (process_notify_loop fd wret i (Suc n) q ?u) (\<lambda>(r, t). box_ok t \<and> quiet_frame ?u t \<and> (\<exists>k. drained fd wret i (Suc n) q k ?u t))"
      using Cons.prems(2,4) u un by (intro Cons.IH) simp_all
    moreover have "drained fd wret i n (m # q) (Suc k) s t" if d: "drained fd wret i (Suc n) q k ?u t" for k t
    proof -
      have "0 < wret (n + j)" if "j < k" for j
        using that d False by (cases j) (auto simp: drained_def)
      with d un False show ?thesis by (auto simp: drained_def)
    qed
    moreover have "quiet_frame s t" if "quiet_frame ?u t" for t using that u(2) by (auto simp: quiet_frame_def)
    ultimately show ?thesis using False unfolding step by (auto elim!: runs_mono)
  qed
qed

section \<open>Rounds of the threads\<close>

lemma pkt_frame_round:
  assumes "pkt_frame s t"
  shows "quiet_frame s t" "mail_ok s \<Longrightarrow> mail_ok t" "contexts t = contexts s"
  using assms by (auto simp: pkt_frame_def base_frame_def quiet_frame_def mail_ok_def inbox_def)

lemma put_client_context_step:
  assumes "box_ok s" and "i < MAX_TCP_CLIENT_NUM"
  shows "runs (put_client_context s i) (\<lambda>(r, t). box_ok t \<and> quiet_frame s t \<and> (mail_ok s \<longrightarrow> mail_ok t) \<and>
    \<not> client_live t i \<and> inbox t = inbox s \<and> (\<forall>j. j \<noteq> i \<longrightarrow> client_live t j = client_live s j))"
proof -
  have p: "length (contexts s) = MAX_TCP_CLIENT_NUM" "\<not> pool_mutex (client_pool s)"
    using dev_okD(10) [OF box_okD(1) [OF assms(1)]] by (simp_all add: pool_ok_def)
  let ?t = "ctx_write s i ((contexts s ! i)\<lparr>ctx_using := False, ctx_un_msgs := 0\<rparr>)"
  have "client_pool_update (pool_mutex_update (\<lambda>_. False)) (ctx_write (client_pool_update (pool_mutex_update (\<lambda>_. True)) s) i
      ((contexts s ! i)\<lparr>ctx_using := False, ctx_un_msgs := 0\<rparr>)) = ?t"
    using p(2) by (cases s; cases "client_pool s") (simp add: ctx_write_def)
  then have e: "put_client_context s i = Some (0, ?t)"
    using p assms(2) by (simp add: put_client_context_def pool_lock_def pool_unlock_def)
  have "inbox ?t = inbox s" using p(1) assms(2) by (auto simp: inbox_def fun_eq_iff nth_list_update)
  moreover have "\<not> client_live ?t i" "\<forall>j. j \<noteq> i \<longrightarrow> client_live ?t j = client_live s j"
    using p(1) by (simp_all add: client_live_def nth_list_update)
  ultimately show ?thesis using ctx_write_step [OF assms(1)] by (simp add: e mail_ok_def)
qed

lemma find_free_below: "j < find_free k cs - k \<Longrightarrow> ctx_using (cs ! j)"
proof (induction cs arbitrary: j k)
  case (Cons c cs)
  show ?case
  proof (cases "ctx_using c \<and> 0 < j")
    case True
    with Cons.IH [of "j - 1" "Suc k"] Cons.prems show ?thesis by (cases j) auto
  next
    case False
    with Cons.prems show ?thesis by (auto split: if_splits)
  qed
qed simp

lemma get_client_context_step:
  assumes "box_ok s"
  shows "runs (get_client_context s sockfd unfd) (\<lambda>(r, t). box_ok t \<and> quiet_frame s t \<and> (mail_ok s \<longrightarrow> mail_ok t) \<and> inbox t = inbox s \<and>
    (case r of None \<Rightarrow> t = s \<and> (\<forall>j < MAX_TCP_CLIENT_NUM. client_live s j)
     | Some i \<Rightarrow> i < MAX_TCP_CLIENT_NUM \<and> \<not> client_live s i \<and> (\<forall>j < i. client_live s j) \<and>
         (\<forall>j. client_live t j = (j = i \<or> client_live s j)) \<and> ctx_tcp_sockfd (contexts t ! i) = sockfd))"
proof -
  have p: "length (contexts s) = MAX_TCP_CLIENT_NUM" "\<not> pool_mutex (client_pool s)"
    using dev_okD(10) [OF box_okD(1) [OF assms(1)]] by (simp_all add: pool_ok_def)
  let ?i = "find_free 0 (contexts s)"
  have un: "client_pool_update (pool_mutex_update (\<lambda>_. False)) s = s" using p(2) by (cases s; cases "client_pool s") simp
  show ?thesis
  proof (cases "?i = MAX_TCP_CLIENT_NUM")
    case True
    then have "\<forall>c \<in> set (contexts s). ctx_using c" using find_free_full [of 0 "contexts s"] p(1) by simp
    then have "\<forall>j < MAX_TCP_CLIENT_NUM. client_live s j" using p(1) by (simp add: client_live_def)
    moreover have "get_client_context s sockfd unfd = Some (None, s)"
      using True p by (simp add: get_client_context_def pool_lock_def pool_unlock_def o_def un)
    ultimately show ?thesis using assms by (simp add: quiet_frame_def)
  next
    case False
    then have i: "?i < MAX_TCP_CLIENT_NUM" "\<not> ctx_using (contexts s ! ?i)"
      using find_free_bounds [of 0 "contexts s"] find_free_found [of 0 "contexts s"] p(1) by simp_all
    let ?c = "(contexts s ! ?i)\<lparr>ctx_using := True, ctx_tcp_sockfd := sockfd, ctx_un_sockfd := unfd, ctx_un_msgs := 0\<rparr>"
    let ?t = "ctx_write s ?i ?c"
    have "client_pool_update (pool_mutex_update (\<lambda>_. False)) (ctx_write (client_pool_update (pool_mutex_update (\<lambda>_. True)) s) ?i ?c) = ?t"
      using p(2) by (cases s; cases "client_pool s") (simp add: ctx_write_def)
    then have e: "get_client_context s sockfd unfd = Some (Some ?i, ?t)"
      using p i False by (simp add: get_client_context_def pool_lock_def pool_unlock_def Let_def)
    have "inbox ?t = inbox s" using p(1) i(1) by (auto simp: inbox_def fun_eq_iff nth_list_update)
    moreover have "\<forall>j. client_live ?t j = (j = ?i \<or> client_live s j)" "\<not> client_live s ?i" "ctx_tcp_sockfd (contexts ?t ! ?i) = sockfd"
      using p(1) i by (auto simp: client_live_def nth_list_update)
    moreover have "\<forall>j < ?i. client_live s j" using find_free_below [of _ 0 "contexts s"] p(1) i(1) by (auto simp: client_live_def)
    ultimately show ?thesis using ctx_write_step [OF assms(1)] i by (simp add: e mail_ok_def)
  qed
qed

lemma process_notify_step:
  assumes "box_ok s" and "mail_ok s" and "i < MAX_TCP_CLIENT_NUM"
  shows "runs (process_notify fd wret i s) (\<lambda>(r, t). box_ok t \<and> quiet_frame s t \<and> mail_ok t \<and>
    (\<exists>k. drained fd wret i 0 (inbox s i) k s t))"
proof -
  have len: "length (contexts s) = MAX_TCP_CLIENT_NUM" using dev_okD(10) [OF box_okD(1) [OF assms(1)]] by (simp add: pool_ok_def)
  then have e: "process_notify fd wret i s = process_notify_loop fd wret i 0 (inbox s i) s"
    using assms(3) by (simp add: process_notify_def inbox_def)
  have "mail_ok t" if "drained fd wret i 0 (inbox s i) k s t" for k t
    unfolding mail_ok_def
  proof (rule allI)
    fix j
    show "\<forall>m \<in> set (inbox t j). resp_ok m"
      using that assms(2) by (cases "j = i") (auto simp: drained_def mail_ok_def dest: in_set_dropD)
  qed
  with process_notify_loop_ok [OF assms(1,3) refl, of fd wret 0] assms(2) show ?thesis
    unfolding e by (auto simp: mail_ok_def elim!: runs_mono)
qed

text \<open>What a client may send in one read: complete packets, at most 1024 bytes.\<close>

definition read_wf :: "nat \<Rightarrow> client_io \<Rightarrow> bool" where
  "read_wf fuel io \<longleftrightarrow> io_sock_ready io \<and> 0 < io_nread io \<longrightarrow>
     (\<exists>pkts junk. (\<forall>p \<in> set pkts. pkt_wf p) \<and> io_msg io = concat pkts @ junk \<and>
        io_nread io = int (length (concat pkts)) \<and> length pkts \<le> fuel)"

lemma client_close_step:
  assumes "box_ok s" and "i < MAX_TCP_CLIENT_NUM"
  shows "runs (client_close i s) (\<lambda>(go, t). box_ok t \<and> quiet_frame s t \<and> (mail_ok s \<longrightarrow> mail_ok t) \<and> \<not> go)"
  using put_client_context_step [OF assms] by (auto simp: client_close_def elim!: runs_mono)

lemma notify_part_step:
  assumes "box_ok s" and "mail_ok s" and "i < MAX_TCP_CLIENT_NUM"
  shows "runs (do { c \<leftarrow> arr_get (contexts s) i; let t = ctx_write s i (c\<lparr>ctx_un_msgs := ctx_un_msgs c - 1\<rparr>);
      (r, t) \<leftarrow> process_notify fd wret i t; Some t }) (\<lambda>t. box_ok t \<and> quiet_frame s t \<and> mail_ok t)"
proof -
  have len: "length (contexts s) = MAX_TCP_CLIENT_NUM" using dev_okD(10) [OF box_okD(1) [OF assms(1)]] by (simp add: pool_ok_def)
  let ?t = "ctx_write s i ((contexts s ! i)\<lparr>ctx_un_msgs := ctx_un_msgs (contexts s ! i) - 1\<rparr>)"
  have "inbox ?t = inbox s" using len assms(3) by (auto simp: inbox_def fun_eq_iff nth_list_update)
  with assms(2) have m: "mail_ok ?t" by (simp add: mail_ok_def)
  have q: "quiet_frame s u" if "quiet_frame ?t u" for u
    using that ctx_write_step(2) [OF assms(1)] by (auto simp: quiet_frame_def)
  from process_notify_step [OF ctx_write_step(1) [OF assms(1)] m assms(3), of fd wret] show ?thesis
    using len assms(3) q by (auto simp: Let_def elim!: runs_mono)
qed

lemma tcp_client_round_step:
  assumes "box_ok s" and "mail_ok s" and "i < MAX_TCP_CLIENT_NUM" and "length (cb_queue (dev_cb s)) \<le> 128" and "read_wf fuel io"
    and "0 \<le> ctx_un_sockfd (contexts s ! i)"
  shows "runs (tcp_client_round fuel io i s) (\<lambda>(go, t). box_ok t \<and> quiet_frame s t \<and> mail_ok t)"
proof -
  have len: "length (contexts s) = MAX_TCP_CLIENT_NUM" using dev_okD(10) [OF box_okD(1) [OF assms(1)]] by (simp add: pool_ok_def)
  let ?fd = "ctx_tcp_sockfd (contexts s ! i)"
  have close: "runs (client_close i s) (\<lambda>(go, t). box_ok t \<and> quiet_frame s t \<and> mail_ok t)"
    using client_close_step [OF assms(1,3)] assms(2) by (auto elim!: runs_mono)
  have read: "runs (if io_sock_ready io then do { (fin, t) \<leftarrow> tcp_packets fuel ?fd (io_msg io) (io_nread io) 0 i s;
      if fin then Some t else None } else Some s) (\<lambda>t. box_ok t \<and> quiet_frame s t \<and> mail_ok t)"
    if "\<not> (io_sock_ready io \<and> io_nread io \<le> 0)"
  proof (cases "io_sock_ready io")
    case True
    with that assms(5) obtain pkts junk where k: "\<forall>p \<in> set pkts. pkt_wf p" "io_msg io = concat pkts @ junk"
      "io_nread io = int (length (concat pkts))" "length pkts \<le> fuel" by (auto simp: read_wf_def)
    from tcp_packets_wf [OF assms(1,4) k(1,4), of ?fd "[]" junk i] assms(2) pkt_frame_round(1,2) True show ?thesis
      by (auto simp: k(2,3) elim!: runs_mono)
  qed (use assms in \<open>simp add: quiet_frame_def\<close>)
  have tail: "runs (do { u \<leftarrow> (if io_un_ready io then do { c \<leftarrow> arr_get (contexts t) i;
        let u = ctx_write t i (c\<lparr>ctx_un_msgs := ctx_un_msgs c - 1\<rparr>); (r, u) \<leftarrow> process_notify ?fd (io_wret io) i u; Some u }
      else Some t); Some (True, u) }) (\<lambda>(go, u). box_ok u \<and> quiet_frame s u \<and> mail_ok u)"
    if "box_ok t \<and> quiet_frame s t \<and> mail_ok t" for t
  proof (cases "io_un_ready io")
    case True
    have q: "quiet_frame s u" if "quiet_frame t u" for u using that \<open>box_ok t \<and> quiet_frame s t \<and> mail_ok t\<close> by (auto simp: quiet_frame_def)
    from notify_part_step [of t i ?fd "io_wret io"] that assms(3) obtain u where
      u: "(do { c \<leftarrow> arr_get (contexts t) i; let u = ctx_write t i (c\<lparr>ctx_un_msgs := ctx_un_msgs c - 1\<rparr>);
      (r, u) \<leftarrow> process_notify ?fd (io_wret io) i u; Some u }) = Some u" "box_ok u \<and> quiet_frame t u \<and> mail_ok u" by (blast elim: runsE)
    then show ?thesis using True q unfolding u(1) by simp
  qed (use that in simp)
  show ?thesis
  proof (cases "io_select io \<le> 0 \<or> (io_sock_ready io \<and> io_nread io \<le> 0)")
    case True
    then show ?thesis using len assms(3,6) close by (auto simp: tcp_client_round_def Let_def simp del: runs_bind)
  next
    case False
    then have go: "\<not> io_select io \<le> 0" "\<not> (io_sock_ready io \<and> io_nread io \<le> 0)" by simp_all
    from read [OF go(2)] obtain t where t: "(if io_sock_ready io then do { (fin, t) \<leftarrow> tcp_packets fuel ?fd (io_msg io) (io_nread io) 0 i s;
      if fin then Some t else None } else Some s) = Some t" "box_ok t \<and> quiet_frame s t \<and> mail_ok t" by (rule runsE)
    have "arr_get (contexts s) i = Some (contexts s ! i)" "\<not> ctx_un_sockfd (contexts s ! i) < 0" using len assms(3,6) by simp_all
    then show ?thesis using tail [OF t(2)] by (simp only: tcp_client_round_def Let_def bind.bind_lunit go if_False t(1))
  qed
qed

section \<open>Properties\<close>

lemma deal_tcp_hdr:
  assumes "box_ok s" and "length (cb_queue (dev_cb s)) \<le> 128" and "need cmd \<le> length (hdr cmd l @ r)"
    and "cmd \<noteq> HSB_CMD_SET_STATUS" and "HSB_CMD_VALID cmd" and "0 < len" and "int l \<le> len" and "l < 65536"
  shows "deal_tcp_packet fd (hdr cmd l @ r) len reply s =
    map_option (tcp_finish fd (int l)) (tcp_switch cmd (hdr cmd l @ r) len reply blank s)"
proof -
  have u: "uint (of_nat l :: u16) = int l" using assms(8) by (simp add: unsigned_of_nat take_bit_nat_eq_self)
  have "runs (tcp_switch cmd (hdr cmd l @ r) len reply blank s) (case_ok s)"
    using assms by (intro tcp_switch_ok) simp_all
  from deal_tcp_packet_eq [OF GET_u16_hdr this] show ?thesis using assms(5-7) u by simp
qed

lemma take_fill_self: "take (length p) (fill n p) = p"
  by (simp add: fill_def)

lemma fill_Nil_iff [simp]: "fill n p = [] \<longleftrightarrow> p = [] \<and> n = 0"
  by (auto simp: fill_def)

lemma tcp_finish_frame: "p \<noteq> [] \<Longrightarrow> tcp_finish fd used (int (length p), fill n p, t) = (0, used, send_out t (TCP_WRITE fd p))"
  by (simp add: tcp_finish_def replied_def take_fill_self)

lemma result_frame_ne [simp]: "result_frame v \<noteq> []"
  by (simp add: result_frame_def)

lemmas tcp_finish_result = tcp_finish_frame [OF result_frame_ne, unfolded length_result_frame of_nat_numeral]

lemma hdr_ne [simp]: "hdr cmd l \<noteq> []"
  by (simp add: hdr_def le16_def)

lemma slot_fields: "GET_u32 (hdr cmd l @ le32 devid @ le16 i @ r) 4 = Some devid" "GET_u16 (hdr cmd l @ le32 devid @ le16 i @ r) 8 = Some i"
  by (simp_all add: GET_u32_def GET_u16_def hdr_def le16_def le32_def)

text \<open>
  C13. A timer set over the network can be read back over the network. A SET_TIMER packet for a slot of an online device is
  answered with a result of 0, and the next GET_TIMER packet for the slot is answered with exactly
  the bytes of the timer that was sent, under the header of a GET_TIMER response; whatever else
  lies behind the two packets in the receive buffer.
\<close>

theorem tcp_timer_roundtrip:
  assumes "box_ok s" and "length (cb_queue (dev_cb s)) \<le> 128" and "timer_fits s devid (tm_id v)" and "24 \<le> len" and "12 \<le> len'"
  shows "runs (do {
      (r, used, t) \<leftarrow> deal_tcp_packet fd (hdr HSB_CMD_SET_TIMER 24 @ timer_body_bytes devid v @ rest) len reply s;
      (r', used', u) \<leftarrow> deal_tcp_packet fd (hdr HSB_CMD_GET_TIMER 12 @ le32 devid @ le16 (tm_id v) @ rest') len' reply t;
      Some (r, used, r', used', u) })
    (\<lambda>(r, used, r', used', u). r = 0 \<and> used = 24 \<and> r' = 0 \<and> used' = 12 \<and> box_ok u \<and>
       sent u = sent s @ [TCP_WRITE fd (result_frame (errno HSB_E_OK)),
         TCP_WRITE fd (hdr HSB_CMD_GET_TIMER_RESP 24 @ timer_body_bytes devid v)])"
proof -
  let ?p = "hdr HSB_CMD_SET_TIMER 24 @ timer_body_bytes devid v @ rest"
  let ?g = "hdr HSB_CMD_GET_TIMER 12 @ le32 devid @ le16 (tm_id v) @ rest'"
  let ?a = "hdr HSB_CMD_GET_TIMER_RESP 24 @ timer_body_bytes devid v"
  have l: "length (timer_body_bytes devid v) = 20" using timer_codec.body_length [of devid v] by simp
  have d: "GET_u32 ?p 4 = Some devid" using slot_fields(1) [of HSB_CMD_SET_TIMER 24 devid] by (simp add: timer_body_bytes_def)
  from timer_service.store_then_read [OF box_okD(1) [OF assms(1)] assms(3), of "hdr HSB_CMD_SET_TIMER 24" rest]
  obtain w t where w: "get_timer_pkt ?p = Some w" and t: "set_dev_timer s devid w = Some (errno HSB_E_OK, t)"
    "timer_service.answer t devid (tm_id v) = ?a" by (auto elim!: runsE)
  have ed: "slot_edit s t" using set_dev_timer_edit [OF box_okD(1) [OF assms(1)], of devid w] t(1) by simp
  note tp = slot_edit_pkt [OF assms(1) ed]
  have sw: "tcp_switch HSB_CMD_SET_TIMER ?p len reply blank s = Some (8, fill 1024 (result_frame (errno HSB_E_OK)), t)"
    using d w t(1) by (simp add: tcp_switch_def tcp_set_timer_def)
  have first: "deal_tcp_packet fd ?p len reply s = Some (0, 24, send_out t (TCP_WRITE fd (result_frame (errno HSB_E_OK))))"
    using deal_tcp_hdr [OF assms(1,2), of HSB_CMD_SET_TIMER 24 "timer_body_bytes devid v @ rest" len fd reply] sw assms(4) l
    by (simp add: need_def HSB_CMD_VALID_def tcp_finish_result)
  let ?t = "send_out t (TCP_WRITE fd (result_frame (errno HSB_E_OK)))"
  have ok: "box_ok ?t" "length (cb_queue (dev_cb ?t)) \<le> 128"
    using tp pkt_frame_devs [OF conjunct2 [OF tp] assms(2)] by (simp, simp add: send_out_def)
  have ans: "timer_service.answer ?t = timer_service.answer t"
    by (simp add: fun_eq_iff timer_service.answer_def timer_slot_def online_dev_def dev_at_def [abs_def] send_out_def)
  have "tcp_switch HSB_CMD_GET_TIMER ?g len' reply blank ?t = Some (24, fill 1024 ?a, ?t)"
    using timer_service.read_eq [OF box_okD(1) [OF ok(1)], of devid "tm_id v" zero_timer ?t] l
    unfolding tcp_switch_def tcp_get_timer_def slot_fields bind.bind_lunit by (simp add: ans t(2) del: errno.simps)
  then have second: "deal_tcp_packet fd ?g len' reply ?t = Some (0, 12, send_out ?t (TCP_WRITE fd ?a))"
    using deal_tcp_hdr [OF ok, of HSB_CMD_GET_TIMER 12 "le32 devid @ le16 (tm_id v) @ rest'" len' fd reply] assms(5) l
      tcp_finish_frame [of ?a fd 12 1024 ?t] by (simp add: need_def HSB_CMD_VALID_def)
  have "sent t = sent s" using slot_edit_async [OF ed] by simp
  with first second ok tp show ?thesis by (simp only: bind.bind_lunit prod.case runs_Some send_out_frame(9) box_ok_send_out) simp
qed

text \<open>
  C14. No packet of a complete command harms the box. Whatever a packet says, as long as what was received reaches as far as
  its command's fields and at most 128 devices are online, handling it is defined, keeps the invariant of registry,
  drivers, queues and buffers, starts no delay, leaves the clients' queues
  alone and consumes at most what was received.
\<close>

theorem tcp_packet_safe:
  assumes "box_ok s" and "length (cb_queue (dev_cb s)) \<le> 128" and "4 \<le> length b" and "len \<le> int (length b)"
    and "\<And>cmd. GET_u16 b 0 = Some cmd \<Longrightarrow> int (need cmd) \<le> len"
  shows "runs (deal_tcp_packet fd b len reply s) (\<lambda>(r, used, t). box_ok t \<and> (delays_idle s \<longrightarrow> delays_idle t) \<and>
    inbox t = inbox s \<and> cb_queue (dev_cb t) = cb_queue (dev_cb s) \<and> 0 \<le> used \<and> used \<le> len)"
  using deal_tcp_packet_ok [OF assms] by (rule runs_mono) (auto simp: pkt_frame_def base_frame_def inbox_def fun_eq_iff)

text \<open>
  C15. The loop over the packets of a read ends. When the bytes of one read are complete packets, the
  loop of \<^verbatim>\<open>tcp_client_handler\<close> leaves after at most as many rounds as there are packets, and the invariant holds.
\<close>

theorem tcp_read_terminates:
  assumes "box_ok s" and "length (cb_queue (dev_cb s)) \<le> 128" and "\<forall>p \<in> set pkts. pkt_wf p"
  shows "runs (tcp_packets (length pkts) fd (concat pkts @ junk) (int (length (concat pkts))) 0 i s)
    (\<lambda>(left, t). left \<and> box_ok t)"
  using tcp_packets_wf [OF assms order_refl, of fd "[]" junk i] by (auto elim!: runs_mono)

text \<open>
  C16. Packets that arrive in one read are handled as if each had been read alone, in their order, provided none
  of them is a SET_STATUS: framing by the length field is correct for all other commands.
\<close>

theorem coalesced_packets:
  assumes "box_ok s" and "length (cb_queue (dev_cb s)) \<le> 128" and "\<forall>p \<in> set pkts. pkt_wf p \<and> pkt_cmd p \<noteq> HSB_CMD_SET_STATUS"
    and "length pkts \<le> fuel"
  shows "tcp_packets fuel fd (concat pkts @ junk) (int (length (concat pkts))) 0 i s =
    map_option (Pair True) (for_list (\<lambda>p s. map_option (\<lambda>(r, used, t). t) (deal_tcp_packet fd p (int (length p)) (Some i) s)) pkts s)"
  using tcp_packets_alone [OF assms, of fd "[]" junk i] by (simp add: deal_alone_def [abs_def])

text \<open>
  C21. A valid command with a length field of 0 stops the client's thread for good: the loop over the packets of the
  read consumes nothing, so it is not left after any number of rounds.
\<close>

theorem zero_length_never_leaves:
  assumes "box_ok s" and "length (cb_queue (dev_cb s)) \<le> 128" and "HSB_CMD_VALID cmd"
    and "need cmd \<le> length (hdr cmd 0 @ body)"
  shows "runs (tcp_packets fuel fd (hdr cmd 0 @ body @ junk) (int (length (hdr cmd 0 @ body))) 0 i s) (\<lambda>(left, t). \<not> left)"
  using assms by (intro tcp_packets_stuck [where cmd = cmd]) simp_all

lemma find_dev_same:
  assumes "dev_heap t = dev_heap s" and "cb_queue (dev_cb t) = cb_queue (dev_cb s)"
  shows "find_dev t devid = find_dev s devid"
proof -
  have d: "deref t p = deref s p" for p using assms(1) by (simp add: deref_def)
  have "find_dev_loop t ps devid = find_dev_loop s ps devid" for ps
  proof (induction ps)
    case (Cons p ps)
    then show ?case by (cases "deref s p") (simp_all add: d)
  qed simp
  then show ?thesis using assms(2) by (simp add: find_dev_def)
qed

lemma short_status: "get_dev_status_pkt b 4 st = Some (st\<lparr>st_num := 0xFFFFFFFF\<rparr>)"
  by (simp add: get_dev_status_pkt_def Let_def signed_divide_int_def)

text \<open>
  C22. A SET_STATUS packet that ends after its header brings the daemon down. Its number of statuses is
  computed as -1 and the request that is queued carries 4294967295. A driver call for a Wi-Fi switch is undefined exactly when the request has more than the
  eight statuses it has room for, because the loop then reads (and a little later writes) behind its arrays; so when the
  asynchronous thread comes to the request of this packet, it has no further state.
\<close>

theorem short_set_status_overruns:
  assumes "box_ok s" and "async_queue s = []" and "tc_active (cb_async_thread_ctl (dev_cb s))"
    and "find_dev s devid = Some p" and "deref s p = Some d" and "dev_op d = Some virtual_switch_op"
    and "vs_find_dev_by_id s devid \<noteq> None" and "length (snd (ev_vs_reply env)) = 64"
  shows "let act = HSB_ACT_TYPE_SET_STATUS reply (zero_status\<lparr>st_devid := devid, st_num := 0xFFFFFFFF\<rparr>) in
    deal_tcp_packet fd (hdr HSB_CMD_SET_STATUS 4 @ le32 devid @ rest) 4 reply s = Some (0, 4, pushed s [act]) \<and>
    async_process_step env (pushed s [act]) = None \<and>
    (\<forall>st. status_shape st \<and> st_devid st = devid \<longrightarrow>
       (virtual_switch_set_status (ev_vs_reply env) st s = None \<longleftrightarrow> 8 < unat (st_num st)))"
proof -
  let ?b = "hdr HSB_CMD_SET_STATUS 4 @ le32 devid @ rest" and ?st = "zero_status\<lparr>st_devid := devid, st_num := 0xFFFFFFFF\<rparr>"
  let ?a = "HSB_ACT_TYPE_SET_STATUS reply ?st"
  have m: "\<not> tc_mutex (cb_async_thread_ctl (dev_cb s))" using dev_okD(7) [OF box_okD(1) [OF assms(1)]] .
  have g: "GET_u32 ?b 4 = Some devid" by (simp add: GET_u32_def hdr_def le16_def le32_def)
  have r: "deal_tcp_packet fd ?b 4 reply s = Some (0, 4, pushed s [?a])"
    using m by (simp add: deal_tcp_packet_def check_tcp_pkt_valid_def HSB_CMD_VALID_def tcp_switch_def tcp_set_status_def g
        short_status set_dev_status_async_def push_async_pushed)
  have find: "find_dev (popped (pushed s [?a])) devid = Some p" "deref (popped (pushed s [?a])) p = Some d"
    "vs_find_dev_by_id (popped (pushed s [?a])) devid = vs_find_dev_by_id s devid"
    using assms(4,5) find_dev_same [of "popped (pushed s [?a])" s devid] by (auto simp: popped_def deref_def vs_find_dev_by_id_def split: if_splits)
  have p: "p \<noteq> 0" using assms(5) by (simp add: deref_def split: if_splits)
  obtain pdev where pdev: "vs_find_dev_by_id s devid = Some pdev" using assms(7) by auto
  with find(3) have "virtual_switch_set_status (ev_vs_reply env) ?st (popped (pushed s [?a])) = None"
    by (intro virtual_switch_set_status_overrun) (simp_all add: status_shape_def zero_status_def)
  then have "process_dev_act env ?a (popped (pushed s [?a])) = None"
    using find p assms(6) by (simp add: process_dev_act_def set_dev_status_def op_set_status_def zero_status_def)
  moreover have "async_process_step env (pushed s [?a]) = process_dev_act env ?a (popped (pushed s [?a]))"
  proof -
    have "dev_cb_update (cb_async_thread_ctl_update (\<lambda>_. (cb_async_thread_ctl (dev_cb (pushed s [?a])))\<lparr>tc_data_queue := []\<rparr>)) (pushed s [?a])
        = popped (pushed s [?a])"
      using assms(2) by (cases s; cases "dev_cb s"; cases "cb_async_thread_ctl (dev_cb s)") (simp add: popped_def pushed_def)
    then show ?thesis using assms(2,3) m by (simp add: async_process_step_def thread_control_pop_data_def)
  qed
  moreover have "virtual_switch_set_status (ev_vs_reply env) st s = None \<longleftrightarrow> 8 < unat (st_num st)"
    if "status_shape st" "st_devid st = devid" for st
    using virtual_switch_set_status_overrun [of s st pdev] virtual_switch_set_status_eq [of s st pdev "ev_vs_reply env"] pdev that assms(8)
    by (cases "8 < unat (st_num st)") auto
  ultimately show ?thesis using r by (simp add: Let_def)
qed

text \<open>
  C23. SET_STATUS takes its number of statuses from everything that was received, not from its own length field: with
  another packet behind it in the same read, the bytes of that packet are queued as further statuses.
\<close>

theorem set_status_swallows_next:
  assumes "box_ok s" and "length p = 4"
  shows "deal_tcp_packet fd (hdr HSB_CMD_SET_STATUS 8 @ le32 devid @ p @ rest) 12 reply s =
    Some (0, 8, pushed s [HSB_ACT_TYPE_SET_STATUS reply \<lparr>st_devid = devid, st_num = 1,
      st_id = of_le16 (p ! 0) (p ! 1) # replicate 7 0, st_val = of_le16 (p ! 2) (p ! 3) # replicate 7 0\<rparr>])"
proof -
  let ?b = "hdr HSB_CMD_SET_STATUS 8 @ le32 devid @ p @ rest"
  obtain w x y z where p: "p = [w, x, y, z]" using four_bytes [OF assms(2)] by blast
  have m: "\<not> tc_mutex (cb_async_thread_ctl (dev_cb s))" using dev_okD(7) [OF box_okD(1) [OF assms(1)]] .
  have g: "GET_u32 ?b 4 = Some devid" "GET_u16 ?b 8 = Some (of_le16 w x)" "GET_u16 ?b 10 = Some (of_le16 y z)"
    by (simp_all add: GET_u32_def GET_u16_def hdr_def le16_def le32_def p)
  have "get_dev_status_pkt ?b 12 (zero_status\<lparr>st_devid := devid\<rparr>) = Some \<lparr>st_devid = devid, st_num = 1,
      st_id = of_le16 w x # replicate 7 0, st_val = of_le16 y z # replicate 7 0\<rparr>"
    using g by (simp add: get_dev_status_pkt_def get_dev_status_body_def signed_divide_int_def zero_status_def numeral_eq_Suc)
  then show ?thesis
    using m g by (simp add: deal_tcp_packet_def check_tcp_pkt_valid_def HSB_CMD_VALID_def tcp_switch_def tcp_set_status_def
        set_dev_status_async_def push_async_pushed p)
qed

text \<open>
  C18. GET_DEVS answers with the ids of exactly the online devices, in the order of the registry's queue.
\<close>

theorem get_devs_lists_online:
  assumes "box_ok s" and "length (cb_queue (dev_cb s)) \<le> 128" and "4 \<le> len"
  shows "deal_tcp_packet fd (hdr HSB_CMD_GET_DEVS 4 @ rest) len reply s =
    Some (0, 4, send_out s (TCP_WRITE fd (hdr HSB_CMD_GET_DEVS_RESP (4 + 4 * length (cb_queue (dev_cb s))) @
      concat (map (\<lambda>p. le32 (dev_id (dev_at s p))) (cb_queue (dev_cb s))))))"
proof -
  have "devs_frame (online_ids s) = hdr HSB_CMD_GET_DEVS_RESP (4 + 4 * length (cb_queue (dev_cb s))) @
      concat (map (\<lambda>p. le32 (dev_id (dev_at s p))) (cb_queue (dev_cb s)))"
    by (simp add: devs_frame_def online_ids_def o_def)
  moreover have "devs_frame (online_ids s) \<noteq> []" by (simp add: devs_frame_def)
  ultimately show ?thesis
    using deal_tcp_hdr [OF assms(1,2), of HSB_CMD_GET_DEVS 4 rest len fd reply] tcp_get_devs_eq [OF assms(1,2)] assms(3)
      tcp_finish_frame [of "devs_frame (online_ids s)" fd 4 1024 s]
    by (simp add: need_def HSB_CMD_VALID_def tcp_switch_def)
qed

text \<open>
  C24. With more than 128 devices online, GET_DEVS writes past the array of 128 ids on the stack of the client's thread.
\<close>

theorem get_devs_overruns:
  assumes "box_ok s" and "128 < length (cb_queue (dev_cb s))" and "4 \<le> len"
  shows "deal_tcp_packet fd (hdr HSB_CMD_GET_DEVS 4 @ rest) len reply s = None"
proof -
  let ?l = "dev_cb_update (cb_mutex_update (\<lambda>_. True)) s"
  have m: "\<not> cb_mutex (dev_cb s)" using box_okD(1) [OF assms(1)] by (rule dev_okD)
  have "\<forall>p \<in> set (cb_queue (dev_cb s)). deref ?l p = Some (dev_at ?l p) \<and> p \<noteq> 0"
    using dev_ok_deref [OF box_okD(1) [OF assms(1)]] by simp
  from get_dev_id_list_loop_overrun [OF this, of "replicate 128 0" 0] assms(2) m
  have "get_dev_id_list s (replicate 128 0) = None"
    by (simp add: get_dev_id_list_def HSB_DEVICE_CB_LOCK_def)
  then show ?thesis using assms(3)
    by (simp add: deal_tcp_packet_def check_tcp_pkt_valid_hdr HSB_CMD_VALID_def tcp_switch_def tcp_get_devs_def)
qed

text \<open>
  A command the daemon does not implement (a response code, an event code, a gap in the numbering) is answered with a
  result of 0, the code of success: REPLY_FAIL is 0 and so is HSB_E_OK.
\<close>

theorem unknown_command_reported_ok:
  assumes "box_ok s" and "length (cb_queue (dev_cb s)) \<le> 128" and "HSB_CMD_VALID cmd" and "4 \<le> len"
    and "cmd \<notin> {HSB_CMD_GET_DEVS, HSB_CMD_GET_INFO, HSB_CMD_GET_STATUS, HSB_CMD_SET_STATUS, HSB_CMD_GET_TIMER, HSB_CMD_SET_TIMER,
      HSB_CMD_DEL_TIMER, HSB_CMD_GET_DELAY, HSB_CMD_SET_DELAY, HSB_CMD_DEL_DELAY, HSB_CMD_GET_LINKAGE, HSB_CMD_SET_LINKAGE,
      HSB_CMD_DEL_LINKAGE, HSB_CMD_DO_ACTION, HSB_CMD_PROBE_DEV}"
  shows "deal_tcp_packet fd (hdr cmd 4 @ rest) len reply s =
    Some (0, 4, send_out s (TCP_WRITE fd (result_frame (errno HSB_E_OK))))"
  using deal_tcp_hdr [OF assms(1,2), of cmd 4 rest len fd reply] assms(3-5)
  by (simp add: need_def tcp_switch_def tcp_finish_result)

text \<open>
  C17. Delivery to a client. When the writes succeed, draining the queue of a context sends every waiting message, encoded,
  exactly once and in the order of arrival, empties the queue, and touches no other client.
\<close>

theorem notifications_in_order:
  assumes "box_ok s" and "mail_ok s" and "i < MAX_TCP_CLIENT_NUM" and "\<And>n. 0 < wret n"
  shows "runs (process_notify fd wret i s) (\<lambda>(r, t). box_ok t \<and> mail_ok t \<and> inbox t i = [] \<and>
    sent t = sent s @ map (\<lambda>m. TCP_WRITE fd (notify_frame m)) (inbox s i) \<and> (\<forall>j. j \<noteq> i \<longrightarrow> inbox t j = inbox s j))"
proof -
  have all: "inbox t i = [] \<and> sent t = sent s @ map (\<lambda>m. TCP_WRITE fd (notify_frame m)) (inbox s i) \<and>
      (\<forall>j. j \<noteq> i \<longrightarrow> inbox t j = inbox s j)" if d: "drained fd wret i 0 (inbox s i) k s t" for k t
  proof -
    have "\<not> k < length (inbox s i)" using d assms(4) [of "k - 1"] by (auto simp: drained_def)
    with d have "k = length (inbox s i)" by (simp add: drained_def)
    with d show ?thesis by (simp add: drained_def)
  qed
  show ?thesis
    by (rule runs_mono [OF process_notify_step [OF assms(1-3), of fd wret]]) (use all in blast)
qed

text \<open>
  C20. Contexts of clients. A connection gets the lowest context that is not in use, and is refused only when all five are. When
  client \<open>i\<close> goes and another connects, the new one gets the lowest free context \<open>k\<close>, which is that of the client who left
  unless a lower one was free already; and because a context that is put back keeps its queue, the new client inherits the
  messages that the last one of its context did not read.
\<close>

theorem context_reuse_keeps_mail:
  assumes "box_ok s" and "i < MAX_TCP_CLIENT_NUM"
  shows "runs (get_client_context s sockfd unfd) (\<lambda>(c, u). inbox u = inbox s \<and>
      (case c of None \<Rightarrow> u = s \<and> (\<forall>j < MAX_TCP_CLIENT_NUM. client_live s j)
       | Some k \<Rightarrow> \<not> client_live s k \<and> (\<forall>j < k. client_live s j) \<and> (\<forall>j. client_live u j = (j = k \<or> client_live s j)))) \<and>
    runs (do { (r, t) \<leftarrow> put_client_context s i; (c, u) \<leftarrow> get_client_context t sockfd unfd; Some (c, u) })
    (\<lambda>(c, u). \<exists>k \<le> i. c = Some k \<and> (k = i \<or> \<not> client_live s k) \<and> (\<forall>j < k. client_live s j) \<and>
      inbox u k = inbox s k \<and> ctx_tcp_sockfd (contexts u ! k) = sockfd \<and>
      (\<forall>j. client_live u j = (j = k \<or> j \<noteq> i \<and> client_live s j)))"
proof (rule conjI)
  show "runs (get_client_context s sockfd unfd) (\<lambda>(c, u). inbox u = inbox s \<and>
      (case c of None \<Rightarrow> u = s \<and> (\<forall>j < MAX_TCP_CLIENT_NUM. client_live s j)
       | Some k \<Rightarrow> \<not> client_live s k \<and> (\<forall>j < k. client_live s j) \<and> (\<forall>j. client_live u j = (j = k \<or> client_live s j))))"
    using get_client_context_step [OF assms(1), of sockfd unfd] by (rule runs_mono) (auto split: option.splits)
  from put_client_context_step [OF assms] obtain r t where t: "put_client_context s i = Some (r, t)" "box_ok t"
    "\<not> client_live t i" "inbox t = inbox s" "\<forall>j. j \<noteq> i \<longrightarrow> client_live t j = client_live s j" by (auto elim!: runsE)
  from get_client_context_step [OF t(2), of sockfd unfd] obtain c u where
    u: "get_client_context t sockfd unfd = Some (c, u)" "inbox u = inbox t" and
    c: "case c of None \<Rightarrow> u = t \<and> (\<forall>j < MAX_TCP_CLIENT_NUM. client_live t j)
     | Some k \<Rightarrow> k < MAX_TCP_CLIENT_NUM \<and> \<not> client_live t k \<and> (\<forall>j < k. client_live t j) \<and>
         (\<forall>j. client_live u j = (j = k \<or> client_live t j)) \<and> ctx_tcp_sockfd (contexts u ! k) = sockfd" by (auto elim!: runsE)
  from c t(3) assms(2) obtain k where k: "c = Some k" "\<not> client_live t k" "\<forall>j < k. client_live t j"
    "\<forall>j. client_live u j = (j = k \<or> client_live t j)" "ctx_tcp_sockfd (contexts u ! k) = sockfd" by (cases c) auto
  from k(3) t(3) have "k \<le> i" by (metis not_le)
  moreover from this k(3) t(5) have "\<forall>j < k. client_live s j" by (metis not_le)
  moreover have "k = i \<or> \<not> client_live s k" using k(2) t(5) by metis
  moreover have "\<forall>j. client_live u j = (j = k \<or> j \<noteq> i \<and> client_live s j)" using k(4) t(3,5) by metis
  ultimately show "runs (do { (r, t) \<leftarrow> put_client_context s i; (c, u) \<leftarrow> get_client_context t sockfd unfd; Some (c, u) })
    (\<lambda>(c, u). \<exists>k \<le> i. c = Some k \<and> (k = i \<or> \<not> client_live s k) \<and> (\<forall>j < k. client_live s j) \<and>
      inbox u k = inbox s k \<and> ctx_tcp_sockfd (contexts u ! k) = sockfd \<and>
      (\<forall>j. client_live u j = (j = k \<or> j \<noteq> i \<and> client_live s j)))"
    using t(1,4) u k(1,5) by auto
qed

text \<open>
  C19. Discovery over UDP. A well-formed discover request is answered with version 1.0 and box id 1; every other datagram,
  a discover response included, is answered with nothing.
\<close>

theorem udp_discover:
  assumes "8 \<le> length b" and "len \<le> 65535"
  shows "deal_udp_packet b len s = Some
    (if 0 < len \<and> take 2 b = le16 HSB_CMD_BOX_DISCOVER \<and> take 2 (drop 2 b) = le16 (of_int len)
     then (0, send_out s (UDP_REPLY (hdr HSB_CMD_BOX_DISCOVER_RESP 8 @ [0, 1] @ le16 1)))
     else if 0 < len \<and> take 2 b = le16 HSB_CMD_BOX_DISCOVER_RESP \<and> take 2 (drop 2 b) = le16 (of_int len) then (0, s)
     else (- 1, s))"
proof -
  obtain w x y z q r t u v where b: "b = w # x # y # z # q # r # t # u # v"
    using assms(1) by (auto simp: Suc_le_length_iff numeral_eq_Suc)
  have g: "GET_u16 b 0 = Some (of_le16 w x)" "GET_u16 b 2 = Some (of_le16 y z)" "GET_u16 b 6 = Some (of_le16 t u)"
    by (simp_all add: GET_u16_def b)
  have c: "(take 2 b = le16 v) = (of_le16 w x = v)" for v using le16_of_le16 [of w x] by (auto simp: b numeral_2_eq_2 le16_def)
  have d: "(take 2 (drop 2 b) = le16 (of_int len)) = (len = uint (of_le16 y z))" if "0 < len"
  proof -
    have "(take 2 (drop 2 b) = le16 (of_int len)) = (of_le16 y z = of_int len)"
      using le16_of_le16 [of y z] by (auto simp: b numeral_2_eq_2 le16_def)
    moreover have "uint (of_int len :: u16) = len" using that assms(2) by (simp add: uint_word_of_int)
    ultimately show ?thesis by (metis word_of_int_uint)
  qed
  have r: "reply_box_discover (replicate 32 0) 1 = Some (8, fill 32 (hdr HSB_CMD_BOX_DISCOVER_RESP 8 @ [0, 1] @ le16 1))"
    by (simp add: reply_box_discover_def replicate_fill)
  have f: "take 8 (fill 32 (hdr HSB_CMD_BOX_DISCOVER_RESP 8 @ [0, 1] @ le16 1)) = hdr HSB_CMD_BOX_DISCOVER_RESP 8 @ [0, 1] @ le16 1"
    using take_fill_self [of "hdr HSB_CMD_BOX_DISCOVER_RESP 8 @ [0, 1] @ le16 1" 32] by simp
  show ?thesis
    using d f by (auto simp: deal_udp_packet_def check_udp_pkt_valid_def UDP_CMD_VALID_def g c r Let_def)
qed

end
