(* ===== verification/Demo_Box.thy ===== *)
theory Demo_Box
  imports Net_Client
begin

text \<open>
  A concrete state of the daemon, used wherever a theorem is applied to an input: two
  online switches (ids 1 and 2), one offline switch (id 3), one connected client in slot
  0, one driver. Device 1 has a daily timer at 12:30:00, a delay and a linkage rule in slot
  0; the timer of device 2 has already expired today.
\<close>

definition demo_info :: "nat \<Rightarrow> HSB_DEV_INFO_T" where
  "demo_info n = \<lparr>info_cls = 0, info_interface = 1, info_mac = of_nat n # replicate 7 0\<rparr>"

definition demo_timer :: HSB_TIMER_T where
  "demo_timer = zero_timer\<lparr>tm_work_mode := 0xFF, tm_hour := 12, tm_min := 30, tm_wday := 0x7F,
     tm_act_id := 0, tm_act_param1 := 1\<rparr>"

definition demo_link :: HSB_LINKAGE_T where
  "demo_link = zero_linkage\<lparr>lk_work_mode := 0xFF, lk_evt_id := 2, lk_act_devid := 2, lk_act_param1 := 1\<rparr>"

definition demo_dev :: "nat \<Rightarrow> bool \<Rightarrow> HSB_DEV_T" where
  "demo_dev n expired = zero_dev\<lparr>dev_id := of_nat n, dev_work_mode := HSB_WORK_MODE_ALL,
     dev_driver := Some virtual_switch_drv, dev_op := Some virtual_switch_op, dev_info := demo_info n,
     dev_timer := demo_timer # replicate 31 zero_timer,
     dev_timer_status := \<lparr>ts_active = True, ts_expired = expired\<rparr> # replicate 31 zero_timer_status,
     dev_delay_status := zero_delay_status\<lparr>ds_active := True\<rparr> # replicate 7 zero_delay_status,
     dev_link := demo_link # replicate 7 zero_linkage,
     dev_link_status := \<lparr>ls_active = True\<rparr> # replicate 7 zero_linkage_status\<rparr>"

definition demo_cb :: HSB_DEVICE_CB_T where
  "demo_cb = \<lparr>cb_queue = [1, 2], cb_mutex = False, cb_offq = [3], cb_driverq = [virtual_switch_drv, cz_drv],
     cb_dev_id = 4, cb_work_mode = HSB_WORK_MODE_HOME, cb_sec_today = 0,
     cb_async_thread_ctl = \<lparr>tc_data_queue = [], tc_mutex = False, tc_active = True\<rparr>\<rparr>"

definition demo_pool :: tcp_client_pool where
  "demo_pool = \<lparr>pool_context = zero_context\<lparr>ctx_using := True, ctx_tcp_sockfd := 9\<rparr> # replicate 4 zero_context,
     pool_mutex = False\<rparr>"

definition demo_vs :: "nat \<Rightarrow> u32 \<Rightarrow> u32 \<Rightarrow> VS_DEV_T" where
  "demo_vs n ip idle = \<lparr>vs_id = of_nat n, vs_ip = ip, vs_idle_time = idle,
     vs_info = \<lparr>vsi_dev_class = 0, vsi_interface = 1, vsi_mac = of_nat n # replicate 5 0, vsi_resv = replicate 2 0,
       vsi_status_bm = 0, vsi_event_bm = 0, vsi_action_bm = 0\<rparr>\<rparr>"

definition demo_cz :: CZ_CONTEXT_T where
  "demo_cz = \<lparr>cz_queue = [], cz_condition = False, cz_is_waiting = False, cz_send_buf = replicate 256 0,
     cz_recv_buf = replicate 256 0, cz_send_len = 0, cz_recv_len = 0, cz_trans_id = 1, cz_cond_mutex = False, cz_un_msgs = 0\<rparr>"

definition demo_box :: box where
  "demo_box = \<lparr>dev_heap = [1 \<mapsto> demo_dev 1 False, 2 \<mapsto> demo_dev 2 True, 3 \<mapsto> demo_dev 3 False],
     next_ptr = 4, dev_cb = demo_cb, client_pool = demo_pool, vs_queue = [demo_vs 1 10 0, demo_vs 2 11 11],
     cz_ctx = demo_cz, sent = [], stk_status = zero_status, stk_buf = replicate 64 0xCC\<rparr>"

definition demo_clock :: clock where
  "demo_clock = \<lparr>clk_now = 1000, clk_hour = 12, clk_min = 30, clk_sec = 2, clk_wday = 3\<rparr>"

lemmas demo_defs = virtual_switch_drv_def cz_drv_def demo_info_def demo_timer_def demo_link_def demo_dev_def demo_cb_def
  demo_pool_def demo_vs_def demo_cz_def demo_box_def demo_clock_def zero_context_def

lemma demo_dev_shape: "dev_shape (demo_dev n e)"
  by (simp add: dev_shape_def demo_dev_def demo_info_def zero_defs)

lemma demo_dev_simps [simp]:
  "dev_id (demo_dev n e) = of_nat n" "dev_driver (demo_dev n e) = Some virtual_switch_drv"
  "dev_info (demo_dev n e) = demo_info n" "dev_work_mode (demo_dev n e) = 0xFF"
  by (simp_all add: demo_dev_def)

lemma demo_box_ok: "dev_ok demo_box"
  by (simp add: dev_ok_def dev_obj_ok_def demo_box_def demo_cb_def demo_pool_def pool_ok_def
      demo_dev_shape zero_status_shape HSB_WORK_MODE_VALID_def)

lemma demo_box_find:
  "find_dev demo_box 1 = Some 1" "find_dev demo_box 2 = Some 2"
  "deref demo_box 1 = Some (demo_dev 1 False)" "deref demo_box 2 = Some (demo_dev 2 True)"
  "dev_at demo_box 1 = demo_dev 1 False" "dev_at demo_box 2 = demo_dev 2 True"
  "cb_queue (dev_cb demo_box) = [1, 2]"
  by (simp_all add: find_dev_def deref_def dev_at_def demo_box_def demo_cb_def)

lemmas demo_find = demo_box_find demo_box_find [unfolded One_nat_def]

lemma demo_clock_ok: "clock_ok demo_clock"
  by (simp add: clock_ok_def demo_clock_def)

lemma demo_box_abs: "abs_reg demo_box = ([demo_dev 1 False, demo_dev 2 True], [demo_dev 3 False])"
  by (simp add: abs_reg_def dev_at_def demo_box_def demo_cb_def)

lemma demo_box_sync: "box_ok demo_box"
proof -
  have drv: "find_drv demo_box 1 \<noteq> None" "find_drv demo_box 2 \<noteq> None"
    by (simp_all add: find_drv_def demo_defs)
  have id: "drv_id virtual_switch_drv = 1" by (simp add: virtual_switch_drv_def)
  have keys: "vs_keys demo_box = reg_keys 1 demo_box" "cz_keys demo_box = reg_keys 2 demo_box"
    by (simp_all add: vs_keys_def cz_keys_def reg_keys_def demo_box_abs of_drv_def id dev_key_def)
      (simp_all add: demo_box_def demo_vs_def vs_key_def demo_info_def demo_cz_def numeral_eq_Suc)
  have dist: "distinct (map snd (reg_keys 1 demo_box))" "distinct (map snd (reg_keys 2 demo_box))"
    by (simp_all add: reg_keys_def demo_box_abs of_drv_def id dev_key_def demo_info_def)
  have bufs: "cz_bufs (cz_ctx demo_box)" "length (stk_buf demo_box) = 64"
    by (simp_all add: demo_box_def demo_cz_def cz_bufs_def)
  show ?thesis
    unfolding box_ok_def vs_table.in_sync_def cz_table.in_sync_def reg_ok_def keys
    using drv demo_box_ok dist bufs by blast
qed

section \<open>Witnesses of the registry, slot and scheduler properties\<close>

theorem offline_online_roundtrip_witness:
  "runs (do { (r, t) \<leftarrow> dev_offline demo_box 1; dev_online t 1 (demo_info 1) virtual_switch_op })
    (\<lambda>(r, i, u). r = errno HSB_E_OK \<and> i = 1 \<and> dev_ok u \<and> dev_heap u = dev_heap demo_box \<and>
       next_ptr u = next_ptr demo_box \<and> set (cb_queue (dev_cb u)) = set (cb_queue (dev_cb demo_box)) \<and>
       cb_offq (dev_cb u) = cb_offq (dev_cb demo_box))"
proof -
  have off: "\<forall>q \<in> set (cb_offq (dev_cb demo_box)). \<not> off_match demo_box (drv_id virtual_switch_drv) (info_mac (demo_info 1)) q"
    by (simp add: off_match_def demo_defs dev_at_def zero_dev_def)
  have "drv_id virtual_switch_drv = 1" by (simp add: virtual_switch_drv_def)
  with offline_online_roundtrip [OF demo_box_ok demo_box_find(1,3) demo_dev_simps(2) _ off,
      where op = virtual_switch_op] show ?thesis by simp
qed

theorem set_get_timer_witness:
  "runs (do { (r, t) \<leftarrow> set_dev_timer demo_box 2 (demo_timer\<lparr>tm_id := 5\<rparr>); get_dev_timer t 2 5 zero_timer })
     (\<lambda>(r, w). r = errno HSB_E_OK \<and> w = demo_timer\<lparr>tm_id := 5\<rparr>)"
  using set_get_timer [OF demo_box_ok, of 2 "demo_timer\<lparr>tm_id := 5\<rparr>" 2 5 zero_timer]
  by (simp add: timer_fits_def online_dev_def demo_find demo_timer_def)

theorem del_get_linkage_witness:
  "runs (do { (r, t) \<leftarrow> del_dev_linkage demo_box 1 0; get_dev_linkage t 1 0 demo_link })
     (\<lambda>(r, w). r = errno HSB_E_BAD_PARAM \<and> w = demo_link)"
  using del_get_linkage [OF demo_box_ok, of 1 0 1 0 demo_link]
  by (simp add: linkage_slot_def online_dev_def demo_find) (simp add: demo_dev_def)

theorem set_del_delay_witness:
  "runs (do { (r, t) \<leftarrow> set_dev_delay demo_box 1 (zero_delay\<lparr>dl_id := 7\<rparr>); del_dev_delay t 1 7 }) (\<lambda>(r, u).
     r = errno HSB_E_OK \<and> dev_ok u \<and>
     delay_slot u = (delay_slot demo_box)(1 := (delay_slot demo_box 1)(7 := None)))"
  using set_del_delay [OF demo_box_ok, of 1 "zero_delay\<lparr>dl_id := 7\<rparr>"]
  by (simp add: delay_fits_def online_dev_def demo_find)

lemma demo_acts:
  "check_acts demo_clock 0 0 zero_status (demo_dev n False) = [HSB_ACT_TYPE_SET_STATUS None (set_one zero_status (of_nat n) 0 1)]"
proof -
  have bits: "bit (0xFF :: u32) 0" "bit (0xFF :: u8) 0" "bit (0x7F :: u8) 3" "\<not> bit (0 :: u8) 0"
    by simp_all
  have day: "day_dev demo_clock 0 (demo_dev n False) = demo_dev n False"
    by (simp add: day_dev_def is_nextday_def)
  have t0: "timer_outs demo_clock 0 zero_status (demo_dev n False) 0 =
      [HSB_ACT_TYPE_SET_STATUS None (set_one zero_status (of_nat n) 0 1)]"
    by (simp add: timer_outs_def timer_fires_def timer_sec_def clock_sec_def slot_act_def demo_dev_def
        demo_timer_def zero_timer_def demo_clock_def Let_def)
  have t1: "timer_outs demo_clock 0 zero_status (demo_dev n False) (Suc i) = []" if "i < 31" for i
    using that by (simp add: timer_outs_def timer_fires_def demo_dev_def zero_timer_status_def)
  have dl: "delay_outs demo_clock 0 zero_status (timed_dev demo_clock 0 0 (demo_dev n False)) i = []" if "i < 8" for i
    using that by (cases i) (simp_all add: delay_outs_def delay_fires_def demo_dev_def zero_delay_status_def)
  have u: "[0..<32] = 0 # map Suc [0..<31]" by (simp add: map_Suc_upt upt_conv_Cons)
  show ?thesis
    using t1 dl bits by (simp add: check_acts_def day u t0 o_def del: upt_rec_numeral)
qed

theorem scheduler_visit_witness:
  "runs (check_dev_timer_and_delay demo_clock 1 demo_box) (\<lambda>t.
     async_queue t = [HSB_ACT_TYPE_SET_STATUS None (set_one zero_status 1 0 1)] \<and>
     dev_heap t 2 = dev_heap demo_box 2)"
proof -
  have f: "cb_work_mode (dev_cb demo_box) = 0" "cb_sec_today (dev_cb demo_box) = 0"
    "stk_status demo_box = zero_status" "async_queue demo_box = []"
    by (simp_all add: demo_box_def demo_cb_def)
  show ?thesis
    using scheduler_visit [OF demo_box_ok, of 1 demo_clock]
    by (rule runs_mono) (auto simp: demo_find demo_clock_ok f demo_acts)
qed

theorem scheduler_idempotent_witness:
  "runs (check_dev_timer_and_delay demo_clock 1 demo_box)
     (\<lambda>t. check_dev_timer_and_delay demo_clock 1 t = Some t)"
  using scheduler_idempotent [OF demo_box_ok, of 1 demo_clock] by (simp add: demo_find demo_clock_ok)

text \<open>A second before midnight both timers have expired.\<close>

definition demo_night :: box where
  "demo_night = demo_box\<lparr>dev_heap := (dev_heap demo_box)(1 \<mapsto> demo_dev 1 True), dev_cb := demo_cb\<lparr>cb_sec_today := 86399\<rparr>\<rparr>"

theorem nextday_reset_first_only_witness:
  "runs (check_timer_and_delay (\<lambda>_. demo_clock\<lparr>clk_hour := 0, clk_min := 0\<rparr>) demo_night)
     (\<lambda>(r, t). ts_expired (dev_timer_status (dev_at demo_night 1) ! 0) \<and> \<not> ts_expired (dev_timer_status (dev_at t 1) ! 0) \<and>
       ts_expired (dev_timer_status (dev_at t 2) ! 0))"
proof -
  let ?c = "demo_clock\<lparr>clk_hour := 0, clk_min := 0\<rparr>"
  have ok: "dev_ok demo_night"
    by (simp add: dev_ok_def dev_obj_ok_def demo_night_def demo_box_def demo_cb_def demo_pool_def pool_ok_def
        demo_dev_shape zero_status_shape HSB_WORK_MODE_VALID_def)
  have c: "clock_ok ?c" "clock_sec ?c = 2" "clk_wday ?c = 3" by (simp_all add: clock_ok_def demo_clock_def clock_sec_def)
  have s: "dev_at demo_night 1 = demo_dev 1 True" "dev_at demo_night 2 = demo_dev 2 True"
    "cb_queue (dev_cb demo_night) = 1 # [2]" "cb_sec_today (dev_cb demo_night) = 86399"
    by (simp_all add: demo_night_def demo_cb_def dev_at_def demo_box_def)
  have d: "ts_expired (dev_timer_status (demo_dev n True) ! 0)" "ts_active (dev_timer_status (demo_dev n True) ! 0)"
    "dev_timer (demo_dev n True) ! 0 = demo_timer" "bit (tm_wday demo_timer) 3" "timer_sec demo_timer = 45000" for n
    by (simp_all add: demo_dev_def demo_timer_def timer_sec_def zero_timer_def)
  show ?thesis
    using nextday_reset_first_only [OF ok, of "\<lambda>_. ?c" 1 "[2]" 0] by (auto simp: c s s [unfolded One_nat_def] d elim!: runs_mono)
qed

section \<open>Witnesses of the driver, dispatcher and monitor properties\<close>

text \<open>The box with a Zigbee sensor (id 4) online beside the switches.\<close>

definition demo_czdev :: CZ_DEV_T where
  "demo_czdev = \<lparr>cz_id = 4, cz_short_addr = 0x1234, cz_end_point = 1, cz_idle_time = 0,
     cz_info = \<lparr>czi_dev_class = 2, czi_interface = 3, czi_mac = 4 # replicate 7 0, czi_status_bm = 1,
       czi_event_bm = 1, czi_action_bm = 1\<rparr>\<rparr>"

definition demo_zbox :: box where
  "demo_zbox = demo_box\<lparr>dev_heap := (dev_heap demo_box)(4 \<mapsto> (demo_dev 4 False)\<lparr>dev_driver := Some cz_drv, dev_op := Some sample_op\<rparr>),
     next_ptr := 5, dev_cb := demo_cb\<lparr>cb_queue := [1, 2, 4], cb_dev_id := 5\<rparr>,
     cz_ctx := demo_cz\<lparr>cz_queue := [demo_czdev]\<rparr>\<rparr>"

lemma demo_zbox_ok: "dev_ok demo_zbox"
  by (simp add: dev_ok_def dev_obj_ok_def demo_zbox_def demo_box_def demo_cb_def demo_pool_def pool_ok_def
      demo_dev_shape [unfolded dev_shape_def] dev_shape_def demo_info_def zero_status_shape HSB_WORK_MODE_VALID_def)

lemma demo_zbox_abs: "abs_reg demo_zbox = ([demo_dev 1 False, demo_dev 2 True,
    (demo_dev 4 False)\<lparr>dev_driver := Some cz_drv, dev_op := Some sample_op\<rparr>], [demo_dev 3 False])"
  by (simp add: abs_reg_def dev_at_def demo_zbox_def demo_box_def demo_cb_def)

lemma demo_zbox_sync: "box_ok demo_zbox"
proof -
  have drv: "find_drv demo_zbox 1 \<noteq> None" "find_drv demo_zbox 2 \<noteq> None"
    by (simp_all add: find_drv_def demo_defs demo_zbox_def)
  have id: "drv_id virtual_switch_drv = 1" "drv_id cz_drv = 2" by (simp_all add: virtual_switch_drv_def cz_drv_def)
  have keys: "vs_keys demo_zbox = reg_keys 1 demo_zbox" "cz_keys demo_zbox = reg_keys 2 demo_zbox"
    by (simp_all add: vs_keys_def cz_keys_def reg_keys_def demo_zbox_abs of_drv_def id dev_key_def)
      (simp_all add: demo_zbox_def demo_box_def demo_vs_def vs_key_def demo_info_def demo_czdev_def cz_key_def numeral_eq_Suc)
  have dist: "distinct (map snd (reg_keys 1 demo_zbox))" "distinct (map snd (reg_keys 2 demo_zbox))"
    by (simp_all add: reg_keys_def demo_zbox_abs of_drv_def id dev_key_def demo_info_def)
  have bufs: "cz_bufs (cz_ctx demo_zbox)" "length (stk_buf demo_zbox) = 64"
    by (simp_all add: demo_zbox_def demo_box_def demo_cz_def cz_bufs_def)
  show ?thesis
    unfolding box_ok_def vs_table.in_sync_def cz_table.in_sync_def reg_ok_def keys
    using drv demo_zbox_ok dist bufs by blast
qed

definition demo_action :: HSB_ACTION_T where
  "demo_action = \<lparr>act_devid = 4, act_id = 0, act_param1 = 1, act_param2 = 0\<rparr>"

text \<open>The frame of a module that answers transaction 1 with result 1.\<close>

definition demo_answer :: buf where
  "demo_answer = le16 CZ_HEADER_MAGIC @ le16 18 @ le16 0 @ le16 0 @ le16 0 @ le16 1 @
     le16 CZ_CMD_RESULT @ le16 6 @ le16 1 @ replicate 238 0"

definition demo_uart :: uart_rx where
  "demo_uart = \<lparr>ur_nread = 12, ur_ret = 6, ur_buf = demo_answer\<rparr>"

definition demo_io :: cz_io where
  "demo_io = \<lparr>ci_nwrite = 24, ci_rxs = [demo_uart], ci_spurious = False\<rparr>"

lemma demo_uart_facts:
  "length demo_answer = 256" "rx_len demo_uart = 18" "rx_ok demo_uart" "rx_frame demo_uart"
  "frame_trans demo_answer = 1" "GET_u16 demo_answer 12 = Some CZ_CMD_RESULT" "GET_u16 demo_answer 14 = Some 6"
  "GET_u16 demo_answer 16 = Some 1"
  by (simp_all add: rx_ok_def rx_frame_def rx_len_def demo_uart_def demo_answer_def frame_trans_def GET_u16_def
      le16_def of_le16_def arr_get_def)

lemma demo_zbox_find: "cz_find_dev_by_id demo_zbox 4 = Some demo_czdev"
  by (simp add: cz_find_dev_by_id_def demo_zbox_def demo_czdev_def)

theorem zigbee_action_answered_witness:
  "runs (sample_set_action demo_io demo_action demo_zbox) (\<lambda>(r, t). r = errno HSB_E_OK \<and> box_ok t \<and>
    cz_trans_id (cz_ctx t) = 2 \<and> sent t = [UART_WRITE (cz_action_frame demo_czdev 1 demo_action)])"
  using zigbee_action_answered [OF demo_zbox_sync, of demo_action demo_czdev demo_io demo_uart 1]
    demo_uart_facts demo_zbox_find
  by (simp add: demo_io_def demo_action_def) (simp add: demo_uart_def demo_zbox_def demo_box_def demo_cz_def)

lemma demo_zbox_wrapped: "box_ok (cz_ctx_update (cz_trans_id_update (\<lambda>_. 0)) demo_zbox)"
  using box_okD(1,4) [OF demo_zbox_sync] by (intro box_ok_step [OF demo_zbox_sync]) (simp_all add: cz_keys_def cz_bufs_def)

theorem zigbee_trans_id_zero_witness:
  "runs (sample_set_action demo_io demo_action (cz_ctx_update (cz_trans_id_update (\<lambda>_. 0)) demo_zbox))
     (\<lambda>(r, t). r = errno HSB_E_OTHERS)"
  using zigbee_trans_id_zero [OF demo_zbox_wrapped, of demo_action demo_czdev demo_io] demo_uart_facts demo_zbox_find
  by (simp add: demo_io_def demo_action_def io_ok_def cz_find_dev_by_id_def)

definition demo_env :: drv_env where
  "demo_env = \<lparr>ev_vs_bcast = True, ev_vs_rxs = [], ev_vs_reply = (-1, replicate 64 0), ev_cz = demo_io\<rparr>"

lemma demo_env_ok: "env_ok demo_env"
  using demo_uart_facts by (simp add: env_ok_def io_ok_def demo_env_def demo_io_def)

definition demo_req :: HSB_ACT_T where
  "demo_req = HSB_ACT_TYPE_DO_ACTION (Some 0) demo_action"

definition demo_busy :: box where
  "demo_busy = dev_cb_update (cb_async_thread_ctl_update (tc_data_queue_update (\<lambda>_. [demo_req]))) demo_zbox"

lemma demo_busy_ok: "box_ok demo_busy"
proof -
  have d: "dev_ok demo_busy" using demo_zbox_ok by (simp add: dev_ok_def demo_busy_def demo_req_def dev_obj_ok_def pool_ok_def)
  have "reg_keys e demo_busy = reg_keys e demo_zbox" "find_drv demo_busy e = find_drv demo_zbox e" for e
    by (simp_all add: reg_keys_def abs_reg_def dev_at_def find_drv_def demo_busy_def cong: map_cong)
  with demo_zbox_sync d show ?thesis
    by (simp add: box_ok_def vs_table.in_sync_def cz_table.in_sync_def reg_ok_def vs_keys_def cz_keys_def)
      (simp add: demo_busy_def)
qed

theorem request_answered_once_witness:
  "\<exists>m u t. map_option (\<lambda>(r, t). (HSB_RESP_TYPE_RESULT (Some 0) r, t)) (set_dev_action demo_env demo_action (popped demo_busy)) = Some (m, u) \<and>
    async_process_step demo_env demo_busy = Some t \<and> box_ok t \<and> (\<forall>a \<in> set (async_queue t). act_reply a = None) \<and>
    (\<exists>evs. inbox t 0 = inbox demo_busy 0 @ evs @ [m] \<and> (\<forall>e \<in> set evs. is_event e))"
proof -
  have live: "client_live demo_busy 0"
    by (simp add: client_live_def demo_busy_def demo_zbox_def demo_box_def demo_pool_def)
  have q: "tc_active (cb_async_thread_ctl (dev_cb demo_busy))" "async_queue demo_busy = demo_req # []"
    by (simp_all add: demo_busy_def demo_zbox_def demo_cb_def)
  have me: "act_reply demo_req = Some 0" by (simp add: demo_req_def)
  have c: "carried_out demo_env demo_req = (\<lambda>s. map_option (\<lambda>(r, t). (HSB_RESP_TYPE_RESULT (Some 0) r, t)) (set_dev_action demo_env demo_action s))"
    by (simp add: fun_eq_iff demo_req_def)
  from request_answered_once [OF demo_busy_ok demo_env_ok q] obtain m u t where
    t: "carried_out demo_env demo_req (popped demo_busy) = Some (m, u)" "async_process_step demo_env demo_busy = Some t" "box_ok t"
      "\<exists>ls. async_queue t = [] @ ls \<and> (\<forall>a \<in> set ls. act_reply a = None)"
    and i: "\<forall>j. client_live t j = client_live demo_busy j \<and> (\<exists>evs. (\<forall>e \<in> set evs. is_event e) \<and>
       inbox t j = inbox demo_busy j @ evs @ (if act_reply demo_req = Some j \<and> client_live demo_busy j then [m] else []))" by blast
  from i [rule_format, of 0] t show ?thesis unfolding c by (auto simp: live me)
qed

theorem init_establishes_invariant_witness:
  "runs (init_dev_module demo_env 7 (power_on \<lparr>pool_context = replicate 5 zero_context, pool_mutex = False\<rparr> zero_status (replicate 64 0xCC)))
     (\<lambda>(r, t). r = 0 \<and> box_ok t \<and> cb_driverq (dev_cb t) = [virtual_switch_drv, cz_drv]) \<and>
   runs (init_dev_module demo_env (- 1) (power_on \<lparr>pool_context = replicate 5 zero_context, pool_mutex = False\<rparr> zero_status (replicate 64 0xCC)))
     (\<lambda>(r, t). r = 0 \<and> vs_good t \<and> cb_driverq (dev_cb t) = [virtual_switch_drv])"
proof -
  have "length (replicate 64 (0xCC :: u8)) = 64" "\<forall>rx \<in> set (ev_vs_rxs demo_env). length (rx_buf rx) = 64"
    by (simp_all add: demo_env_def)
  note init = init_establishes_invariant [OF zero_status_shape this(1) _ _ this(2), of "\<lparr>pool_context = replicate 5 zero_context, pool_mutex = False\<rparr>"]
  from init [of 7] init [of "- 1"] show ?thesis by (auto elim!: runs_mono)
qed

theorem silent_devices_go_offline_witness:
  "runs (vs_monitor_timeout demo_box) (\<lambda>t. box_ok t \<and> vs_queue t = [demo_vs 1 10 1] \<and>
     reg_keys 1 t = [(1, 1 # replicate 7 0)])"
proof -
  have q: "vs_queue demo_box = [demo_vs 1 10 0, demo_vs 2 11 11]" "next_ptr demo_box \<le> 2 ^ 32" by (simp_all add: demo_box_def)
  have f: "filter alive (vs_queue demo_box) = [demo_vs 1 10 0]" by (simp add: q alive_def demo_vs_def)
  have k: "vs_key (demo_vs 1 10 0) = (1, 1 # replicate 7 0)" "aged (demo_vs 1 10 0) = demo_vs 1 10 1"
    by (simp_all add: vs_key_def aged_def demo_vs_def numeral_eq_Suc)
  show ?thesis
    by (rule runs_mono [OF silent_devices_go_offline [OF demo_box_sync q(2)]]) (simp only: f list.map k conj_ac simp_thms)
qed

end
