(* ===== verification/Demo_Net.thy ===== *)
theory Demo_Net
  imports Demo_Box
begin

text \<open>
  The properties of the network server applied to the concrete box of \<^verbatim>\<open>Demo_Box\<close>.
\<close>

lemma demo_devs: "length (cb_queue (dev_cb demo_box)) \<le> 128"
  by (simp add: demo_find)

lemma demo_live: "client_live demo_box i \<longleftrightarrow> i = 0" "inbox demo_box i = []"
  by (cases i; auto simp: client_live_def inbox_def demo_box_def demo_pool_def zero_context_def nth_Cons' )+

lemma demo_mail: "mail_ok demo_box"
  by (simp add: mail_ok_def demo_live)

theorem tcp_timer_roundtrip_witness:
  "runs (do {
      (r, used, t) \<leftarrow> deal_tcp_packet 9 (hdr HSB_CMD_SET_TIMER 24 @ timer_body_bytes 2 (demo_timer\<lparr>tm_id := 5\<rparr>) @ []) 24 (Some 0) demo_box;
      (r', used', u) \<leftarrow> deal_tcp_packet 9 (hdr HSB_CMD_GET_TIMER 12 @ le32 2 @ le16 (tm_id (demo_timer\<lparr>tm_id := 5\<rparr>)) @ [0, 0]) 12 (Some 0) t;
      Some (r, used, r', used', u) })
    (\<lambda>(r, used, r', used', u). r = 0 \<and> used = 24 \<and> r' = 0 \<and> used' = 12 \<and> box_ok u \<and>
       sent u = sent demo_box @ [TCP_WRITE 9 (result_frame (errno HSB_E_OK)),
         TCP_WRITE 9 (hdr HSB_CMD_GET_TIMER_RESP 24 @ timer_body_bytes 2 (demo_timer\<lparr>tm_id := 5\<rparr>))])"
  by (rule tcp_timer_roundtrip [OF demo_box_sync demo_devs])
    (simp_all add: timer_fits_def online_dev_def demo_find demo_timer_def)

theorem tcp_packet_safe_witness:
  "runs (deal_tcp_packet 9 (hdr HSB_CMD_GET_INFO 8 @ le32 1) 8 (Some 0) demo_box) (\<lambda>(r, used, t). box_ok t \<and>
    inbox t = inbox demo_box \<and> cb_queue (dev_cb t) = [1, 2] \<and> 0 \<le> used \<and> used \<le> 8)"
  by (rule runs_mono [OF tcp_packet_safe [OF demo_box_sync demo_devs]]) (auto simp: need_def demo_find)

lemma hdr_pkt:
  assumes "need cmd \<le> 4 + length r" and "HSB_CMD_VALID cmd" and "4 + length r < 65536" and "l = 4 + length r"
  shows "pkt_wf (hdr cmd l @ r)" "pkt_cmd (hdr cmd l @ r) = cmd"
proof -
  show "pkt_wf (hdr cmd l @ r)" using assms by (auto simp: pkt_wf_def intro!: exI [of _ cmd] exI [of _ r])
  show "pkt_cmd (hdr cmd l @ r) = cmd" by (simp add: pkt_cmd_def hdr_def le16_def)
qed

lemma demo_pkt: "pkt_wf (hdr HSB_CMD_GET_DEVS 4)" "pkt_cmd (hdr HSB_CMD_GET_DEVS 4) = HSB_CMD_GET_DEVS"
  "pkt_wf (hdr HSB_CMD_GET_INFO 8 @ le32 1)" "pkt_cmd (hdr HSB_CMD_GET_INFO 8 @ le32 1) = HSB_CMD_GET_INFO"
proof -
  have n: "need HSB_CMD_GET_DEVS \<le> 4 + length []" "need HSB_CMD_GET_INFO \<le> 4 + length (le32 1)" by (simp_all add: need_def)
  have v: "HSB_CMD_VALID HSB_CMD_GET_DEVS" "HSB_CMD_VALID HSB_CMD_GET_INFO" by (simp_all add: HSB_CMD_VALID_def)
  have l: "4 + length [] < 65536" "4 + length (le32 1) < 65536" "4 = 4 + length []" "8 = 4 + length (le32 1)" by simp_all
  note d = hdr_pkt [OF n(1) v(1) l(1,3), unfolded append_Nil2] and i = hdr_pkt [OF n(2) v(2) l(2,4)]
  show "pkt_wf (hdr HSB_CMD_GET_DEVS 4)" "pkt_cmd (hdr HSB_CMD_GET_DEVS 4) = HSB_CMD_GET_DEVS" by (rule d)+
  show "pkt_wf (hdr HSB_CMD_GET_INFO 8 @ le32 1)" "pkt_cmd (hdr HSB_CMD_GET_INFO 8 @ le32 1) = HSB_CMD_GET_INFO" by (rule i)+
qed

theorem tcp_read_terminates_witness:
  "runs (tcp_packets 2 9 (concat [hdr HSB_CMD_GET_DEVS 4, hdr HSB_CMD_GET_INFO 8 @ le32 1] @ replicate 1012 0) 12 0 0 demo_box)
    (\<lambda>(left, t). left \<and> box_ok t)"
  using tcp_read_terminates [OF demo_box_sync demo_devs, of "[hdr HSB_CMD_GET_DEVS 4, hdr HSB_CMD_GET_INFO 8 @ le32 1]" 9 "replicate 1012 0" 0]
  by (simp add: demo_pkt numeral_2_eq_2)

theorem coalesced_packets_witness:
  "tcp_packets 2 9 (concat [hdr HSB_CMD_GET_DEVS 4, hdr HSB_CMD_GET_INFO 8 @ le32 1] @ replicate 1012 0) 12 0 0 demo_box =
    map_option (Pair True) (for_list (\<lambda>p s. map_option (\<lambda>(r, used, t). t) (deal_tcp_packet 9 p (int (length p)) (Some 0) s))
      [hdr HSB_CMD_GET_DEVS 4, hdr HSB_CMD_GET_INFO 8 @ le32 1] demo_box)"
  using coalesced_packets [OF demo_box_sync demo_devs, of "[hdr HSB_CMD_GET_DEVS 4, hdr HSB_CMD_GET_INFO 8 @ le32 1]" 2 9 "replicate 1012 0" 0]
  by (simp add: demo_pkt)

theorem zero_length_never_leaves_witness:
  "\<forall>fuel. runs (tcp_packets fuel 9 (hdr HSB_CMD_GET_DEVS 0 @ [] @ replicate 1020 0) 4 0 0 demo_box) (\<lambda>(left, t). \<not> left)"
  using zero_length_never_leaves [OF demo_box_sync demo_devs, of HSB_CMD_GET_DEVS "[]" _ 9 "replicate 1020 0" 0]
  by (simp add: need_def HSB_CMD_VALID_def)

theorem short_set_status_overruns_witness:
  "let act = HSB_ACT_TYPE_SET_STATUS (Some 0) (zero_status\<lparr>st_devid := 1, st_num := 0xFFFFFFFF\<rparr>) in
    deal_tcp_packet 9 (hdr HSB_CMD_SET_STATUS 4 @ le32 1 @ []) 4 (Some 0) demo_box = Some (0, 4, pushed demo_box [act]) \<and>
    async_process_step demo_env (pushed demo_box [act]) = None \<and>
    virtual_switch_set_status (ev_vs_reply demo_env) (zero_status\<lparr>st_devid := 1, st_num := 9\<rparr>) demo_box = None \<and>
    virtual_switch_set_status (ev_vs_reply demo_env) (zero_status\<lparr>st_devid := 1, st_num := 8\<rparr>) demo_box \<noteq> None"
proof -
  have a: "async_queue demo_box = []" "tc_active (cb_async_thread_ctl (dev_cb demo_box))" "vs_find_dev_by_id demo_box 1 \<noteq> None"
    "dev_op (demo_dev 1 False) = Some virtual_switch_op" "length (snd (ev_vs_reply demo_env)) = 64"
    by (simp_all add: demo_box_def demo_cb_def vs_find_dev_by_id_def demo_vs_def demo_dev_def demo_env_def)
  have z: "status_shape (zero_status\<lparr>st_devid := 1, st_num := n\<rparr>)" for n
    using zero_status_shape by (simp add: status_shape_def)
  from short_set_status_overruns [OF demo_box_sync a(1,2) demo_box_find(1,3) a(4,3,5), of "Some 0" 9 "[]"]
  show ?thesis by (simp add: Let_def z)
qed

theorem set_status_swallows_next_witness:
  "deal_tcp_packet 9 (hdr HSB_CMD_SET_STATUS 8 @ le32 1 @ hdr HSB_CMD_GET_DEVS 4 @ []) 12 (Some 0) demo_box =
    Some (0, 8, pushed demo_box [HSB_ACT_TYPE_SET_STATUS (Some 0) \<lparr>st_devid = 1, st_num = 1,
      st_id = HSB_CMD_GET_DEVS # replicate 7 0, st_val = 4 # replicate 7 0\<rparr>])"
  using set_status_swallows_next [OF demo_box_sync, of "hdr HSB_CMD_GET_DEVS 4" 9 1 "[]" "Some 0"]
  by (simp add: hdr_def le16_def of_le16_def)

theorem get_devs_lists_online_witness:
  "deal_tcp_packet 9 (hdr HSB_CMD_GET_DEVS 4 @ []) 4 (Some 0) demo_box =
    Some (0, 4, send_out demo_box (TCP_WRITE 9 (hdr HSB_CMD_GET_DEVS_RESP 12 @ le32 1 @ le32 2)))"
  using get_devs_lists_online [OF demo_box_sync demo_devs, of 4 9 "[]" "Some 0"] by (simp add: demo_find)

theorem unknown_command_reported_ok_witness:
  "deal_tcp_packet 9 (hdr HSB_CMD_GET_DEVS_RESP 4 @ []) 4 (Some 0) demo_box =
    Some (0, 4, send_out demo_box (TCP_WRITE 9 (result_frame (errno HSB_E_OK))))"
  by (rule unknown_command_reported_ok [OF demo_box_sync demo_devs]) (simp_all add: HSB_CMD_VALID_def)

text \<open>The box with a result waiting for its client.\<close>

definition demo_mailbox :: box where
  "demo_mailbox = ctx_write demo_box 0 ((contexts demo_box ! 0)\<lparr>ctx_queue := [HSB_RESP_TYPE_RESULT (Some 0) 0]\<rparr>)"

lemma demo_mailbox_facts: "box_ok demo_mailbox" "mail_ok demo_mailbox" "inbox demo_mailbox 0 = [HSB_RESP_TYPE_RESULT (Some 0) 0]"
  "client_live demo_mailbox i \<longleftrightarrow> i = 0" "sent demo_mailbox = []"
proof -
  have len: "length (contexts demo_box) = 5" by (simp add: demo_box_def demo_pool_def)
  show "box_ok demo_mailbox" unfolding demo_mailbox_def by (rule ctx_write_step [OF demo_box_sync])
  have i: "inbox demo_mailbox j = (if j = 0 then [HSB_RESP_TYPE_RESULT (Some 0) 0] else [])" for j
    using len demo_live(2) [of j] by (auto simp: inbox_def demo_mailbox_def nth_list_update)
  then show "mail_ok demo_mailbox" "inbox demo_mailbox 0 = [HSB_RESP_TYPE_RESULT (Some 0) 0]" by (simp_all add: mail_ok_def)
  show "client_live demo_mailbox i \<longleftrightarrow> i = 0"
    using len demo_live(1) [of i] by (auto simp: client_live_def demo_mailbox_def nth_list_update)
  show "sent demo_mailbox = []" by (simp add: demo_mailbox_def) (simp add: demo_box_def)
qed

theorem notifications_in_order_witness:
  "runs (process_notify 9 (\<lambda>_. 10) 0 demo_mailbox) (\<lambda>(r, t). box_ok t \<and> inbox t 0 = [] \<and>
     sent t = [TCP_WRITE 9 (notify_frame (HSB_RESP_TYPE_RESULT (Some 0) 0))])"
  by (rule runs_mono [OF notifications_in_order [OF demo_mailbox_facts(1,2)]]) (auto simp: demo_mailbox_facts)

theorem context_reuse_keeps_mail_witness:
  "runs (get_client_context demo_mailbox 11 12) (\<lambda>(c, u). c \<noteq> None \<and> c \<noteq> Some 0) \<and>
   runs (do { (r, t) \<leftarrow> put_client_context demo_mailbox 0; (c, u) \<leftarrow> get_client_context t 11 12; Some (c, u) })
    (\<lambda>(c, u). c = Some 0 \<and> inbox u 0 = [HSB_RESP_TYPE_RESULT (Some 0) 0] \<and> ctx_tcp_sockfd (contexts u ! 0) = 11 \<and>
      (\<forall>j. client_live u j = (j = 0)))"
proof -
  have "(0 :: nat) < MAX_TCP_CLIENT_NUM" by simp
  note r = context_reuse_keeps_mail [OF demo_mailbox_facts(1) this, of 11 12]
  have "runs (get_client_context demo_mailbox 11 12) (\<lambda>(c, u). c \<noteq> None \<and> c \<noteq> Some 0)"
    by (rule runs_mono [OF conjunct1 [OF r]]) (auto simp: demo_mailbox_facts split: option.splits dest: spec [of _ 1])
  moreover from conjunct2 [OF r] have "runs (do { (r, t) \<leftarrow> put_client_context demo_mailbox 0; (c, u) \<leftarrow> get_client_context t 11 12; Some (c, u) })
    (\<lambda>(c, u). c = Some 0 \<and> inbox u 0 = [HSB_RESP_TYPE_RESULT (Some 0) 0] \<and> ctx_tcp_sockfd (contexts u ! 0) = 11 \<and>
      (\<forall>j. client_live u j = (j = 0)))" by (rule runs_mono) (auto simp: demo_mailbox_facts)
  ultimately show ?thesis ..
qed

theorem udp_discover_witness:
  "deal_udp_packet (hdr HSB_CMD_BOX_DISCOVER 8 @ replicate 4 0) 8 demo_box =
    Some (0, send_out demo_box (UDP_REPLY (hdr HSB_CMD_BOX_DISCOVER_RESP 8 @ [0, 1] @ le16 1)))"
  using udp_discover [of "hdr HSB_CMD_BOX_DISCOVER 8 @ replicate 4 0" 8 demo_box]
  by (simp add: hdr_def le16_def)

section \<open>A box with 129 devices\<close>

definition demo_many :: box where
  "demo_many = demo_box\<lparr>dev_heap := (\<lambda>p. if p \<in> set [1..<130] then Some (demo_dev p False) else None), next_ptr := 130,
     dev_cb := demo_cb\<lparr>cb_queue := [1..<130], cb_offq := [], cb_dev_id := 130\<rparr>,
     vs_queue := map (\<lambda>n. demo_vs n 10 0) [1..<130]\<rparr>"

lemma demo_word_inj: "n < 256 \<Longrightarrow> m < 256 \<Longrightarrow> (of_nat n :: u8) = of_nat m \<longleftrightarrow> n = m"
  by (auto dest: arg_cong [of _ _ unat] simp: unat_of_nat)

lemma demo_word_inj32: "n < 256 \<Longrightarrow> m < 256 \<Longrightarrow> (of_nat n :: u32) = of_nat m \<longleftrightarrow> n = m"
  by (auto dest: arg_cong [of _ _ unat] simp: unat_of_nat)

lemma demo_many_ok: "dev_ok demo_many"
  by (auto simp: dev_ok_def dev_obj_ok_def demo_many_def demo_box_def demo_cb_def demo_pool_def pool_ok_def
      demo_dev_shape zero_status_shape HSB_WORK_MODE_VALID_def distinct_map inj_on_def demo_word_inj32)

lemma demo_many_sync: "box_ok demo_many"
proof -
  have drv: "find_drv demo_many 1 \<noteq> None" "find_drv demo_many 2 \<noteq> None"
    by (simp_all add: find_drv_def demo_defs demo_many_def)
  have id: "drv_id virtual_switch_drv = 1" by (simp add: virtual_switch_drv_def)
  have at: "dev_at demo_many p = demo_dev p False" if "p \<in> set [1..<130]" for p
    using that by (simp add: dev_at_def demo_many_def)
  have ab: "abs_reg demo_many = (map (\<lambda>n. demo_dev n False) [1..<130], [])"
    using at by (simp add: abs_reg_def del: upt_rec_numeral) (simp add: demo_many_def del: upt_rec_numeral)
  have fl: "filter (of_drv 1) (map (\<lambda>n. demo_dev n False) xs) = map (\<lambda>n. demo_dev n False) xs"
    "filter (of_drv 2) (map (\<lambda>n. demo_dev n False) xs) = []" for xs
    by (simp_all add: filter_map o_def of_drv_def id)
  have rk: "reg_keys 1 demo_many = map (\<lambda>n. (of_nat n, of_nat n # replicate 7 0)) [1..<130]" "reg_keys 2 demo_many = []"
    by (simp_all add: reg_keys_def ab fl dev_key_def demo_info_def o_def del: upt_rec_numeral)
  have keys: "vs_keys demo_many = reg_keys 1 demo_many" "cz_keys demo_many = reg_keys 2 demo_many"
    unfolding rk
    by (simp_all add: vs_keys_def cz_keys_def demo_many_def demo_box_def demo_cz_def o_def vs_key_def demo_vs_def numeral_eq_Suc del: upt_rec_numeral)
  have dist: "distinct (map snd (reg_keys 1 demo_many))" "distinct (map snd (reg_keys 2 demo_many))"
    by (auto simp: rk distinct_map inj_on_def demo_word_inj simp del: upt_rec_numeral)
  have bufs: "cz_bufs (cz_ctx demo_many)" "length (stk_buf demo_many) = 64"
    by (simp_all add: demo_many_def demo_box_def demo_cz_def cz_bufs_def)
  show ?thesis
    unfolding box_ok_def vs_table.in_sync_def cz_table.in_sync_def reg_ok_def keys
    using drv demo_many_ok dist bufs by blast
qed

theorem get_devs_overruns_witness:
  "deal_tcp_packet 9 (hdr HSB_CMD_GET_DEVS 4 @ []) 4 (Some 0) demo_many = None"
  by (rule get_devs_overruns [OF demo_many_sync]) (simp_all add: demo_many_def del: upt_rec_numeral)

end
