(* ===== verification/Core_Daemon.thy ===== *)
theory Core_Daemon
  imports Net_Client
begin

text \<open>
  The daemon as a whole: \<^verbatim>\<open>init_network_module\<close> (\<^verbatim>\<open>network.c\<close>), \<^verbatim>\<open>daemon_select\<close>
  (\<^verbatim>\<open>lib/daemon_control.c\<close>), and \<^verbatim>\<open>main\<close> of \<^verbatim>\<open>core_daemon.c\<close>. After start-up the state
  is shared by seven threads: the main loop, the listener and the handlers of TCP clients, the UDP
  listener, the thread of the request queue and the monitors of the two drivers. \<open>box_event\<close> has one constructor
  per pass through a thread's loop, carrying what the system calls of the pass returned, and
  \<open>box_handle\<close> runs that pass. Passes are taken one at a time, in any order.
\<close>

section \<open>Start-up and the main loop\<close>

text \<open>\<open>udp_ok\<close> and \<open>tcp_ok\<close> say whether \<^verbatim>\<open>pthread_create\<close> succeeded.\<close>

definition init_network_module :: "bool \<Rightarrow> bool \<Rightarrow> box \<Rightarrow> int \<times> box" where
  "init_network_module udp_ok tcp_ok s =
     (if \<not> udp_ok then (- 1, s)
      else let s = init_client_pool s in if \<not> tcp_ok then (- 2, s) else (0, s))"

abbreviation (input) MAXLINE :: nat where "MAXLINE \<equiv> 1024"
abbreviation (input) MAXPATH :: nat where "MAXPATH \<equiv> 256"

record daemon_listen_data =
  dla_reply_path :: buf
  dla_cmd_buf :: buf
  dla_recv_time :: int

text \<open>
  What \<^verbatim>\<open>select\<close>, \<^verbatim>\<open>recvfrom\<close> and \<^verbatim>\<open>time\<close> return: \<open>si_bytes\<close> is the datagram and
  \<open>si_from\<close> the sender's path with its terminating 0.
\<close>

record select_in =
  si_ret :: int
  si_ready :: bool
  si_nread :: int
  si_bytes :: buf
  si_from :: buf
  si_now :: int

definition daemon_select :: "select_in \<Rightarrow> (int \<times> daemon_listen_data) option" where
  "daemon_select i = do {
     let dla = \<lparr>dla_reply_path = replicate MAXPATH 0, dla_cmd_buf = replicate MAXLINE 0, dla_recv_time = 0\<rparr>;
     if si_ret i < 0 then Some (si_ret i, dla)
     else if si_ready i \<and> si_nread i > 0 then do {
       cmd_buf \<leftarrow> put_bytes (dla_cmd_buf dla) 0 (take (nat (si_nread i)) (si_bytes i));
       cmd_buf \<leftarrow> arr_set cmd_buf (nat (si_nread i)) 0;
       path \<leftarrow> put_bytes (dla_reply_path dla) 0 (si_from i);
       Some (si_ret i, \<lparr>dla_reply_path = path, dla_cmd_buf = cmd_buf, dla_recv_time = si_now i\<rparr>)
     }
     else Some (si_ret i, dla)
   }"

text \<open>
  \<^verbatim>\<open>main\<close> up to its loop; the boolean is False when it exits. \<open>init_ok\<close> is the result of
  \<^verbatim>\<open>daemon_init\<close>.
\<close>

definition main_start :: "bool \<Rightarrow> bool \<Rightarrow> bool \<Rightarrow> drv_env \<Rightarrow> int \<Rightarrow> box \<Rightarrow> (bool \<times> box) option" where
  "main_start init_ok udp_ok tcp_ok env fd s =
     (if \<not> init_ok then Some (False, s)
      else do {
        let (r, s) = init_network_module udp_ok tcp_ok s;
        if r \<noteq> 0 then Some (False, s)
        else do {
          (r, s) \<leftarrow> init_dev_module env fd s;
          Some (r = 0, s)
        }
      })"

text \<open>One pass through the loop of \<^verbatim>\<open>main\<close>: one call of \<^verbatim>\<open>daemon_select\<close> and what follows it.\<close>

definition main_round :: "select_in \<Rightarrow> (nat \<Rightarrow> clock) \<Rightarrow> box \<Rightarrow> box option" where
  "main_round i clk s = do {
     (r, dla) \<leftarrow> daemon_select i;
     if dla_recv_time dla \<noteq> 0 then Some s
     else do {
       (r, s) \<leftarrow> check_timer_and_delay clk s;
       Some s
     }
   }"

section \<open>The passes of the threads\<close>

datatype box_event =
    MAIN_LOOP select_in "nat \<Rightarrow> clock"
  | TCP_LISTEN int int
  | TCP_CLIENT nat client_io nat
  | UDP_LISTEN buf int
  | ASYNC_PROCESS drv_env
  | VS_TIMEOUT
  | VS_MESSAGE drv_env int buf u32
  | CZ_NOTIFY nat
  | CZ_UART uart_rx

primrec box_handle :: "box_event \<Rightarrow> box \<Rightarrow> box option" where
  "box_handle (MAIN_LOOP i clk) s = main_round i clk s"
| "box_handle (TCP_LISTEN sockfd unfd) s = map_option (\<lambda>(go, c, t). t) (tcp_listen_round sockfd unfd s)"
| "box_handle (TCP_CLIENT fuel io i) s = map_option snd (tcp_client_round fuel io i s)"
| "box_handle (UDP_LISTEN b nread) s = map_option snd (deal_udp_packet b nread s)"
| "box_handle (ASYNC_PROCESS env) s = async_process_step env s"
| "box_handle VS_TIMEOUT s = vs_monitor_timeout s"
| "box_handle (VS_MESSAGE env ret rbuf ip) s = vs_monitor_msg env ret rbuf ip s"
| "box_handle (CZ_NOTIFY nwrite) s = cz_monitor_notify nwrite s"
| "box_handle (CZ_UART rx) s = cz_monitor_uart rx s"

text \<open>
  What the environment promises (\<open>box_world\<close>): buffers have the size of the arrays they arrive in, system calls return at
  most what they were asked for, clock fields are in range.
\<close>

definition uart_world :: "uart_rx \<Rightarrow> bool" where
  "uart_world rx \<longleftrightarrow> length (ur_buf rx) = 256 \<and> ur_nread rx \<le> 12 \<and> ur_ret rx \<le> int (rx_len rx - CZ_HEADER_LEN)"

definition env_world :: "drv_env \<Rightarrow> bool" where
  "env_world env \<longleftrightarrow> length (snd (ev_vs_reply env)) = 64 \<and> fst (ev_vs_reply env) \<le> 64 \<and>
     (\<forall>rx \<in> set (ci_rxs (ev_cz env)). uart_world rx) \<and> (\<forall>rx \<in> set (ev_vs_rxs env). length (rx_buf rx) = 64)"

primrec box_world :: "box_event \<Rightarrow> bool" where
  "box_world (MAIN_LOOP i clk) \<longleftrightarrow> si_nread i \<le> int MAXLINE \<and> length (si_from i) \<le> 108 \<and> (\<forall>n. clock_ok (clk n))"
| "box_world (TCP_LISTEN sockfd unfd) \<longleftrightarrow> True"
| "box_world (TCP_CLIENT fuel io i) \<longleftrightarrow> i < MAX_TCP_CLIENT_NUM"
| "box_world (UDP_LISTEN b nread) \<longleftrightarrow> length b = 1024 \<and> nread \<le> 1024"
| "box_world (ASYNC_PROCESS env) \<longleftrightarrow> env_world env"
| "box_world VS_TIMEOUT \<longleftrightarrow> True"
| "box_world (VS_MESSAGE env ret rbuf ip) \<longleftrightarrow> env_world env \<and> length rbuf = 16"
| "box_world (CZ_NOTIFY nwrite) \<longleftrightarrow> True"
| "box_world (CZ_UART rx) \<longleftrightarrow> uart_world rx"

text \<open>
  The limits of the code (\<open>box_limits\<close>), beyond which a pass is undefined or does not end:

    \<^item> a control datagram is shorter than the line buffer of 1024 bytes;
    \<^item> a client sends complete packets that carry the fields of their commands;
    \<^item> at most 128 devices are online when a client is served;
    \<^item> the notification socket of a client could be opened;
    \<^item> no more than \<open>2 ^ 32 - 1\<close> devices were ever created;
    \<^item> a frame on the serial line, asked for or not, has at most 256 bytes.
\<close>

definition uart_fits :: "uart_rx \<Rightarrow> bool" where
  "uart_fits rx \<longleftrightarrow> ur_ret rx \<le> 244"

primrec box_limits :: "box_event \<Rightarrow> box \<Rightarrow> bool" where
  "box_limits (MAIN_LOOP i clk) s \<longleftrightarrow> si_nread i < int MAXLINE"
| "box_limits (TCP_LISTEN sockfd unfd) s \<longleftrightarrow> True"
| "box_limits (TCP_CLIENT fuel io i) s \<longleftrightarrow> length (cb_queue (dev_cb s)) \<le> 128 \<and> read_wf fuel io \<and> 0 \<le> ctx_un_sockfd (contexts s ! i)"
| "box_limits (UDP_LISTEN b nread) s \<longleftrightarrow> True"
| "box_limits (ASYNC_PROCESS env) s \<longleftrightarrow> (\<forall>rx \<in> set (ci_rxs (ev_cz env)). uart_fits rx)"
| "box_limits VS_TIMEOUT s \<longleftrightarrow> next_ptr s \<le> 2 ^ 32"
| "box_limits (VS_MESSAGE env ret rbuf ip) s \<longleftrightarrow> (\<forall>rx \<in> set (ci_rxs (ev_cz env)). uart_fits rx)"
| "box_limits (CZ_NOTIFY nwrite) s \<longleftrightarrow> True"
| "box_limits (CZ_UART rx) s \<longleftrightarrow> uart_fits rx"

definition box_allowed :: "box_event \<Rightarrow> box \<Rightarrow> bool" where
  "box_allowed e s \<longleftrightarrow> box_world e \<and> box_limits e s"

lemma rx_ok_split: "rx_ok rx \<longleftrightarrow> uart_world rx \<and> uart_fits rx"
  by (auto simp: rx_ok_def uart_world_def uart_fits_def)

lemma env_ok_split: "env_ok env \<longleftrightarrow> env_world env \<and> (\<forall>rx \<in> set (ci_rxs (ev_cz env)). uart_fits rx)"
  by (auto simp: env_ok_def env_world_def io_ok_def rx_ok_split)

section \<open>Event systems\<close>

inductive reach :: "('e \<Rightarrow> 's \<Rightarrow> 's option) \<Rightarrow> ('e \<Rightarrow> 's \<Rightarrow> bool) \<Rightarrow> 's \<Rightarrow> 's \<Rightarrow> bool"
  for handle allowed s where
  start: "reach handle allowed s s"
| pass: "reach handle allowed s t \<Longrightarrow> allowed e t \<Longrightarrow> handle e t = Some u \<Longrightarrow> reach handle allowed s u"

locale event_system =
  fixes handle :: "'e \<Rightarrow> 's \<Rightarrow> 's option" and allowed :: "'e \<Rightarrow> 's \<Rightarrow> bool" and inv :: "'s \<Rightarrow> bool"
  assumes pass_inv: "inv s \<Longrightarrow> allowed e s \<Longrightarrow> runs (handle e s) inv"
begin

lemma reach_inv: "reach handle allowed s t \<Longrightarrow> inv s \<Longrightarrow> inv t"
  by (induction rule: reach.induct) (auto dest: pass_inv elim!: runsE)

lemma reach_live:
  assumes "reach handle allowed s t" and "inv s" and "allowed e t"
  shows "runs (handle e t) (reach handle allowed s)"
  using pass_inv [OF reach_inv [OF assms(1,2)] assms(3)] reach.pass [OF assms(1,3)] by (auto elim!: runsE)

end

section \<open>The invariant of the daemon\<close>

definition daemon_ok :: "box \<Rightarrow> bool" where
  "daemon_ok s \<longleftrightarrow> box_ok s \<and> mail_ok s \<and> delays_idle s"

lemma daemon_ok_core: "daemon_ok s \<Longrightarrow> box_ok t \<Longrightarrow> core_frame s t \<Longrightarrow> daemon_ok t"
  using events_mail [of s t] by (simp add: daemon_ok_def core_frame_def)

lemma daemon_ok_quiet: "daemon_ok s \<Longrightarrow> box_ok t \<Longrightarrow> quiet_frame s t \<Longrightarrow> mail_ok t \<Longrightarrow> daemon_ok t"
  by (simp add: daemon_ok_def quiet_frame_def)

lemma daemon_okD: "daemon_ok s \<Longrightarrow> box_ok s" "daemon_ok s \<Longrightarrow> mail_ok s" "daemon_ok s \<Longrightarrow> delays_idle s"
  by (simp_all add: daemon_ok_def)

lemma core_pass: "daemon_ok s \<Longrightarrow> runs m (\<lambda>t. box_ok t \<and> core_frame s t) \<Longrightarrow> runs m daemon_ok"
  by (auto intro: daemon_ok_core elim!: runs_mono)

lemma quiet_pass: "daemon_ok s \<Longrightarrow> runs m (\<lambda>t. box_ok t \<and> quiet_frame s t \<and> (mail_ok s \<longrightarrow> mail_ok t)) \<Longrightarrow> runs m daemon_ok"
  by (auto intro: daemon_ok_quiet simp: daemon_okD elim!: runs_mono)

lemma daemon_select_defined:
  assumes "si_nread i < int MAXLINE" and "length (si_from i) \<le> 108"
  shows "runs (daemon_select i) (\<lambda>_. True)"
  using assms by (auto simp: daemon_select_def put_bytes_def Let_def)

lemma cz_monitor_notify_step:
  assumes "box_ok s"
  shows "runs (cz_monitor_notify nwrite s) (\<lambda>t. box_ok t \<and> core_frame s t)"
proof -
  let ?t = "cz_ctx_update (cz_un_msgs_update (\<lambda>n. n - 1)) s"
  have t: "core_frame s ?t" by (simp add: core_frame_def delays_idle_def events_only_pool)
  have "reg_keys e ?t = reg_keys e s" for e by (simp add: reg_keys_def abs_reg_def dev_at_def [abs_def])
  then have b: "box_ok ?t" using box_okD(1,4) [OF assms] t
    by (intro box_ok_step [OF assms]) (simp_all add: vs_keys_def cz_keys_def cz_bufs_def)
  have "core_frame s (send_out ?t x)" for x by (rule core_frame_trans [OF t send_out_frame(8)])
  then show ?thesis using assms b box_okD(4) [OF assms]
    by (auto simp: cz_monitor_notify_def Let_def cz_bufs_def)
qed

lemma deal_udp_packet_step:
  assumes "box_ok s" and "8 \<le> length b"
  shows "runs (deal_udp_packet b len s) (\<lambda>(r, t). box_ok t \<and> core_frame s t)"
proof -
  obtain c l u where g: "GET_u16 b 0 = Some c" "GET_u16 b 2 = Some l" "GET_u16 b 6 = Some u"
    using assms(2) by (simp add: GET_u16_def)
  have r: "reply_box_discover (replicate 32 0) 1 = Some (8, fill 32 (hdr HSB_CMD_BOX_DISCOVER_RESP 8 @ [0, 1] @ le16 1))"
    by (simp add: reply_box_discover_def replicate_fill)
  show ?thesis using assms(1) by (auto simp: deal_udp_packet_def check_udp_pkt_valid_def g r Let_def)
qed

lemma main_round_step:
  assumes "box_ok s" and "si_nread i < int MAXLINE" and "length (si_from i) \<le> 108" and "\<And>n. clock_ok (clk n)"
  shows "runs (main_round i clk s) (\<lambda>t. box_ok t \<and> core_frame s t)"
proof -
  from daemon_select_defined [OF assms(2,3)] obtain r dla where "daemon_select i = Some (r, dla)" by (auto elim!: runsE)
  with check_timer_and_delay_step [OF assms(1), of clk, OF assms(4)] assms(1) show ?thesis
    by (auto simp: main_round_def elim!: runs_mono)
qed

lemma tcp_listen_step:
  assumes "box_ok s"
  shows "runs (tcp_listen_round sockfd unfd s) (\<lambda>(go, c, t). box_ok t \<and> quiet_frame s t \<and> (mail_ok s \<longrightarrow> mail_ok t))"
  using get_client_context_step [OF assms, of sockfd unfd] assms
  by (auto simp: tcp_listen_round_def quiet_frame_def elim!: runs_mono)

lemma box_pass:
  assumes "daemon_ok s" and "box_allowed e s"
  shows "runs (box_handle e s) daemon_ok"
proof (cases e)
  case (MAIN_LOOP i clk)
  with assms(1) assms(2) [unfolded box_allowed_def] show ?thesis by (auto intro!: core_pass main_round_step simp: daemon_okD)
next
  case (TCP_LISTEN sockfd unfd)
  with assms(1) assms(2) [unfolded box_allowed_def] tcp_listen_step [OF daemon_okD(1) [OF assms(1)], of sockfd unfd] show ?thesis
    by (intro quiet_pass [OF assms(1)]) (simp add: case_prod_unfold)
next
  case (TCP_CLIENT fuel io i)
  with assms(1) assms(2) [unfolded box_allowed_def] tcp_client_round_step [OF daemon_okD(1) [OF assms(1)] daemon_okD(2) [OF assms(1)], of i fuel io] show ?thesis
    by (intro quiet_pass [OF assms(1)]) (auto simp: case_prod_unfold elim!: runs_mono)
next
  case (UDP_LISTEN b n)
  with assms(1) assms(2) [unfolded box_allowed_def] deal_udp_packet_step [OF daemon_okD(1) [OF assms(1)], of b n] show ?thesis
    by (intro core_pass [OF assms(1)]) (simp add: case_prod_unfold)
next
  case (ASYNC_PROCESS env)
  with assms(1) assms(2) [unfolded box_allowed_def] async_process_step_ok [OF daemon_okD(1) [OF assms(1)], of env] env_ok_split show ?thesis
    by (intro quiet_pass [OF assms(1)]) simp
next
  case VS_TIMEOUT
  with assms(1) assms(2) [unfolded box_allowed_def] vs_monitor_timeout_step [OF daemon_okD(1) [OF assms(1)]] show ?thesis
    by (intro core_pass [OF assms(1)]) simp
next
  case (VS_MESSAGE env ret rbuf ip)
  with assms(1) assms(2) [unfolded box_allowed_def] vs_monitor_msg_step [OF daemon_okD(1) [OF assms(1)], of env rbuf ret ip] env_ok_split show ?thesis
    by (intro core_pass [OF assms(1)]) simp
next
  case (CZ_NOTIFY n)
  with assms(1) assms(2) [unfolded box_allowed_def] cz_monitor_notify_step [OF daemon_okD(1) [OF assms(1)], of n] show ?thesis
    by (intro core_pass [OF assms(1)]) simp
next
  case (CZ_UART rx)
  with assms(1) assms(2) [unfolded box_allowed_def] cz_monitor_uart_step [OF daemon_okD(1) [OF assms(1)], of rx] rx_ok_split show ?thesis
    by (intro core_pass [OF assms(1)]) (auto simp: cz_step_def elim!: runs_mono)
qed

interpretation daemon: event_system box_handle box_allowed daemon_ok
  by unfold_locales (rule box_pass)

lemma main_start_ok:
  assumes "status_shape stk" and "length junk = 64" and "\<forall>rx \<in> set (ev_vs_rxs env). length (rx_buf rx) = 64" and "0 \<le> fd"
  shows "runs (main_start True True True env fd (power_on pool stk junk)) (\<lambda>(ok, s). ok \<and> daemon_ok s)"
proof -
  obtain q where q: "client_pool (init_client_pool (power_on pool stk junk)) = q" by simp
  then have p: "init_client_pool (power_on pool stk junk) = power_on q stk junk"
    by (auto simp: init_client_pool_def power_on_def)
  have l: "length (pool_context q) = MAX_TCP_CLIENT_NUM" "\<not> pool_mutex q" using q by (auto simp: init_client_pool_def)
  have m: "mail_ok (power_on q stk junk)"
    unfolding p [symmetric]
    by (auto simp: mail_ok_def inbox_def init_client_pool_def zero_context_def simp del: upt_rec_numeral)
  from init_dev_module_ok [OF assms(1,2) l assms(3,4)] obtain r t where
    t: "init_dev_module env fd (power_on q stk junk) = Some (r, t)" "r = 0" "box_ok t" "delays_idle t"
      "events_only (power_on q stk junk) t" by (auto elim!: runsE)
  then have "daemon_ok t" using events_mail [OF t(5) m] by (simp add: daemon_ok_def)
  with t(1,2) show ?thesis unfolding main_start_def init_network_module_def by (simp add: Let_def p)
qed

lemma delay_body_skips:
  assumes "daemon_ok t" and "p \<in> set (cb_queue (dev_cb t))" and "i < HSB_DEV_MAX_DELAY_NUM"
  shows "delay_body c mode p i t = Some t"
proof -
  have t: "dev_ok t" "delays_idle t" using daemon_okD [OF assms(1)] box_okD(1) by blast+
  let ?d = "dev_at t p"
  from dev_ok_deref [OF t(1) assms(2)] have d: "deref t p = Some ?d" "dev_heap t p = Some ?d"
    by (auto simp: deref_def split: if_splits)
  then have "dev_shape ?d" using dev_ok_obj [OF t(1)] by (simp add: dev_obj_ok_def)
  then have l: "length (dev_delay ?d) = 8" "length (dev_delay_status ?d) = 8" by (simp_all add: dev_shape_def)
  with t(2) d(2) assms(3) have "\<not> ds_started (dev_delay_status ?d ! i)" by (auto simp: delays_idle_def)
  with d(1) l assms(3) show ?thesis by (simp add: delay_body_def)
qed

section \<open>Properties\<close>

text \<open>The limits on datagrams, client sockets and frames are those of the code.\<close>

lemma limits_real:
  "uart_world rx \<Longrightarrow> ur_nread rx = 12 \<Longrightarrow> take 2 (ur_buf rx) = le16 CZ_HEADER_MAGIC \<Longrightarrow> \<not> uart_fits rx \<Longrightarrow>
   box_handle (CZ_UART rx) s = None"
  "0 \<le> si_ret i \<Longrightarrow> si_ready i \<Longrightarrow> length (si_bytes i) = MAXLINE \<Longrightarrow> si_nread i = int MAXLINE \<Longrightarrow>
   box_handle (MAIN_LOOP i clk) s = None"
  "ctx_un_sockfd (contexts s ! k) < 0 \<Longrightarrow> box_handle (TCP_CLIENT fuel io k) s = None"
proof -
  assume w: "uart_world rx" "ur_nread rx = 12" "take 2 (ur_buf rx) = le16 CZ_HEADER_MAGIC" "\<not> uart_fits rx"
  then have l: "length (ur_buf rx) = 256" "12 < rx_len rx" by (auto simp: uart_world_def uart_fits_def)
  have "(take 2 (ur_buf rx) = le16 CZ_HEADER_MAGIC) = (of_le16 (ur_buf rx ! 0) (ur_buf rx ! 1) = CZ_HEADER_MAGIC)"
    using l(1) by (intro take2_le16) simp
  with w l show "box_handle (CZ_UART rx) s = None"
    by (simp add: cz_monitor_uart_def GET_u16_256 rx_len_def [symmetric] uart_fits_def)
next
  assume "0 \<le> si_ret i" "si_ready i" "length (si_bytes i) = MAXLINE" "si_nread i = int MAXLINE"
  then show "box_handle (MAIN_LOOP i clk) s = None"
    by (simp add: main_round_def daemon_select_def put_bytes_def Let_def arr_set_def)
next
  assume "ctx_un_sockfd (contexts s ! k) < 0"
  then show "box_handle (TCP_CLIENT fuel io k) s = None"
    by (cases "k < length (contexts s)") (simp_all add: tcp_client_round_def arr_get_out)
qed

text \<open>
  C1. The daemon within its limits. When the threads of \<^verbatim>\<open>main\<close> can be created and the serial port is open, \<^verbatim>\<open>main\<close> reaches its
  loop from the zeroed image, whatever is on its stack and whatever is received in answer to the first probe. From then on, for any number of
  passes of its threads in any order that stay within the limits \<open>box_limits\<close> (control datagrams below 1024 bytes; complete
  client packets with the fields of their commands; at most 128 devices online when a client is served; the client's notification socket open;
  fewer than \<open>2 ^ 32\<close> devices created; serial frames of at most 256 bytes), in every state that is
  reached the device registry, the driver tables, the request queue, the buffers and the waiting
  messages are well formed, no mutex is held, and every next pass within the limits is defined: no overrun, no dangling pointer, no lock taken twice.
  In the same states a frame of more than 256 bytes behind a complete header, a control datagram of 1024 bytes and a client without
  a notification socket do leave the pass undefined.
\<close>

theorem daemon_invariant:
  assumes "status_shape stk" and "length junk = 64" and "\<forall>rx \<in> set (ev_vs_rxs env). length (rx_buf rx) = 64" and "0 \<le> fd"
  shows "runs (main_start True True True env fd (power_on pool stk junk)) (\<lambda>(ok, s). ok \<and>
    (\<forall>t. reach box_handle box_allowed s t \<longrightarrow> box_ok t \<and> mail_ok t \<and>
      (\<forall>e. box_world e \<and> box_limits e t \<longrightarrow> runs (box_handle e t) (reach box_handle box_allowed s)) \<and>
      (\<forall>rx. uart_world rx \<and> ur_nread rx = 12 \<and> take 2 (ur_buf rx) = le16 CZ_HEADER_MAGIC \<and> \<not> box_limits (CZ_UART rx) t \<longrightarrow>
         box_handle (CZ_UART rx) t = None) \<and>
      (\<forall>i clk. 0 \<le> si_ret i \<and> si_ready i \<and> length (si_bytes i) = MAXLINE \<and> si_nread i = int MAXLINE \<longrightarrow>
         box_handle (MAIN_LOOP i clk) t = None) \<and>
      (\<forall>fuel io k. ctx_un_sockfd (contexts t ! k) < 0 \<longrightarrow> box_handle (TCP_CLIENT fuel io k) t = None)))"
proof -
  have live: "runs (box_handle e t) (reach box_handle box_allowed s)"
    if "reach box_handle box_allowed s t" "daemon_ok s" "box_world e \<and> box_limits e t" for s t e
    using daemon.reach_live [OF that(1,2)] that(3) by (simp add: box_allowed_def)
  show ?thesis using main_start_ok [OF assms, of pool]
    by (rule runs_mono) (auto dest: daemon.reach_inv daemon_okD intro: live limits_real simp del: box_handle.simps)
qed

text \<open>
  C26. Delays are dead code. Nothing in the program sets \<^verbatim>\<open>started\<close>, so in every state the daemon reaches the scheduler
  passes over every delay slot of every device, at any time: it sends no action and changes nothing.
\<close>

theorem delays_never_fire:
  assumes "status_shape stk" and "length junk = 64" and "env_ok env" and "0 \<le> fd"
  shows "runs (main_start True True True env fd (power_on pool stk junk)) (\<lambda>(ok, s). \<forall>t p i c mode.
    reach box_handle box_allowed s t \<longrightarrow> p \<in> set (cb_queue (dev_cb t)) \<longrightarrow> i < HSB_DEV_MAX_DELAY_NUM \<longrightarrow>
    delay_body c mode p i t = Some t)"
  using main_start_ok [OF assms(1,2) _ assms(4), of env pool] assms(3)
  by (auto simp: env_ok_def elim!: runs_mono dest: daemon.reach_inv intro!: delay_body_skips)

text \<open>
  The line buffer of the main loop is one byte short: \<^verbatim>\<open>daemon_select\<close> is undefined for a control
  datagram of exactly 1024 bytes, whose terminating 0 is written behind \<^verbatim>\<open>cmd_buf\<close>, and defined for every
  shorter one.
\<close>

theorem daemon_select_bound:
  assumes "0 \<le> si_ret i" and "si_ready i" and "0 < si_nread i" and "si_nread i \<le> int MAXLINE"
    and "int (length (si_bytes i)) = si_nread i" and "length (si_from i) \<le> 108"
  shows "daemon_select i = None \<longleftrightarrow> si_nread i = int MAXLINE"
  using assms by (auto simp: daemon_select_def put_bytes_def Let_def arr_set_def split: if_splits)

text \<open>
  C27. Remote control keys. A DO_ACTION packet for a remote control is turned into an action for the device: the COCHIP
  remote (driver 0) gets the code of its key, the other two remotes get the key as sent; a key without a code is
  answered with HSB_E_OTHERS, an unknown remote with HSB_E_BAD_PARAM, and nothing is queued.
\<close>

theorem remote_control_packet:
  assumes "box_ok s" and "length (cb_queue (dev_cb s)) \<le> 128" and "16 \<le> len"
  shows "deal_tcp_packet fd (hdr HSB_CMD_DO_ACTION 16 @ le32 devid @ le16 HSB_ACT_TYPE_REMOTE_CONTROL @ le16 drv @ le32 key @ rest)
      len reply s = Some (0, 16,
    if 3 \<le> unat drv then send_out s (TCP_WRITE fd (result_frame (errno HSB_E_BAD_PARAM)))
    else if drv = 0 \<and> n9201_code key = None then send_out s (TCP_WRITE fd (result_frame (errno HSB_E_OTHERS)))
    else pushed s [HSB_ACT_TYPE_DO_ACTION reply \<lparr>act_devid = devid, act_id = HSB_ACT_TYPE_REMOTE_CONTROL, act_param1 = drv,
      act_param2 = (if drv = 0 then ucast (the (n9201_code key)) else key)\<rparr>])"
proof -
  let ?r = "le32 devid @ le16 HSB_ACT_TYPE_REMOTE_CONTROL @ le16 drv @ le32 key @ rest"
  let ?b = "hdr HSB_CMD_DO_ACTION 16 @ ?r"
  have m: "\<not> tc_mutex (cb_async_thread_ctl (dev_cb s))" using dev_okD(7) [OF box_okD(1) [OF assms(1)]] .
  have g: "GET_u32 ?b 4 = Some devid" "GET_u16 ?b 8 = Some HSB_ACT_TYPE_REMOTE_CONTROL" "GET_u16 ?b 10 = Some drv" "GET_u32 ?b 12 = Some key"
    by (simp_all add: GET_u32_def GET_u16_def hdr_def le16_def le32_def) (simp add: of_le16_def)
  have z: "of_le32 b 0 0 0 = ucast b" for b by (simp add: of_le32_def)
  have t: "take 8 (fill 1024 (result_frame v)) = result_frame v" for v using take_fill_self [of "result_frame v" 1024] by simp
  have sw: "tcp_switch HSB_CMD_DO_ACTION ?b len reply blank s = tcp_do_action ?b reply blank s"
    by (simp add: tcp_switch_def)
  have d: "deal_tcp_packet fd ?b len reply s = map_option (tcp_finish fd 16) (tcp_do_action ?b reply blank s)"
    using deal_tcp_hdr [OF assms(1,2), of HSB_CMD_DO_ACTION 16 ?r len fd reply] assms(3)
    by (simp add: need_def HSB_CMD_VALID_def sw)
  show ?thesis unfolding d tcp_do_action_def g
    using m by (cases "n9201_code key")
      (auto simp: remote_key_mapping_cases z Let_def set_dev_action_async_def push_async_pushed t tcp_finish_def replied_def)
qed

end
