(* ===== verification/Registry_Spec.thy ===== *)
theory Registry_Spec
  imports Driver_Table
begin

text \<open>
  What the drivers see of the registry, as an abstract machine. Its state is the next device id and two lists of
  device values, online and offline; it has no heap, no locks, no queue of requests and no clients. Every
  sequence of \<^verbatim>\<open>dev_online\<close> and \<^verbatim>\<open>dev_offline\<close> calls refines it.
\<close>

type_synonym reg_view = "u32 \<times> HSB_DEV_T list \<times> HSB_DEV_T list"

datatype reg_op = REG_ONLINE u32 HSB_DEV_INFO_T HSB_DEV_OP_T | REG_OFFLINE u32

primrec reg_do :: "reg_op \<Rightarrow> box \<Rightarrow> box option" where
  "reg_do (REG_ONLINE drvid info op) s = map_option (\<lambda>(r, devid, t). t) (dev_online s drvid info op)"
| "reg_do (REG_OFFLINE devid) s = map_option snd (dev_offline s devid)"

primrec reg_spec :: "(u32 \<Rightarrow> HSB_DEV_DRV_T option) \<Rightarrow> reg_op \<Rightarrow> reg_view \<Rightarrow> reg_view" where
  "reg_spec drv (REG_ONLINE drvid info op) v = (case v of (n, online, offline) \<Rightarrow>
     (case find (same_dev drvid (info_mac info)) offline of
        None \<Rightarrow> (n + 1, online @ [new_dev n (drv drvid) info op], offline)
      | Some d \<Rightarrow> (n, online @ [d], remove1 d offline)))"
| "reg_spec drv (REG_OFFLINE devid) v = (case v of (n, online, offline) \<Rightarrow>
     (case find (\<lambda>d. dev_id d = devid) online of
        None \<Rightarrow> (n, online, offline)
      | Some d \<Rightarrow> (n, remove1 d online, offline @ [d])))"

definition view_of :: "box \<Rightarrow> reg_view" where
  "view_of s = (cb_dev_id (dev_cb s), abs_reg s)"

primrec op_fits :: "box \<Rightarrow> reg_op \<Rightarrow> bool" where
  "op_fits s (REG_ONLINE drvid info op) \<longleftrightarrow> find_drv s drvid \<noteq> None \<and> length (info_mac info) = 8"
| "op_fits s (REG_OFFLINE devid) \<longleftrightarrow> True"

lemma dev_online_next_id:
  assumes "dev_ok s" and "find_drv s drvid = Some drv" and "length (info_mac info) = 8"
  shows "runs (dev_online s drvid info op) (\<lambda>(r, devid, t). cb_dev_id (dev_cb t) =
    (if find (same_dev drvid (info_mac info)) (snd (abs_reg s)) = None then cb_dev_id (dev_cb s) + 1 else cb_dev_id (dev_cb s)))"
proof -
  have f: "find (same_dev drvid (info_mac info)) (snd (abs_reg s)) =
      (if off_index s drvid (info_mac info) < length (cb_offq (dev_cb s))
       then Some (dev_at s (cb_offq (dev_cb s) ! off_index s drvid (info_mac info))) else None)"
    by (simp add: find_first_index off_index_map abs_reg_def)
  show ?thesis
  proof (cases "off_index s drvid (info_mac info) < length (cb_offq (dev_cb s))")
    case True
    then show ?thesis using f by (simp add: dev_online_back [OF assms(1) True]) (simp add: moved_on_def)
  next
    case False
    then have "off_index s drvid (info_mac info) = length (cb_offq (dev_cb s))"
      using first_index_le unfolding off_index_def by (metis le_neq_implies_less)
    from dev_online_new [OF assms(1) this assms(2,3)] False f show ?thesis by (simp add: added_def)
  qed
qed

lemma dev_offline_next_id:
  assumes "dev_ok s"
  shows "runs (dev_offline s devid) (\<lambda>(r, t). cb_dev_id (dev_cb t) = cb_dev_id (dev_cb s))"
proof (cases "id_index s devid < length (cb_queue (dev_cb s))")
  case True
  then show ?thesis by (simp add: dev_offline_present [OF assms]) (simp add: moved_off_def)
next
  case False
  then have "id_index s devid = length (cb_queue (dev_cb s))"
    using first_index_le unfolding id_index_def by (metis le_neq_implies_less)
  with assms show ?thesis by (simp add: dev_offline_absent)
qed

lemma reg_do_refines:
  assumes "dev_ok s" and "op_fits s r"
  shows "runs (reg_do r s) (\<lambda>t. dev_ok t \<and> find_drv t = find_drv s \<and> view_of t = reg_spec (find_drv s) r (view_of s))"
proof (cases r)
  case (REG_ONLINE drvid info op)
  with assms(2) obtain drv where o: "find_drv s drvid = Some drv" "length (info_mac info) = 8" by auto
  have i: "cb_dev_id (dev_cb s) = of_nat (next_ptr s)" using dev_okD [OF assms(1)] by simp
  from dev_online_refines [OF assms(1) o, of op] dev_online_frame [OF assms(1) o, of op] dev_online_next_id [OF assms(1) o, of op]
  obtain r' devid t where t: "dev_online s drvid info op = Some (r', devid, t)" "dev_ok t" "drv_frame s t"
    "abs_reg t = reg_online (new_dev (of_nat (next_ptr s)) (find_drv s drvid) info op) drvid (info_mac info) (abs_reg s)"
    "cb_dev_id (dev_cb t) = (if find (same_dev drvid (info_mac info)) (snd (abs_reg s)) = None
       then cb_dev_id (dev_cb s) + 1 else cb_dev_id (dev_cb s))"
    by (auto elim!: runsE)
  have "view_of t = reg_spec (find_drv s) r (view_of s)"
    using t(4,5) i REG_ONLINE by (cases "abs_reg s") (auto simp: view_of_def reg_online_def split: option.splits)
  with t find_drv_frame [OF t(3)] REG_ONLINE show ?thesis by simp
next
  case (REG_OFFLINE devid)
  from dev_offline_refines [OF assms(1), of devid] dev_offline_frame [OF assms(1), of devid] dev_offline_next_id [OF assms(1), of devid]
  obtain r' t where t: "dev_offline s devid = Some (r', t)" "dev_ok t" "drv_frame s t"
    "abs_reg t = reg_offline devid (abs_reg s)" "cb_dev_id (dev_cb t) = cb_dev_id (dev_cb s)" by (auto elim!: runsE)
  have "view_of t = reg_spec (find_drv s) r (view_of s)"
    using t(4,5) REG_OFFLINE by (cases "abs_reg s") (auto simp: view_of_def reg_offline_def split: option.splits)
  with t find_drv_frame [OF t(3)] REG_OFFLINE show ?thesis by simp
qed

lemma op_fits_cong: "find_drv t = find_drv s \<Longrightarrow> op_fits t r = op_fits s r"
  by (cases r) simp_all

text \<open>
  C25. Refinement. Any sequence of announcements and losses of devices that the drivers report, run by \<^verbatim>\<open>dev_online\<close> and
  \<^verbatim>\<open>dev_offline\<close> on the store, the queues and the locks, gives exactly the id counter and the online and offline lists
  that the abstract registry computes: a known device comes back with its old record, a new one gets the next id, a lost
  one moves to the end of the offline list.
\<close>

theorem registry_refines:
  assumes "dev_ok s" and "\<forall>r \<in> set ops. op_fits s r"
  shows "runs (for_list reg_do ops s) (\<lambda>t. dev_ok t \<and> view_of t = fold (reg_spec (find_drv s)) ops (view_of s))"
  using assms
proof (induction ops arbitrary: s)
  case (Cons r ops)
  then have "op_fits s r" by simp
  from reg_do_refines [OF Cons.prems(1) this] obtain t where t: "reg_do r s = Some t" "dev_ok t" "find_drv t = find_drv s"
    "view_of t = reg_spec (find_drv s) r (view_of s)" by (auto elim!: runsE)
  have "\<forall>r \<in> set ops. op_fits t r" using Cons.prems(2) op_fits_cong [OF t(3)] by simp
  from Cons.IH [OF t(2) this] t show ?case by simp
qed simp

end
