(* ===== verification/Demo_Daemon.thy ===== *)
theory Demo_Daemon
  imports Demo_Net Core_Daemon Registry_Spec
begin

text \<open>
  The properties of the registry's refinement and of the whole daemon applied to concrete states.
\<close>

theorem registry_refines_witness:
  "runs (for_list reg_do [REG_OFFLINE 1, REG_ONLINE 1 (demo_info 1) virtual_switch_op, REG_ONLINE 1 (demo_info 9) virtual_switch_op] demo_box)
    (\<lambda>t. dev_ok t \<and> view_of t = (5, [demo_dev 2 True, demo_dev 1 False,
       new_dev 4 (Some virtual_switch_drv) (demo_info 9) virtual_switch_op], [demo_dev 3 False]))"
proof -
  let ?ops = "[REG_OFFLINE 1, REG_ONLINE 1 (demo_info 1) virtual_switch_op, REG_ONLINE 1 (demo_info 9) virtual_switch_op]"
  have drv: "find_drv demo_box 1 = Some virtual_switch_drv" by (simp add: find_drv_def demo_defs)
  have v: "view_of demo_box = (4, [demo_dev 1 False, demo_dev 2 True], [demo_dev 3 False])"
    by (simp add: view_of_def demo_box_abs) (simp add: demo_box_def demo_cb_def)
  have ne: "demo_dev 3 False \<noteq> demo_dev 1 False" "demo_dev 1 False \<noteq> demo_dev 3 False" 
    by (auto dest: arg_cong [of _ _ dev_id])
  have same: "same_dev 1 (info_mac (demo_info m)) (demo_dev n e) \<longleftrightarrow> (of_nat n :: u8) = of_nat m" for m n e
    by (simp add: same_dev_def virtual_switch_drv_def demo_info_def)
  have "\<forall>r \<in> set ?ops. op_fits demo_box r" using drv by (simp add: demo_info_def)
  from registry_refines [OF demo_box_ok this] show ?thesis
    by (rule runs_mono) (simp add: v drv same ne)
qed

theorem daemon_invariant_witness:
  "runs (main_start True True True demo_env 7 (power_on demo_pool zero_status (replicate 64 0xCC))) (\<lambda>(ok, s). ok \<and>
    box_ok s \<and> mail_ok s \<and> runs (box_handle (CZ_UART demo_uart) s) (\<lambda>t. reach box_handle box_allowed s t \<and> box_ok t))"
proof -
  have h: "length (replicate 64 (0xCC :: u8)) = 64" "\<forall>rx \<in> set (ev_vs_rxs demo_env). length (rx_buf rx) = 64" "(0 :: int) \<le> 7"
    by (simp_all add: demo_env_def)
  have u: "box_world (CZ_UART demo_uart)" "box_limits (CZ_UART demo_uart) s" for s
    using demo_uart_facts(3) by (simp_all add: rx_ok_split)
  have "box_ok s \<and> mail_ok s \<and> runs (box_handle (CZ_UART demo_uart) s) (\<lambda>t. reach box_handle box_allowed s t \<and> box_ok t)"
    if r: "\<forall>t. reach box_handle box_allowed s t \<longrightarrow> box_ok t \<and> mail_ok t \<and>
      (\<forall>e. box_world e \<and> box_limits e t \<longrightarrow> runs (box_handle e t) (reach box_handle box_allowed s)) \<and> P t" for s P
  proof -
    from r [rule_format, OF reach.start] u have "box_ok s" "mail_ok s"
      "runs (box_handle (CZ_UART demo_uart) s) (reach box_handle box_allowed s)" by blast+
    then show ?thesis using r by (auto simp del: box_handle.simps elim!: runs_mono)
  qed
  note start = this
  from daemon_invariant [OF zero_status_shape h, of demo_pool] show ?thesis
  proof (rule runs_pairE)
    fix ok s
    assume m: "main_start True True True demo_env 7 (power_on demo_pool zero_status (replicate 64 0xCC)) = Some (ok, s)" and P: "ok \<and>
      (\<forall>t. reach box_handle box_allowed s t \<longrightarrow> box_ok t \<and> mail_ok t \<and>
        (\<forall>e. box_world e \<and> box_limits e t \<longrightarrow> runs (box_handle e t) (reach box_handle box_allowed s)) \<and>
        (\<forall>rx. uart_world rx \<and> ur_nread rx = 12 \<and> take 2 (ur_buf rx) = le16 CZ_HEADER_MAGIC \<and> \<not> box_limits (CZ_UART rx) t \<longrightarrow>
           box_handle (CZ_UART rx) t = None) \<and>
        (\<forall>i clk. 0 \<le> si_ret i \<and> si_ready i \<and> length (si_bytes i) = MAXLINE \<and> si_nread i = int MAXLINE \<longrightarrow>
           box_handle (MAIN_LOOP i clk) t = None) \<and>
        (\<forall>fuel io k. ctx_un_sockfd (contexts t ! k) < 0 \<longrightarrow> box_handle (TCP_CLIENT fuel io k) t = None))"
    show ?thesis using start [OF conjunct2 [OF P]] conjunct1 [OF P] unfolding m by (simp del: box_handle.simps)
  qed
qed

theorem delays_never_fire_witness:
  "runs (main_start True True True demo_env 7 (power_on demo_pool zero_status (replicate 64 0xCC))) (\<lambda>(ok, s). \<forall>t p i c mode.
    reach box_handle box_allowed s t \<longrightarrow> p \<in> set (cb_queue (dev_cb t)) \<longrightarrow> i < HSB_DEV_MAX_DELAY_NUM \<longrightarrow>
    delay_body c mode p i t = Some t)"
  by (rule delays_never_fire) (simp_all add: zero_status_shape demo_env_ok)

theorem daemon_select_bound_witness:
  "daemon_select \<lparr>si_ret = 1, si_ready = True, si_nread = 1024, si_bytes = replicate 1024 65, si_from = [0], si_now = 100\<rparr> = None"
  using daemon_select_bound [of "\<lparr>si_ret = 1, si_ready = True, si_nread = 1024, si_bytes = replicate 1024 65, si_from = [0], si_now = 100\<rparr>"]
  by simp

theorem remote_control_packet_witness:
  "deal_tcp_packet 9 (hdr HSB_CMD_DO_ACTION 16 @ le32 1 @ le16 HSB_ACT_TYPE_REMOTE_CONTROL @ le16 0 @ le32 3 @ []) 16 (Some 0) demo_box =
    Some (0, 16, pushed demo_box [HSB_ACT_TYPE_DO_ACTION (Some 0) \<lparr>act_devid = 1, act_id = HSB_ACT_TYPE_REMOTE_CONTROL,
      act_param1 = 0, act_param2 = 0x33\<rparr>])"
proof -
  have "n9201_code 3 = Some 0x33" by (simp add: n9201_code_def)
  with remote_control_packet [OF demo_box_sync demo_devs, of 16 9 1 0 3 "[]" "Some 0"] show ?thesis by simp
qed

end
