(* ===== verification/C_Lib.thy ===== *)
theory C_Lib
  imports Cmd_Field
begin

text \<open>
  What the library and the tools use of the C standard library: the decimal format \<^verbatim>\<open>%d\<close> of \<^verbatim>\<open>sprintf\<close>, \<^verbatim>\<open>atoi\<close>,
  \<^verbatim>\<open>strncmp\<close> against a literal, and \<^verbatim>\<open>sscanf\<close> for literals, blanks, \<^verbatim>\<open>%d\<close>, \<^verbatim>\<open>%x\<close> and \<^verbatim>\<open>%x\<close> with a field width. A string is the
  characters before its terminating 0. A number that does not fit its type is undefined in C and \<^term>\<open>None\<close> here.
\<close>

section \<open>Numbers\<close>

definition dec_char :: "nat \<Rightarrow> char" where
  "dec_char n = char_of (48 + n)"

fun show_nat :: "nat \<Rightarrow> string" where
  "show_nat n = (if n < 10 then [dec_char n] else show_nat (n div 10) @ [dec_char (n mod 10)])"

declare show_nat.simps [simp del]

definition show_int :: "int \<Rightarrow> string" where
  "show_int i = (if i < 0 then CHR ''-'' # show_nat (nat (- i)) else show_nat (nat i))"

definition isspace :: "char \<Rightarrow> bool" where
  "isspace c \<longleftrightarrow> c = CHR '' '' \<or> (of_char c :: nat) \<in> {9..13}"

definition dec_val :: "char \<Rightarrow> nat option" where
  "dec_val c = (let n = of_char c in if 48 \<le> n \<and> n \<le> 57 then Some (n - 48) else None)"

definition hex_val :: "char \<Rightarrow> nat option" where
  "hex_val c = (let n = of_char c in
     if 48 \<le> n \<and> n \<le> 57 then Some (n - 48)
     else if 65 \<le> n \<and> n \<le> 70 then Some (n - 55)
     else if 97 \<le> n \<and> n \<le> 102 then Some (n - 87) else None)"

text \<open>The digits at the head of a string, and the rest.\<close>

fun digits :: "(char \<Rightarrow> nat option) \<Rightarrow> string \<Rightarrow> nat list \<times> string" where
  "digits val [] = ([], [])"
| "digits val (c # cs) = (case val c of
     None \<Rightarrow> ([], c # cs)
   | Some d \<Rightarrow> (let (ds, r) = digits val cs in (d # ds, r)))"

definition num :: "nat \<Rightarrow> nat list \<Rightarrow> nat" where
  "num base ds = foldl (\<lambda>n d. n * base + d) 0 ds"

definition sign :: "string \<Rightarrow> int \<times> string" where
  "sign s = (case s of
     [] \<Rightarrow> (1, s)
   | c # cs \<Rightarrow> if c = CHR ''-'' then (- 1, cs) else if c = CHR ''+'' then (1, cs) else (1, s))"

text \<open>A signed decimal number after blanks; \<^term>\<open>None\<close> when there is none.\<close>

definition scan_dec :: "string \<Rightarrow> (int \<times> string) option" where
  "scan_dec s = (let (sg, s) = sign (dropWhile isspace s); (ds, r) = digits dec_val s
     in if ds = [] then None else Some (sg * int (num 10 ds), r))"

definition hex_prefix :: "string \<Rightarrow> string" where
  "hex_prefix s = (case s of c # x # cs \<Rightarrow> if c = CHR ''0'' \<and> (x = CHR ''x'' \<or> x = CHR ''X'') then cs else s | _ \<Rightarrow> s)"

definition scan_hex :: "string \<Rightarrow> (int \<times> string) option" where
  "scan_hex s = (let (sg, s) = sign (dropWhile isspace s); (ds, r) = digits hex_val (hex_prefix s)
     in if ds = [] then None else Some (sg * int (num 16 ds), r))"

definition int_fits :: "int \<Rightarrow> bool" where
  "int_fits i \<longleftrightarrow> - (2 ^ 31) \<le> i \<and> i < 2 ^ 31"

definition atoi :: "string \<Rightarrow> int option" where
  "atoi s = (case scan_dec s of None \<Rightarrow> Some 0 | Some (v, r) \<Rightarrow> if int_fits v then Some v else None)"

text \<open>
  \<^verbatim>\<open>fgets\<close> on the start of a file: a line with its newline, cut to one byte less than the buffer; the caller reads it
  up to the first 0.
\<close>

definition fgets :: "nat \<Rightarrow> string \<Rightarrow> string option" where
  "fgets sz s = (if s = [] then None
     else let line = takeWhile (\<lambda>c. c \<noteq> CHR 0x0A) s; nl = take 1 (drop (length line) s)
       in Some (takeWhile (\<lambda>c. c \<noteq> CHR 0x00) (take (sz - 1) (line @ nl))))"

section \<open>\<^verbatim>\<open>sscanf\<close>\<close>

datatype fmt = LIT char | BLANK | PCT_D | PCT_X | PCT_WX nat

text \<open>
  The values converted, in order; their number is what \<^verbatim>\<open>sscanf\<close> returns (its \<^verbatim>\<open>EOF\<close> is no number a caller
  compares with).
\<close>

fun sscanf :: "fmt list \<Rightarrow> string \<Rightarrow> int list option" where
  "sscanf [] s = Some []"
| "sscanf (LIT c # fs) s = (case s of [] \<Rightarrow> Some [] | x # xs \<Rightarrow> if x = c then sscanf fs xs else Some [])"
| "sscanf (BLANK # fs) s = sscanf fs (dropWhile isspace s)"
| "sscanf (PCT_D # fs) s = (case scan_dec s of
     None \<Rightarrow> Some []
   | Some (v, r) \<Rightarrow> if int_fits v then map_option ((#) v) (sscanf fs r) else None)"
| "sscanf (PCT_X # fs) s = (case scan_hex s of
     None \<Rightarrow> Some []
   | Some (v, r) \<Rightarrow> if v < 2 ^ 32 \<and> - (2 ^ 32) < v then map_option ((#) v) (sscanf fs r) else None)"
| "sscanf (PCT_WX n # fs) s = (let field = dropWhile isspace s in case scan_hex (take n field) of
     None \<Rightarrow> Some []
   | Some (v, r) \<Rightarrow> if v < 2 ^ 32 \<and> - (2 ^ 32) < v then map_option ((#) v) (sscanf fs (r @ drop n field)) else None)"

text \<open>Blanks in a format match any blanks of the input.\<close>

definition format :: "string \<Rightarrow> fmt list" where
  "format s = map (\<lambda>c. if isspace c then BLANK else LIT c) s"

section \<open>Printing and reading numbers\<close>

lemma dec_val_char [simp]: "n < 10 \<Longrightarrow> dec_val (dec_char n) = Some n"
  by (simp add: dec_val_def dec_char_def Let_def)

lemma digits_append: "(\<forall>c \<in> set s. val c \<noteq> None) \<Longrightarrow> digits val (s @ r) = (map (the \<circ> val) s @ fst (digits val r), snd (digits val r))"
  by (induction s) (auto simp: Let_def split: prod.splits)

lemma show_nat_digits: "(\<forall>c \<in> set (show_nat n). dec_val c \<noteq> None) \<and> num 10 (map (the \<circ> dec_val) (show_nat n)) = n \<and> show_nat n \<noteq> []"
proof (induction n rule: show_nat.induct)
  case (1 n)
  show ?case
  proof (cases "n < 10")
    case True
    then show ?thesis by (subst (1 2 3) show_nat.simps) (simp add: num_def)
  next
    case False
    let ?s = "show_nat (n div 10)"
    have s: "show_nat n = ?s @ [dec_char (n mod 10)]" using False by (subst show_nat.simps) simp
    from 1 False have "num 10 (map (the \<circ> dec_val) ?s) = n div 10" by blast
    then have "num 10 (map (the \<circ> dec_val) (show_nat n)) = n" unfolding s by (simp only: num_def map_append foldl_append) simp
    moreover have "\<forall>c \<in> set (show_nat n). dec_val c \<noteq> None" using 1 False unfolding s by auto
    moreover have "show_nat n \<noteq> []" unfolding s by simp
    ultimately show ?thesis by blast
  qed
qed

lemma show_nat_head: "\<exists>d < 10. \<exists>r. show_nat n = dec_char d # r"
proof (induction n rule: show_nat.induct)
  case (1 n)
  show ?case
  proof (cases "n < 10")
    case True
    then show ?thesis by (subst show_nat.simps) auto
  next
    case False
    with 1 show ?thesis by (subst show_nat.simps) auto
  qed
qed

lemma dec_char_plain: "d < 10 \<Longrightarrow> \<not> isspace (dec_char d) \<and> dec_char d \<noteq> CHR ''-'' \<and> dec_char d \<noteq> CHR ''+''"
proof -
  have "list_all (\<lambda>d. \<not> isspace (dec_char d) \<and> dec_char d \<noteq> CHR ''-'' \<and> dec_char d \<noteq> CHR ''+'') [0..<10]" by code_simp
  then show "d < 10 \<Longrightarrow> ?thesis" by (auto simp: list_all_iff)
qed

lemma scan_show_append:
  assumes "digits dec_val r = ([], r)"
  shows "scan_dec (show_int i @ r) = Some (i, r)"
proof (cases "i < 0")
  case True
  have "\<not> isspace (CHR ''-'')" by code_simp
  with True assms show ?thesis using show_nat_digits [of "nat (- i)"] digits_append [of "show_nat (nat (- i))" dec_val r]
    by (simp add: scan_dec_def show_int_def sign_def)
next
  case False
  obtain d q where d: "d < 10" "show_nat (nat i) = dec_char d # q" using show_nat_head by blast
  from dec_char_plain [OF d(1)] False assms show ?thesis
    using show_nat_digits [of "nat i"] digits_append [of "show_nat (nat i)" dec_val r]
    by (simp add: scan_dec_def show_int_def sign_def d(2))
qed

lemma show_int_head: "dropWhile isspace (show_int i @ r) = show_int i @ r"
proof (cases "i < 0")
  case True
  have "\<not> isspace (CHR ''-'')" by code_simp
  with True show ?thesis by (simp add: show_int_def)
next
  case False
  obtain d q where "d < 10" "show_nat (nat i) = dec_char d # q" using show_nat_head by blast
  with dec_char_plain [of d] False show ?thesis by (simp add: show_int_def)
qed

lemma scan_show: "scan_dec (show_int i) = Some (i, [])"
  using scan_show_append [of "[]" i] by simp

lemma scan_number:
  assumes "digits dec_val r = ([], r)" and "int_fits i"
  shows "sscanf (PCT_D # fs) (show_int i @ r) = map_option ((#) i) (sscanf fs r)"
    and "sscanf (BLANK # fs) (show_int i @ r) = sscanf fs (show_int i @ r)"
  using assms by (simp_all add: scan_show_append show_int_head)

lemma atoi_show: "int_fits i \<Longrightarrow> atoi (show_int i) = Some i"
  by (simp add: atoi_def scan_show)

lemma length_show_nat: "n < 10 ^ k \<Longrightarrow> 0 < k \<Longrightarrow> length (show_nat n) \<le> k"
proof (induction n arbitrary: k rule: show_nat.induct)
  case (1 n)
  show ?case
  proof (cases "n < 10")
    case True
    with 1(3) show ?thesis by (subst show_nat.simps) simp
  next
    case False
    with 1(2,3) obtain m where m: "k = Suc m" "0 < m" by (cases k; cases "k - 1") auto
    with 1(2) have "n div 10 < 10 ^ m" by auto
    with 1(1) False m have "length (show_nat (n div 10)) \<le> m" by blast
    with False m show ?thesis by (subst show_nat.simps) simp
  qed
qed

lemma length_show_int: "int_fits i \<Longrightarrow> length (show_int i) \<le> 11"
proof -
  assume "int_fits i"
  then have "nat i < 10 ^ 10" "nat (- i) < 10 ^ 10" by (auto simp: int_fits_def)
  from this [THEN length_show_nat] show ?thesis by (simp add: show_int_def)
qed

lemma show_int_no_nul: "CHR 0x00 \<notin> set (show_int i)"
proof -
  have "dec_val (CHR 0x00) = None" by code_simp
  then have "CHR 0x00 \<notin> set (show_nat n)" for n using show_nat_digits [of n] by blast
  then show ?thesis by (simp add: show_int_def)
qed

lemma int_fits_u16: "int_fits (uint (v :: u16))"
proof -
  have "- (2 ^ 31) \<le> (0 :: int)" by simp
  also have "0 \<le> uint v" by simp
  finally show ?thesis using uint_lt2p [of v] by (simp add: int_fits_def)
qed

section \<open>Strings in buffers\<close>

text \<open>The C string in a buffer; reading on behind the buffer is undefined.\<close>

definition c_string :: "buf \<Rightarrow> string option" where
  "c_string b = (if 0 \<in> set b then Some (map (\<lambda>c. char_of (unat c)) (takeWhile (\<lambda>c. c \<noteq> 0) b)) else None)"

definition bytes :: "string \<Rightarrow> buf" where
  "bytes s = map of_char s"

text \<open>\<^verbatim>\<open>b[n] = 0\<close>.\<close>

definition put_nul :: "buf \<Rightarrow> int \<Rightarrow> buf option" where
  "put_nul b n = (if 0 \<le> n then arr_set b (nat n) 0 else None)"

lemma unat_of_char [simp]: "unat (of_char c :: u8) = of_char c"
proof -
  have "unat (of_nat (of_char c) :: u8) = of_char c mod 256" by (simp only: unat_of_nat) simp
  then show ?thesis by (simp only: of_nat_of_char of_char_mod_256)
qed

lemma c_string_bytes:
  assumes "CHR 0x00 \<notin> set s"
  shows "c_string (bytes s @ 0 # r) = Some s"
proof -
  have "(of_char c :: u8) \<noteq> 0" if "c \<in> set s" for c
  proof
    assume "(of_char c :: u8) = 0"
    then have "of_char c = (0 :: nat)" using unat_of_char [of c] by simp
    then have "of_char c = (of_char (CHR 0x00) :: nat)" by simp
    then have "c = CHR 0x00" by (simp only: of_char_eq_iff)
    with that assms show False by simp
  qed
  then have "takeWhile (\<lambda>c. c \<noteq> 0) (bytes s @ 0 # r) = bytes s" by (auto simp: bytes_def takeWhile_append)
  then show ?thesis by (simp add: c_string_def bytes_def o_def)
qed

text \<open>A line read into a buffer and closed with 0.\<close>

lemma typed_line:
  assumes "CHR 0x00 \<notin> set s" and "length s < length junk"
  shows "runs (put_nul (front junk (bytes s)) (int (length s))) (\<lambda>b. c_string b = Some s)"
proof -
  have "(front junk (bytes s))[length s := 0] = bytes s @ 0 # drop (Suc (length s)) junk"
    using assms(2) by (simp add: front_def bytes_def list_update_append Cons_nth_drop_Suc [symmetric])
  with c_string_bytes [OF assms(1)] assms(2) show ?thesis by (simp add: put_nul_def front_def bytes_def arr_set_def)
qed

end
