(* ===== verification/Switch_Sim.thy ===== *)
theory Switch_Sim
  imports Vs_Monitor C_Lib
begin

text \<open>
  The simulator of a Wi-Fi switch, \<^verbatim>\<open>misc/switch_sim.c\<close>: its status, the datagrams it answers, the
  commands of its user, and one round of its main loop. Output to the terminal is left out; an access outside an array
  and an undefined \<^verbatim>\<open>sscanf\<close> are \<^term>\<open>None\<close>. The theorems connect it with the driver of the daemon.
\<close>

abbreviation (input) VS_CMD_GET_INFO :: u16 where "VS_CMD_GET_INFO \<equiv> 0x8911"
abbreviation (input) VS_CMD_GET_INFO_RESP :: u16 where "VS_CMD_GET_INFO_RESP \<equiv> 0x8912"

datatype dgram = TO_CLIENT buf | TO_BROADCAST buf

record switch_sim =
  status_on_off :: u16
  switch_mac :: buf
  dgrams :: "dgram list"

definition switch_start :: switch_sim where
  "switch_start = \<lparr>status_on_off = 0, switch_mac = [1, 2, 3, 4, 5, 6], dgrams = []\<rparr>"

definition switch_send :: "switch_sim \<Rightarrow> dgram \<Rightarrow> switch_sim" where
  "switch_send w d = w\<lparr>dgrams := dgrams w @ [d]\<rparr>"

section \<open>Datagrams\<close>

text \<open>A reply with a result code, written by three of the cases.\<close>

definition switch_result :: "buf \<Rightarrow> u16 \<Rightarrow> (buf \<times> nat) option" where
  "switch_result rbuf result = do {
     let rlen = 8;
     rbuf \<leftarrow> SET_u16 rbuf 0 VS_CMD_RESULT;
     rbuf \<leftarrow> SET_u16 rbuf 2 (of_nat rlen);
     rbuf \<leftarrow> SET_u16 rbuf 4 result;
     Some (rbuf, rlen) }"

text \<open>The command switch: the reply, whether the status changed, and the new state.\<close>

definition switch_cmd :: "u16 \<Rightarrow> buf \<Rightarrow> buf \<Rightarrow> switch_sim \<Rightarrow> (buf \<times> nat \<times> bool \<times> switch_sim) option" where
  "switch_cmd cmd b rbuf w =
     (if cmd = VS_CMD_DEVICE_DISCOVER then do {
        let rlen = 32;
        rbuf \<leftarrow> SET_u16 rbuf 0 VS_CMD_DEVICE_DISCOVER_RESP;
        rbuf \<leftarrow> SET_u16 rbuf 2 (of_nat rlen);
        rbuf \<leftarrow> SET_u8 rbuf 4 0;
        rbuf \<leftarrow> SET_u8 rbuf 5 1;
        rbuf \<leftarrow> SET_u16 rbuf 8 0;
        rbuf \<leftarrow> SET_u16 rbuf 10 0;
        rbuf \<leftarrow> put_bytes rbuf 12 (take 6 (switch_mac w));
        Some (rbuf, rlen, False, w) }
      else if cmd = VS_CMD_GET_INFO then do {
        let rlen = 28;
        rbuf \<leftarrow> SET_u16 rbuf 0 VS_CMD_GET_INFO_RESP;
        rbuf \<leftarrow> SET_u16 rbuf 2 (of_nat rlen);
        rbuf \<leftarrow> SET_u16 rbuf 4 0;
        rbuf \<leftarrow> SET_u16 rbuf 6 0;
        rbuf \<leftarrow> put_bytes rbuf 8 (take 6 (switch_mac w));
        Some (rbuf, rlen, False, w) }
      else if cmd = VS_CMD_GET_STATUS then do {
        let rlen = 8;
        rbuf \<leftarrow> SET_u16 rbuf 0 VS_CMD_GET_STATUS_RESP;
        rbuf \<leftarrow> SET_u16 rbuf 2 (of_nat rlen);
        rbuf \<leftarrow> SET_u16 rbuf 4 0;
        rbuf \<leftarrow> SET_u16 rbuf 6 (status_on_off w);
        Some (rbuf, rlen, False, w) }
      else if cmd = VS_CMD_SET_STATUS then do {
        status_id \<leftarrow> GET_u16 b 4;
        status \<leftarrow> GET_u16 b 6;
        if status_id \<noteq> 0 then Some (rbuf, 0, False, w)
        else do {
          let (upd, w) = (if status \<noteq> status_on_off w then (True, w\<lparr>status_on_off := status\<rparr>) else (False, w));
          (rbuf, rlen) \<leftarrow> switch_result rbuf 1;
          Some (rbuf, rlen, upd, w) } }
      else if cmd = VS_CMD_DO_ACTION then do {
        act \<leftarrow> GET_u16 b 4;
        param1 \<leftarrow> GET_u16 b 6;
        param2 \<leftarrow> GET_u32 b 8;
        (rbuf, rlen) \<leftarrow> switch_result rbuf 1;
        Some (rbuf, rlen, False, w) }
      else if cmd = VS_CMD_KEEP_ALIVE then do {
        let rlen = 4;
        rbuf \<leftarrow> SET_u16 rbuf 0 VS_CMD_KEEP_ALIVE;
        rbuf \<leftarrow> SET_u16 rbuf 2 (of_nat rlen);
        Some (rbuf, rlen, False, w) }
      else do {
        (rbuf, rlen) \<leftarrow> switch_result rbuf 0;
        Some (rbuf, rlen, False, w) })"

definition switch_deal_udp_pkt :: "buf \<Rightarrow> nat \<Rightarrow> switch_sim \<Rightarrow> (int \<times> switch_sim) option" where
  "switch_deal_udp_pkt b count w = do {
     cmd \<leftarrow> GET_u16 b 0;
     len \<leftarrow> GET_u16 b 2;
     if unat len \<noteq> count then Some (- 1, w)
     else do {
       (rbuf, rlen, upd, w) \<leftarrow> switch_cmd cmd b (replicate 64 0) w;
       let w = switch_send w (TO_CLIENT (take rlen rbuf));
       if \<not> upd then Some (0, w)
       else do {
         let rbuf = replicate 64 0;
         let rlen = 8;
         rbuf \<leftarrow> SET_u16 rbuf 0 VS_CMD_STATUS_CHANGED;
         rbuf \<leftarrow> SET_u16 rbuf 2 8;
         rbuf \<leftarrow> SET_u16 rbuf 4 0;
         rbuf \<leftarrow> SET_u16 rbuf 6 (status_on_off w);
         Some (0, switch_send w (TO_BROADCAST (take rlen rbuf))) } } }"

section \<open>User commands\<close>

definition switch_deal_input_cmd :: "buf \<Rightarrow> switch_sim \<Rightarrow> (int \<times> switch_sim) option" where
  "switch_deal_input_cmd b w = do {
     str \<leftarrow> c_string b;
     let rbuf = replicate 16 0;
     let rlen = 8;
     status \<leftarrow> sscanf (format ''status='' @ [PCT_D]) str;
     case status of [v] \<Rightarrow> (let val = of_int v :: u32 in
       if ucast (status_on_off w) = val then Some (0, w)
       else do {
         let w = w\<lparr>status_on_off := ucast val\<rparr>;
         rbuf \<leftarrow> SET_u16 rbuf 0 VS_CMD_STATUS_CHANGED;
         rbuf \<leftarrow> SET_u16 rbuf 2 (of_nat rlen);
         rbuf \<leftarrow> SET_u16 rbuf 4 0;
         rbuf \<leftarrow> SET_u16 rbuf 6 (ucast val);
         Some (0, switch_send w (TO_BROADCAST (take rlen rbuf))) })
     | _ \<Rightarrow> do {
       sensor \<leftarrow> sscanf (format ''sensor='' @ [PCT_D]) str;
       case sensor of [v] \<Rightarrow> (let val = of_int v :: u32 in do {
         rbuf \<leftarrow> SET_u16 rbuf 0 VS_CMD_EVENT;
         rbuf \<leftarrow> SET_u16 rbuf 2 (of_nat rlen);
         rbuf \<leftarrow> SET_u16 rbuf 4 (if val = 0 then 1 else 0);
         rbuf \<leftarrow> SET_u16 rbuf 6 0;
         Some (0, switch_send w (TO_BROADCAST (take rlen rbuf))) })
       | _ \<Rightarrow> do {
         key \<leftarrow> sscanf (format ''key='' @ [PCT_D]) str;
         case key of [v] \<Rightarrow> (let val = of_int v :: u32 in do {
           rbuf \<leftarrow> SET_u16 rbuf 0 VS_CMD_EVENT;
           rbuf \<leftarrow> SET_u16 rbuf 2 (of_nat rlen);
           rbuf \<leftarrow> SET_u16 rbuf 4 2;
           rbuf \<leftarrow> SET_u16 rbuf 6 (ucast val);
           Some (0, switch_send w (TO_BROADCAST (take rlen rbuf))) })
         | _ \<Rightarrow> Some (- 1, w) } } }"

text \<open>
  One round of the main loop after a \<^verbatim>\<open>select\<close> that returned a positive number: \<open>udp\<close> and \<open>input\<close> are what
  \<^verbatim>\<open>recvfrom\<close> and \<^verbatim>\<open>read\<close> returned and stored, when their descriptor is ready.
\<close>

definition switch_input :: "(int \<times> buf) option \<Rightarrow> switch_sim \<Rightarrow> switch_sim option" where
  "switch_input input w = (case input of
     None \<Rightarrow> Some w
   | Some (nread, b) \<Rightarrow> do { b \<leftarrow> put_nul b nread; (r, w) \<leftarrow> switch_deal_input_cmd b w; Some w })"

definition switch_main_round :: "(int \<times> buf) option \<Rightarrow> (int \<times> buf) option \<Rightarrow> switch_sim \<Rightarrow> switch_sim option" where
  "switch_main_round udp input w = (case udp of
     None \<Rightarrow> switch_input input w
   | Some (nread, b) \<Rightarrow>
       if nread \<le> 0 then Some w
       else do { (r, w) \<leftarrow> switch_deal_udp_pkt b (nat nread) w; switch_input input w })"

section \<open>What the simulator answers\<close>

definition vs_status_resp :: "u16 \<Rightarrow> buf" where
  "vs_status_resp v = le16 VS_CMD_GET_STATUS_RESP @ le16 8 @ le16 0 @ le16 v"

definition vs_changed_frame :: "u16 \<Rightarrow> buf" where
  "vs_changed_frame v = le16 VS_CMD_STATUS_CHANGED @ le16 8 @ le16 0 @ le16 v"

definition vs_ok_frame :: buf where
  "vs_ok_frame = le16 VS_CMD_RESULT @ le16 8 @ le16 1 @ le16 0"

lemma GET_frame: "length p = off \<Longrightarrow> GET_u16 (front junk (p @ le16 v @ r)) off = Some v"
  by (auto simp: GET_u16_def front_def nth_append le16_def)

lemma front_pad: "length p \<le> n \<Longrightarrow> n \<le> m \<Longrightarrow> take n (front (replicate m 0) p) = p @ replicate (n - length p) 0"
  by (simp add: front_def)

text \<open>A status request is answered with the status.\<close>

lemma switch_get_status_eq:
  assumes "8 \<le> length junk"
  shows "switch_deal_udp_pkt (front junk vs_get_frame) 8 w = Some (0, switch_send w (TO_CLIENT (vs_status_resp (status_on_off w))))"
proof -
  have g: "GET_u16 (front junk vs_get_frame) 0 = Some VS_CMD_GET_STATUS" "GET_u16 (front junk vs_get_frame) 2 = Some 8"
    using GET_frame [of "[]" 0] GET_frame [of "le16 _" 2] by (simp_all add: vs_get_frame_def)
  show ?thesis
    using take_front [of "vs_status_resp (status_on_off w)" "replicate 64 0"]
    by (simp add: switch_deal_udp_pkt_def g switch_cmd_def vs_status_resp_def)
qed

lemma switch_result_eq:
  "switch_result (replicate 64 0) v = Some (front (replicate 64 0) (le16 VS_CMD_RESULT @ le16 8 @ le16 v), 8)"
  by (simp add: switch_result_def)

lemma le16_zero: "le16 0 = replicate 2 0"
  by (simp add: le16_def numeral_2_eq_2)

lemma take_result: "take 8 (front (replicate 64 0) (le16 VS_CMD_RESULT @ le16 8 @ le16 v)) = le16 VS_CMD_RESULT @ le16 8 @ le16 v @ le16 0"
  using front_pad [of "le16 VS_CMD_RESULT @ le16 8 @ le16 v" 8 64] by (simp add: le16_zero)

text \<open>A request to set the on-off status is carried out, confirmed, and announced when it changed something.\<close>

lemma switch_set_status_eq:
  assumes "frame = le16 VS_CMD_SET_STATUS @ le16 8 @ le16 0 @ le16 v"
  shows "switch_deal_udp_pkt (front junk frame) 8 w = Some (0, w\<lparr>status_on_off := v, dgrams := dgrams w @ TO_CLIENT vs_ok_frame #
    (if v = status_on_off w then [] else [TO_BROADCAST (vs_changed_frame v)])\<rparr>)"
proof -
  have g: "GET_u16 (front junk frame) 0 = Some VS_CMD_SET_STATUS" "GET_u16 (front junk frame) 2 = Some 8"
    "GET_u16 (front junk frame) 4 = Some 0" "GET_u16 (front junk frame) 6 = Some v"
    using GET_frame [of "[]" 0] GET_frame [of "le16 _" 2] GET_frame [of "le16 _ @ le16 _" 4]
      GET_frame [of "le16 _ @ le16 _ @ le16 _" 6 junk v "[]"] by (simp_all add: assms)
  have c: "take 8 (front (replicate 64 0) (vs_changed_frame v)) = vs_changed_frame v"
    by (rule take_front_len) (simp add: vs_changed_frame_def)
  show ?thesis
    using c by (cases w) (simp add: switch_deal_udp_pkt_def g switch_cmd_def switch_result_eq take_result switch_send_def vs_ok_frame_def
        vs_changed_frame_def)
qed

text \<open>The command \<^verbatim>\<open>status=\<close> with a number of 16 bits.\<close>

lemma scan_status:
  assumes "digits dec_val r = ([], r)"
  shows "sscanf (format ''status='' @ [PCT_D]) (''status='' @ show_int (uint (v :: u16)) @ r) = Some [uint v]"
proof -
  have f: "format ''status='' = map LIT ''status=''" by code_simp
  have "int_fits (uint v)" by (rule int_fits_u16)
  with scan_show_append [OF assms, of "uint v"] show ?thesis unfolding f by simp
qed

lemma ucast_up_down16 [simp]: "(ucast (ucast (v :: u16) :: u32) :: u16) = v"
  by (rule bit_word_eqI) (simp add: bit_simps)

lemma ucast_u16_u32: "(ucast (a :: u16) :: u32) = ucast (v :: u16) \<longleftrightarrow> a = v"
  by (metis ucast_up_down16)

lemma switch_status_cmd:
  assumes "c_string b = Some (''status='' @ show_int (uint v) @ r)" and "digits dec_val r = ([], r)" and "status_on_off w \<noteq> v"
  shows "switch_deal_input_cmd b w = Some (0, w\<lparr>status_on_off := v, dgrams := dgrams w @ [TO_BROADCAST (vs_changed_frame v)]\<rparr>)"
proof -
  have c: "take 8 (front (replicate 16 0) (vs_changed_frame v)) = vs_changed_frame v"
    by (rule take_front_len) (simp add: vs_changed_frame_def)
  from scan_status [OF assms(2)] have "sscanf (format ''status='' @ [PCT_D]) (''status='' @ show_int (uint v) @ r) = Some [uint v]" .
  then show ?thesis unfolding switch_deal_input_cmd_def assms(1) bind.bind_lunit Let_def
    by (simp only: bind.bind_lunit list.case) (use c assms(3) in \<open>simp add: ucast_u16_u32 switch_send_def vs_changed_frame_def\<close>)
qed

section \<open>Properties\<close>

lemma verdict_result:
  assumes "length junk = 64"
  shows "vs_verdict (8, front junk (le16 VS_CMD_RESULT @ le16 8 @ le16 r @ le16 0)) = (if r = 0 then HSB_E_ACT_FAILED else HSB_E_OK)"
proof -
  have "ucast r = (0 :: u8) \<and> ucast (drop_bit 8 r) = (0 :: u8) \<longleftrightarrow> r = 0"
    using of_le16_zero [of "ucast r" "ucast (drop_bit 8 r)"] by simp
  moreover have "uint (of_le16 8 0) = 8" by (simp add: of_le16_def)
  ultimately show ?thesis using assms by (simp add: vs_verdict_def front_def le16_def)
qed

lemma status_resp_fields:
  "length junk = 64 \<Longrightarrow> vs_status_valid (8, front junk (vs_status_resp v))"
  "of_le16 (front junk (vs_status_resp v) ! 4) (front junk (vs_status_resp v) ! 5) = 0"
  "of_le16 (front junk (vs_status_resp v) ! 6) (front junk (vs_status_resp v) ! 7) = v"
  by (simp_all add: vs_status_valid_def front_def vs_status_resp_def le16_def) (simp_all add: of_le16_def)

lemma one_status_frame:
  assumes "st_num st = 1"
  shows "vs_status_frame st = le16 VS_CMD_SET_STATUS @ le16 8 @ le16 (st_id st ! 0) @ le16 (st_val st ! 0)"
  using assms by (simp add: vs_status_frame_def status_bytes_def)

text \<open>
  C32. The driver controls the switch. Setting the on-off status of a device to \<open>v\<close> sends one datagram that makes the
  switch take the value, answer with result code 1, and announce the value when it is a new one; that answer makes the driver return
  \<^verbatim>\<open>HSB_E_OK\<close>. Asking for the status then gets back the value that was set. The two programs agree with each other, not with the
  document of the Wi-Fi protocol: there the result is an error code, 0 for success and 1 for an invalid message, while
  the driver takes 0 as failure, \<^verbatim>\<open>HSB_E_ACT_FAILED\<close>, and every other code as success; and there a status is a field of
  one byte type, one byte length and a value, where both programs use an id and a value of two bytes each.
\<close>

theorem switch_obeys_driver:
  assumes "vs_find_dev_by_id s (st_devid st) = Some pdev" and "status_shape st" and "st_num st = 1" and "st_id st ! 0 = 0" and "st_val st ! 0 = v"
    and "st_devid st' = st_devid st" and "status_shape st'" and "unat (st_num st') \<le> 1"
    and "length junk = 1024" and "length rjunk = 64"
    and "w' = w\<lparr>status_on_off := v, dgrams := dgrams w @ TO_CLIENT (le16 VS_CMD_RESULT @ le16 8 @ le16 1 @ le16 0) #
      (if v = status_on_off w then [] else [TO_BROADCAST (le16 VS_CMD_STATUS_CHANGED @ le16 8 @ le16 0 @ le16 v)])\<rparr>"
  shows "(\<forall>r. virtual_switch_set_status (8, front rjunk (le16 VS_CMD_RESULT @ le16 8 @ le16 r @ le16 0)) st s =
      Some (errno (if r = 0 then HSB_E_ACT_FAILED else HSB_E_OK),
        send_out s (UDP_SENDTO (vs_ip pdev) VIRTUAL_SWITCH_LISTEN_PORT (le16 VS_CMD_SET_STATUS @ le16 8 @ le16 0 @ le16 v)))) \<and>
    switch_main_round (Some (8, front junk (le16 VS_CMD_SET_STATUS @ le16 8 @ le16 0 @ le16 v))) None w = Some w' \<and>
    virtual_switch_get_status (8, front rjunk (le16 VS_CMD_GET_STATUS_RESP @ le16 8 @ le16 0 @ le16 v)) st' s =
      Some (errno HSB_E_OK, st'\<lparr>st_num := 1, st_id := (st_id st')[0 := 0], st_val := (st_val st')[0 := v]\<rparr>,
        send_out s (UDP_SENDTO (vs_ip pdev) VIRTUAL_SWITCH_LISTEN_PORT (le16 VS_CMD_GET_STATUS @ le16 8 @ le32 0xffffffff))) \<and>
    switch_main_round (Some (8, front junk (le16 VS_CMD_GET_STATUS @ le16 8 @ le32 0xffffffff))) None w' =
      Some (switch_send w' (TO_CLIENT (le16 VS_CMD_GET_STATUS_RESP @ le16 8 @ le16 0 @ le16 v)))"
proof -
  have f: "vs_status_frame st = le16 VS_CMD_SET_STATUS @ le16 8 @ le16 0 @ le16 v"
    using assms(3,4,5) by (simp add: one_status_frame)
  have "virtual_switch_set_status (8, front rjunk (le16 VS_CMD_RESULT @ le16 8 @ le16 r @ le16 0)) st s =
      Some (errno (if r = 0 then HSB_E_ACT_FAILED else HSB_E_OK), send_out s (UDP_SENDTO (vs_ip pdev) VIRTUAL_SWITCH_LISTEN_PORT (vs_status_frame st)))" for r
    using virtual_switch_set_status_eq [OF assms(1,2), of "(8, front rjunk (le16 VS_CMD_RESULT @ le16 8 @ le16 r @ le16 0))"] assms(3,10)
    by (simp add: verdict_result)
  moreover have "switch_main_round (Some (8, front junk (vs_status_frame st))) None w = Some w'"
    using switch_set_status_eq [OF f, of junk w] assms(11) by (simp add: switch_main_round_def switch_input_def vs_ok_frame_def vs_changed_frame_def)
  moreover have "virtual_switch_get_status (8, front rjunk (vs_status_resp v)) st' s =
      Some (errno HSB_E_OK, st'\<lparr>st_num := 1, st_id := (st_id st')[0 := 0], st_val := (st_val st')[0 := v]\<rparr>,
        send_out s (UDP_SENDTO (vs_ip pdev) VIRTUAL_SWITCH_LISTEN_PORT vs_get_frame))"
    using virtual_switch_get_status_eq [of s st' pdev "(8, front rjunk (vs_status_resp v))"] assms(1,6-8,10)
    by (simp add: status_resp_fields) (simp add: vs_status_resp_def)
  moreover have "switch_main_round (Some (8, front junk vs_get_frame)) None w' = Some (switch_send w' (TO_CLIENT (vs_status_resp v)))"
    using switch_get_status_eq [of junk w'] assms(9,11) by (simp add: switch_main_round_def switch_input_def)
  ultimately show ?thesis by (simp add: f vs_get_frame_def vs_status_resp_def)
qed

lemma inbox_event_out:
  "inbox (event_out s devid ty p q) j = inbox s j @ (if client_live s j
     then [HSB_RESP_TYPE_EVENT None \<lparr>evt_devid = devid, evt_id = ty, evt_param1 = p, evt_param2 = q\<rparr>] else [])"
  "inbox (s\<lparr>vs_queue := vq\<rparr>) j = inbox s j"
proof -
  have "inbox (pushed s acts) j = inbox s j" "client_live (pushed s acts) j = client_live s j" for acts
    by (simp_all add: inbox_def client_live_def)
  then show "inbox (event_out s devid ty p q) j = inbox s j @ (if client_live s j
     then [HSB_RESP_TYPE_EVENT None \<lparr>evt_devid = devid, evt_id = ty, evt_param1 = p, evt_param2 = q\<rparr>] else [])"
    by (simp add: event_out_def Let_def inbox_delivered msg_for_def)
qed (simp add: inbox_def)

text \<open>
  C33. What happens at the switch reaches the clients. When its user enters a new status, the switch takes it and
  announces it; the monitor of the daemon that receives the announcement puts exactly one status event of the
  device, with the value, in the queue of every connected client, queues the actions of the linkages it
  triggers, and counts the device as alive.
\<close>

theorem switch_change_reported:
  assumes "box_ok s" and "vs_find_dev_by_ip s addr = Some i" and "status_on_off w \<noteq> v" and "length junk = 16"
    and "line = ''status='' @ show_int (uint v) @ [CHR 0x0A]" and "length ibuf = 1024"
  shows "\<exists>f. switch_main_round None (Some (int (length line), front ibuf (bytes line))) w =
      Some (w\<lparr>status_on_off := v, dgrams := dgrams w @ [TO_BROADCAST f]\<rparr>) \<and>
    runs (vs_monitor_msg env (int (length f)) (front junk f) addr s) (\<lambda>t. box_ok t \<and>
      (let devid = vs_id (vs_queue s ! i);
           evt = \<lparr>evt_devid = devid, evt_id = HSB_EVT_TYPE_STATUS_UPDATED, evt_param1 = 0, evt_param2 = ucast v\<rparr>
       in (\<forall>j. inbox t j = inbox s j @ (if client_live s j then [HSB_RESP_TYPE_EVENT None evt] else [])) \<and>
          async_queue t = async_queue s @ linkage_acts s devid evt) \<and>
      vs_queue t = (vs_queue s)[i := (vs_queue s ! i)\<lparr>vs_idle_time := 0\<rparr>])"
proof -
  from length_show_int [OF int_fits_u16 [of v]] assms(5,6) have len: "length line < length ibuf" by simp
  have nul: "CHR 0x00 \<notin> set line" using show_int_no_nul [of "uint v"] assms(5) by simp
  have "digits dec_val [CHR 0x0A] = ([], [CHR 0x0A])" by code_simp
  note cmd = switch_status_cmd [OF _ this assms(3)]
  from typed_line [OF nul len] obtain b where b: "put_nul (front ibuf (bytes line)) (int (length line)) = Some b"
    "c_string b = Some line" by (rule runsE)
  have sw: "switch_main_round None (Some (int (length line), front ibuf (bytes line))) w =
      Some (w\<lparr>status_on_off := v, dgrams := dgrams w @ [TO_BROADCAST (vs_changed_frame v)]\<rparr>)"
    using cmd [of b] b assms(5) by (simp add: switch_main_round_def switch_input_def)
  have i: "i < length (vs_queue s)" using assms(2) by (simp add: vs_find_dev_by_ip_def Let_def split: if_splits)
  let ?f = "vs_changed_frame v"
  let ?t = "event_out s (vs_id (vs_queue s ! i)) HSB_EVT_TYPE_STATUS_UPDATED 0 (ucast v)"
  have g: "GET_u16 (front junk ?f) 0 = Some VS_CMD_STATUS_CHANGED" "GET_u16 (front junk ?f) 2 = Some 8"
    "GET_u16 (front junk ?f) 4 = Some 0" "GET_u16 (front junk ?f) 6 = Some v"
    using GET_frame [of "[]" 0] GET_frame [of "le16 _" 2] GET_frame [of "le16 _ @ le16 _" 4]
      GET_frame [of "le16 _ @ le16 _ @ le16 _" 6 junk v "[]"] by (simp_all add: vs_changed_frame_def)
  have l: "length ?f = 8" by (simp add: vs_changed_frame_def)
  have m: "vs_monitor_msg env (int (length ?f)) (front junk ?f) addr s = do { (r, t) \<leftarrow> refresh_device ?t i; Some t }"
    using assms(2) i status_updated_eq [OF assms(1)] by (simp add: vs_monitor_msg_def g l)
  have "box_ok ?t" using event_out_step [OF assms(1)] by simp
  from refresh_device_step [OF this] i have "runs (vs_monitor_msg env (int (length ?f)) (front junk ?f) addr s)
      (\<lambda>t. box_ok t \<and> t = ?t\<lparr>vs_queue := (vs_queue s)[i := (vs_queue s ! i)\<lparr>vs_idle_time := 0\<rparr>]\<rparr>)"
    unfolding m by (simp add: refresh_device_def)
  then show ?thesis
    by (intro exI [of _ ?f] conjI sw) (auto elim!: runs_mono simp: Let_def async_event_out inbox_event_out)
qed

end
