(* ===== verification/Pad_Sim.thy ===== *)
theory Pad_Sim
  imports Net_Client C_Lib
begin

text \<open>
  The simulator of a control pad, \<^verbatim>\<open>misc/pad_sim.c\<close>: a client of the daemon that turns the commands of its user into
  packets and prints the packets it receives. What it prints is a \<open>pad_report\<close>. Terminal output is
  left out otherwise; an access outside an array and an undefined \<^verbatim>\<open>sscanf\<close> are \<^term>\<open>None\<close>. The
  theorems connect it with the server of the daemon.
\<close>

section \<open>Received packets\<close>

datatype pad_report =
    PAD_DEVS "u32 list"
  | PAD_INFO u32 u32 u16 u16 buf
  | PAD_STATUS "(u32 \<times> u16 \<times> u16) list"
  | PAD_TIMER u32 HSB_TIMER_T
  | PAD_DELAY u32 HSB_DELAY_T
  | PAD_LINKAGE u32 HSB_LINKAGE_T
  | PAD_EVENT HSB_EVT_T
  | PAD_RESULT u16
  | PAD_UNKNOWN u16

definition pad_devs_body :: "buf \<Rightarrow> nat \<Rightarrow> u32 list \<Rightarrow> u32 list option" where
  "pad_devs_body b cnt ids = do { devid \<leftarrow> GET_u32 b (4 + cnt * 4); Some (ids @ [devid]) }"

definition pad_status_body :: "buf \<Rightarrow> u32 \<Rightarrow> nat \<Rightarrow> (u32 \<times> u16 \<times> u16) list \<Rightarrow> (u32 \<times> u16 \<times> u16) list option" where
  "pad_status_body b devid cnt out = do {
     sid \<leftarrow> GET_u16 b (8 + cnt * 4);
     v \<leftarrow> GET_u16 b (10 + cnt * 4);
     Some (out @ [(devid, sid, v)]) }"

definition pad_info :: "buf \<Rightarrow> pad_report option" where
  "pad_info b = do {
     devid \<leftarrow> GET_u32 b 4;
     drvid \<leftarrow> GET_u32 b 8;
     dev_class \<leftarrow> GET_u16 b 12;
     interface \<leftarrow> GET_u16 b 14;
     mac \<leftarrow> (if 22 \<le> length b then Some (take 6 (drop 16 b)) else None);
     Some (PAD_INFO devid drvid dev_class interface mac) }"

definition pad_timer :: "buf \<Rightarrow> pad_report option" where
  "pad_timer b = do {
     devid \<leftarrow> GET_u32 b 4;
     timer_id \<leftarrow> GET_u16 b 8;
     work_mode \<leftarrow> GET_u8 b 10;
     flag \<leftarrow> GET_u8 b 11;
     hour \<leftarrow> GET_u8 b 12;
     minute \<leftarrow> GET_u8 b 13;
     sec \<leftarrow> GET_u8 b 14;
     wday \<leftarrow> GET_u8 b 15;
     actid \<leftarrow> GET_u16 b 16;
     act_p1 \<leftarrow> GET_u16 b 18;
     act_p2 \<leftarrow> GET_u32 b 20;
     Some (PAD_TIMER devid \<lparr>tm_id = timer_id, tm_work_mode = work_mode, tm_flag = flag, tm_hour = hour, tm_min = minute,
       tm_sec = sec, tm_wday = wday, tm_act_id = actid, tm_act_param1 = act_p1, tm_act_param2 = act_p2\<rparr>) }"

definition pad_delay :: "buf \<Rightarrow> pad_report option" where
  "pad_delay b = do {
     devid \<leftarrow> GET_u32 b 4;
     delay_id \<leftarrow> GET_u16 b 8;
     work_mode \<leftarrow> GET_u8 b 10;
     flag \<leftarrow> GET_u8 b 11;
     evtid \<leftarrow> GET_u16 b 12;
     evt_p1 \<leftarrow> GET_u16 b 14;
     evt_p2 \<leftarrow> GET_u32 b 16;
     actid \<leftarrow> GET_u16 b 20;
     act_p1 \<leftarrow> GET_u16 b 22;
     act_p2 \<leftarrow> GET_u32 b 24;
     delay_sec \<leftarrow> GET_u32 b 28;
     Some (PAD_DELAY devid \<lparr>dl_id = delay_id, dl_work_mode = work_mode, dl_flag = flag, dl_evt_id = evtid,
       dl_evt_param1 = evt_p1, dl_evt_param2 = evt_p2, dl_act_id = actid, dl_act_param1 = act_p1, dl_act_param2 = act_p2,
       dl_delay_sec = delay_sec\<rparr>) }"

definition pad_linkage :: "buf \<Rightarrow> pad_report option" where
  "pad_linkage b = do {
     devid \<leftarrow> GET_u32 b 4;
     link_id \<leftarrow> GET_u16 b 8;
     work_mode \<leftarrow> GET_u8 b 10;
     flag \<leftarrow> GET_u8 b 11;
     evtid \<leftarrow> GET_u16 b 12;
     evt_p1 \<leftarrow> GET_u16 b 14;
     evt_p2 \<leftarrow> GET_u32 b 16;
     actdev \<leftarrow> GET_u32 b 20;
     actid \<leftarrow> GET_u16 b 24;
     act_p1 \<leftarrow> GET_u16 b 26;
     act_p2 \<leftarrow> GET_u32 b 28;
     Some (PAD_LINKAGE devid \<lparr>lk_id = link_id, lk_work_mode = work_mode, lk_flag = flag, lk_evt_id = evtid,
       lk_evt_param1 = evt_p1, lk_evt_param2 = evt_p2, lk_act_devid = actdev, lk_act_id = actid, lk_act_param1 = act_p1,
       lk_act_param2 = act_p2\<rparr>) }"

definition pad_event :: "buf \<Rightarrow> pad_report option" where
  "pad_event b = do {
     devid \<leftarrow> GET_u32 b 4;
     evtid \<leftarrow> GET_u16 b 8;
     evt_p1 \<leftarrow> GET_u16 b 10;
     evt_p2 \<leftarrow> GET_u32 b 12;
     Some (PAD_EVENT \<lparr>evt_devid = devid, evt_id = evtid, evt_param1 = evt_p1, evt_param2 = evt_p2\<rparr>) }"

text \<open>The number of bytes received is not looked at: a field behind them is what the buffer held before.\<close>

definition pad_deal_tcp_pkt :: "buf \<Rightarrow> pad_report option" where
  "pad_deal_tcp_pkt b = do {
     cmd \<leftarrow> GET_u16 b 0;
     len \<leftarrow> GET_u16 b 2;
     if cmd = HSB_CMD_GET_DEVS_RESP then
       do { ids \<leftarrow> for_list (pad_devs_body b) [0..<nat ((uint len - 4) sdiv 4)] []; Some (PAD_DEVS ids) }
     else if cmd = HSB_CMD_GET_INFO_RESP then pad_info b
     else if cmd = HSB_CMD_GET_STATUS_RESP then do {
       devid \<leftarrow> GET_u32 b 4;
       out \<leftarrow> for_list (pad_status_body b devid) [0..<nat ((uint len - 8) sdiv 4)] [];
       Some (PAD_STATUS out) }
     else if cmd = HSB_CMD_GET_TIMER_RESP then pad_timer b
     else if cmd = HSB_CMD_GET_DELAY_RESP then pad_delay b
     else if cmd = HSB_CMD_GET_LINKAGE_RESP then pad_linkage b
     else if cmd = HSB_CMD_EVENT then pad_event b
     else if cmd = HSB_CMD_RESULT then do { result \<leftarrow> GET_u16 b 4; Some (PAD_RESULT result) }
     else Some (PAD_UNKNOWN cmd) }"

section \<open>User commands\<close>

text \<open>\<^verbatim>\<open>if (n == sscanf(buf, fmt, ...)) ... else ...\<close>\<close>

definition try_scan :: "nat \<Rightarrow> fmt list \<Rightarrow> string \<Rightarrow> (int list \<Rightarrow> 'a option) \<Rightarrow> 'a option \<Rightarrow> 'a option" where
  "try_scan n f str yes no = do { vs \<leftarrow> sscanf f str; if length vs = n then yes vs else no }"

definition pad_head :: "buf \<Rightarrow> u16 \<Rightarrow> nat \<Rightarrow> buf option" where
  "pad_head rbuf cmd len = do { rbuf \<leftarrow> SET_u16 rbuf 0 cmd; SET_u16 rbuf 2 (of_nat len) }"

text \<open>A header with a device id, and with the id of a slot behind it.\<close>

definition pad_dev_cmd :: "u16 \<Rightarrow> int \<Rightarrow> buf \<Rightarrow> (buf \<times> nat) option option" where
  "pad_dev_cmd cmd val1 rbuf = do {
     let len = 8;
     rbuf \<leftarrow> pad_head rbuf cmd len;
     rbuf \<leftarrow> SET_u32 rbuf 4 (of_int val1);
     Some (Some (rbuf, len)) }"

definition pad_slot_cmd :: "u16 \<Rightarrow> int \<Rightarrow> int \<Rightarrow> buf \<Rightarrow> (buf \<times> nat) option option" where
  "pad_slot_cmd cmd val1 val2 rbuf = do {
     let len = 12;
     rbuf \<leftarrow> pad_head rbuf cmd len;
     rbuf \<leftarrow> SET_u32 rbuf 4 (of_int val1);
     rbuf \<leftarrow> SET_u16 rbuf 8 (of_int val2);
     Some (Some (rbuf, len)) }"

definition pad_set_status :: "int \<Rightarrow> int \<Rightarrow> int \<Rightarrow> buf \<Rightarrow> (buf \<times> nat) option option" where
  "pad_set_status val1 val2 val3 rbuf = do {
     let len = 12;
     rbuf \<leftarrow> pad_head rbuf HSB_CMD_SET_STATUS len;
     rbuf \<leftarrow> SET_u32 rbuf 4 (of_int val1);
     rbuf \<leftarrow> SET_u16 rbuf 8 (of_int val2);
     rbuf \<leftarrow> SET_u16 rbuf 10 (of_int val3);
     Some (Some (rbuf, len)) }"

definition pad_set_timer :: "int \<Rightarrow> int \<Rightarrow> buf \<Rightarrow> (buf \<times> nat) option option" where
  "pad_set_timer val1 val2 rbuf = do {
     let len = 24;
     rbuf \<leftarrow> pad_head rbuf HSB_CMD_SET_TIMER len;
     rbuf \<leftarrow> SET_u32 rbuf 4 (of_int val1);
     rbuf \<leftarrow> SET_u16 rbuf 8 (of_int val2);
     rbuf \<leftarrow> SET_u8 rbuf 10 0xff;
     rbuf \<leftarrow> SET_u8 rbuf 11 0;
     rbuf \<leftarrow> SET_u8 rbuf 12 21;
     rbuf \<leftarrow> SET_u8 rbuf 13 49;
     rbuf \<leftarrow> SET_u8 rbuf 14 0;
     rbuf \<leftarrow> SET_u8 rbuf 15 0x7F;
     rbuf \<leftarrow> SET_u16 rbuf 16 0;
     rbuf \<leftarrow> SET_u16 rbuf 18 1;
     Some (Some (rbuf, len)) }"

definition pad_probe :: "int \<Rightarrow> buf \<Rightarrow> (buf \<times> nat) option option" where
  "pad_probe val1 rbuf = do {
     let len = 8;
     rbuf \<leftarrow> pad_head rbuf HSB_CMD_PROBE_DEV len;
     rbuf \<leftarrow> SET_u16 rbuf 4 (of_int val1);
     Some (Some (rbuf, len)) }"

definition pad_action :: "int \<Rightarrow> int \<Rightarrow> int \<Rightarrow> int \<Rightarrow> buf \<Rightarrow> (buf \<times> nat) option option" where
  "pad_action val1 val2 val3 val4 rbuf = do {
     let len = 16;
     rbuf \<leftarrow> pad_head rbuf HSB_CMD_DO_ACTION len;
     rbuf \<leftarrow> SET_u32 rbuf 4 (of_int val1);
     rbuf \<leftarrow> SET_u16 rbuf 8 (of_int val2);
     rbuf \<leftarrow> SET_u16 rbuf 10 (of_int val3);
     rbuf \<leftarrow> SET_u32 rbuf 12 (of_int val4);
     Some (Some (rbuf, len)) }"

text \<open>The chain of tests: the buffer and length of the packet, or no packet for an invalid command.\<close>

definition pad_packet :: "string \<Rightarrow> (buf \<times> nat) option option" where
  "pad_packet str = (let rbuf = replicate 16 0 in
     if take 11 str = ''get devices'' then do { rbuf \<leftarrow> pad_head rbuf HSB_CMD_GET_DEVS 4; Some (Some (rbuf, 4)) }
     else try_scan 1 (format ''get info '' @ [PCT_D]) str (\<lambda>v. pad_dev_cmd HSB_CMD_GET_INFO (v ! 0) rbuf)
     (try_scan 1 (format ''get status '' @ [PCT_D]) str (\<lambda>v. pad_dev_cmd HSB_CMD_GET_STATUS (v ! 0) rbuf)
     (try_scan 3 (format ''set status '' @ [PCT_D, BLANK, PCT_D, BLANK, PCT_D]) str (\<lambda>v. pad_set_status (v ! 0) (v ! 1) (v ! 2) rbuf)
     (try_scan 2 (format ''get timer '' @ [PCT_D, BLANK, PCT_D]) str (\<lambda>v. pad_slot_cmd HSB_CMD_GET_TIMER (v ! 0) (v ! 1) rbuf)
     (try_scan 2 (format ''set timer '' @ [PCT_D, BLANK, PCT_D]) str (\<lambda>v. pad_set_timer (v ! 0) (v ! 1) rbuf)
     (try_scan 2 (format ''del timer '' @ [PCT_D, BLANK, PCT_D]) str (\<lambda>v. pad_slot_cmd HSB_CMD_DEL_TIMER (v ! 0) (v ! 1) rbuf)
     (try_scan 1 (format ''probe '' @ [PCT_D]) str (\<lambda>v. pad_probe (v ! 0) rbuf)
     (try_scan 4 (format ''action '' @ [PCT_D, BLANK, PCT_D, BLANK, PCT_D, BLANK, PCT_X]) str
        (\<lambda>v. pad_action (v ! 0) (v ! 1) (v ! 2) (v ! 3) rbuf)
     (Some None)))))))))"

text \<open>The result and what is written to the daemon; a write of more than the buffer holds is undefined.\<close>

definition pad_deal_input_cmd :: "buf \<Rightarrow> (int \<times> buf list) option" where
  "pad_deal_input_cmd b = do {
     str \<leftarrow> c_string b;
     p \<leftarrow> pad_packet str;
     case p of
       None \<Rightarrow> Some (- 1, [])
     | Some (rbuf, len) \<Rightarrow> if len \<le> length rbuf then Some (0, [take len rbuf]) else None }"

section \<open>The loop of the pad\<close>

text \<open>
  One round after a \<^verbatim>\<open>select\<close> that returned a positive number: \<open>sock\<close> and \<open>input\<close> are what \<^verbatim>\<open>read\<close> returned and
  stored when the descriptor is ready. The result says whether the loop goes on, what was
  printed and what was written.
\<close>

definition control_box_round :: "(int \<times> buf) option \<Rightarrow> (int \<times> buf) option \<Rightarrow> (bool \<times> pad_report list \<times> buf list) option" where
  "control_box_round sock input = do {
     (go, shown) \<leftarrow> (case sock of
        None \<Rightarrow> Some (True, [])
      | Some (nread, b) \<Rightarrow> if nread \<le> 0 then Some (False, []) else do { r \<leftarrow> pad_deal_tcp_pkt b; Some (True, [r]) });
     if \<not> go then Some (False, [], [])
     else case input of
        None \<Rightarrow> Some (True, shown, [])
      | Some (nread, b) \<Rightarrow> do { b \<leftarrow> put_nul b nread; (r, out) \<leftarrow> pad_deal_input_cmd b; Some (True, shown, out) } }"

text \<open>
  The search for the box: \<open>bcast\<close> is whether the broadcast address is known, \<open>rx\<close> what \<^verbatim>\<open>recvfrom_timeout\<close>
  returned, stored in \<^verbatim>\<open>recvline\<close> and found as sender. The result is the return value, the datagram that
  was sent, and the box's id and address.
\<close>

definition probe_box :: "bool \<Rightarrow> int \<times> buf \<times> u32 \<Rightarrow> (int \<times> buf list \<times> (u16 \<times> u32) option) option" where
  "probe_box bcast rx =
     (if \<not> bcast then Some (- 1, [], None)
      else do {
        let sendline = replicate 16 0;
        let send_len = 8;
        sendline \<leftarrow> SET_u16 sendline 0 HSB_CMD_BOX_DISCOVER;
        sendline \<leftarrow> SET_u16 sendline 2 (of_nat send_len);
        sendline \<leftarrow> SET_u8 sendline 4 0;
        sendline \<leftarrow> SET_u8 sendline 5 1;
        sendline \<leftarrow> SET_u16 sendline 6 1;
        let (n, recvline, addr) = rx;
        if n \<le> 0 then Some (- 2, [take send_len sendline], None)
        else do {
          cmd \<leftarrow> GET_u16 recvline 0;
          len \<leftarrow> GET_u16 recvline 2;
          bid \<leftarrow> GET_u16 recvline 6;
          Some (0, [take send_len sendline], Some (bid, addr)) } })"

section \<open>Reading what the daemon sends\<close>

lemma pad_slots_decode:
  "pad_timer b = do { devid \<leftarrow> GET_u32 b 4; v \<leftarrow> get_timer_pkt b; Some (PAD_TIMER devid v) }"
  "pad_delay b = do { devid \<leftarrow> GET_u32 b 4; v \<leftarrow> get_delay_pkt b; Some (PAD_DELAY devid v) }"
  "pad_linkage b = do { devid \<leftarrow> GET_u32 b 4; v \<leftarrow> get_linkage_pkt b; Some (PAD_LINKAGE devid v) }"
  by (simp_all add: pad_timer_def get_timer_pkt_def pad_delay_def get_delay_pkt_def pad_linkage_def get_linkage_pkt_def)

lemma front_hdr: "front junk (hdr cmd l @ r) = hdr cmd l @ front (drop 4 junk) r"
  by (simp add: front_def add.commute)

lemma pad_slot_reports:
  "pad_deal_tcp_pkt (front junk (hdr HSB_CMD_GET_TIMER_RESP 24 @ timer_body_bytes devid tm)) = Some (PAD_TIMER devid tm)"
  "pad_deal_tcp_pkt (front junk (hdr HSB_CMD_GET_DELAY_RESP 32 @ delay_body_bytes devid dl)) = Some (PAD_DELAY devid dl)"
  "pad_deal_tcp_pkt (front junk (hdr HSB_CMD_GET_LINKAGE_RESP 32 @ linkage_body_bytes devid lk)) = Some (PAD_LINKAGE devid lk)"
proof -
  have g: "GET_u32 (hdr c l @ timer_body_bytes devid tm @ r) 4 = Some devid"
    "GET_u32 (hdr c l @ delay_body_bytes devid dl @ r) 4 = Some devid"
    "GET_u32 (hdr c l @ linkage_body_bytes devid lk @ r) 4 = Some devid" for c l r
    by (simp_all add: timer_body_bytes_def delay_body_bytes_def linkage_body_bytes_def slot_fields)
  note f = g timer_codec.decode_body delay_codec.decode_body linkage_codec.decode_body
  show "pad_deal_tcp_pkt (front junk (hdr HSB_CMD_GET_TIMER_RESP 24 @ timer_body_bytes devid tm)) = Some (PAD_TIMER devid tm)"
    "pad_deal_tcp_pkt (front junk (hdr HSB_CMD_GET_DELAY_RESP 32 @ delay_body_bytes devid dl)) = Some (PAD_DELAY devid dl)"
    "pad_deal_tcp_pkt (front junk (hdr HSB_CMD_GET_LINKAGE_RESP 32 @ linkage_body_bytes devid lk)) = Some (PAD_LINKAGE devid lk)"
    unfolding front_hdr front_def [of _ "timer_body_bytes devid tm"] front_def [of _ "delay_body_bytes devid dl"]
      front_def [of _ "linkage_body_bytes devid lk"] by (simp_all add: pad_deal_tcp_pkt_def GET_u16_hdr pad_slots_decode f)
qed

lemma GET_u16_at: "length p = off \<Longrightarrow> GET_u16 (p @ le16 v @ r) off = Some v"
  by (auto simp: GET_u16_def nth_append le16_def)

lemma GET_u32_at: "length p = off \<Longrightarrow> GET_u32 (p @ le32 v @ r) off = Some v"
  by (auto simp: GET_u32_def nth_append le32_def)

lemma pad_devs_loop:
  assumes "length p = 4" and "n \<le> length ids"
  shows "for_list (pad_devs_body (p @ concat (map le32 ids) @ r)) [0..<n] [] = Some (take n ids)"
  using assms(2)
proof (induction n)
  case (Suc n)
  let ?q = "p @ concat (map le32 (take n ids))"
  have "p @ concat (map le32 ids) @ r = ?q @ le32 (ids ! n) @ concat (map le32 (drop (Suc n) ids)) @ r"
    using id_take_nth_drop [of n ids] Suc.prems by (metis Suc_le_lessD append.assoc concat.simps(2) concat_append list.simps(9) map_append)
  then have "GET_u32 (p @ concat (map le32 ids) @ r) (4 + n * 4) = Some (ids ! n)"
    using GET_u32_at [of ?q "4 + n * 4" "ids ! n"] assms(1) Suc.prems by simp
  with Suc show ?case by (simp add: for_list_append pad_devs_body_def take_Suc_conv_app_nth)
qed simp

lemma pad_devs_report:
  assumes "length ids \<le> 255"
  shows "pad_deal_tcp_pkt (front junk (devs_frame ids)) = Some (PAD_DEVS ids)"
proof -
  let ?h = "hdr HSB_CMD_GET_DEVS_RESP (4 + 4 * length ids)"
  let ?b = "?h @ concat (map le32 ids) @ drop (length (devs_frame ids)) junk"
  have b: "front junk (devs_frame ids) = ?b" by (simp add: front_def devs_frame_def)
  have "uint (of_nat (4 + 4 * length ids) :: u16) = int (4 + 4 * length ids)"
    using assms by (simp only: uint_nat unat_of_nat) simp
  then have n: "nat ((uint (of_nat (4 + 4 * length ids) :: u16) - 4) sdiv 4) = length ids" by (simp add: sdiv_4)
  have g: "GET_u16 ?b 0 = Some HSB_CMD_GET_DEVS_RESP" "GET_u16 ?b 2 = Some (of_nat (4 + 4 * length ids))" by (rule GET_u16_hdr)+
  show ?thesis unfolding b pad_deal_tcp_pkt_def g bind.bind_lunit n
    using pad_devs_loop [of ?h "length ids" ids "drop (length (devs_frame ids)) junk"] by simp
qed

text \<open>What the pad prints for a notification.\<close>

primrec pad_view :: "HSB_RESP_T \<Rightarrow> pad_report" where
  "pad_view (HSB_RESP_TYPE_RESULT r v) = PAD_RESULT (of_int v)"
| "pad_view (HSB_RESP_TYPE_EVENT r e) = PAD_EVENT e"
| "pad_view (HSB_RESP_TYPE_STATUS r st) = PAD_STATUS (map (\<lambda>k. (st_devid st, st_id st ! k, st_val st ! k)) [0..<unat (st_num st)])"

lemma pad_status_loop:
  assumes "length p = 8" and "n \<le> m"
  shows "for_list (pad_status_body (p @ status_bytes st m @ r) devid) [0..<n] [] = Some (map (\<lambda>k. (devid, st_id st ! k, st_val st ! k)) [0..<n])"
  using assms(2)
proof (induction n)
  case (Suc n)
  have split: "status_bytes st (a + b) = status_bytes st a @ concat (map (\<lambda>k. le16 (st_id st ! k) @ le16 (st_val st ! k)) [a..<a + b])" for a b
    by (simp add: status_bytes_def upt_add_eq_append [of 0 a b, simplified] del: upt_Suc)
  let ?t = "concat (map (\<lambda>k. le16 (st_id st ! k) @ le16 (st_val st ! k)) [Suc n..<m])"
  have "p @ status_bytes st m @ r = (p @ status_bytes st n) @ le16 (st_id st ! n) @ le16 (st_val st ! n) @ ?t @ r"
    using split [of "Suc n" "m - Suc n"] Suc.prems by (simp add: status_bytes_Suc)
  then have "GET_u16 (p @ status_bytes st m @ r) (8 + n * 4) = Some (st_id st ! n)"
    "GET_u16 (p @ status_bytes st m @ r) (10 + n * 4) = Some (st_val st ! n)"
    using GET_u16_at [of "p @ status_bytes st n" "8 + n * 4" "st_id st ! n"]
      GET_u16_at [of "(p @ status_bytes st n) @ le16 (st_id st ! n)" "10 + n * 4" "st_val st ! n"] assms(1) by simp_all
  with Suc show ?case by (simp add: for_list_append pad_status_body_def)
qed simp

lemma pad_notify_report:
  assumes "resp_ok m"
  shows "pad_deal_tcp_pkt (front junk (notify_frame m)) = Some (pad_view m)"
proof (cases m)
  case (HSB_RESP_TYPE_RESULT r v)
  then show ?thesis
    using GET_u16_at [of "hdr HSB_CMD_RESULT 8" 4]
    by (simp add: notify_frame_def result_frame_def front_def pad_deal_tcp_pkt_def GET_u16_hdr)
next
  case (HSB_RESP_TYPE_EVENT r e)
  then show ?thesis
    using GET_u32_at [of "hdr HSB_CMD_EVENT 16" 4] GET_u16_at [of "hdr HSB_CMD_EVENT 16 @ le32 _" 8]
      GET_u16_at [of "hdr HSB_CMD_EVENT 16 @ le32 _ @ le16 _" 10] GET_u32_at [of "hdr HSB_CMD_EVENT 16 @ le32 _ @ le16 _ @ le16 _" 12]
    by (simp add: notify_frame_def front_def pad_deal_tcp_pkt_def GET_u16_hdr pad_event_def)
next
  case (HSB_RESP_TYPE_STATUS r st)
  let ?n = "unat (st_num st)"
  have n: "?n \<le> 8" using assms HSB_RESP_TYPE_STATUS by simp
  let ?h = "hdr HSB_CMD_GET_STATUS_RESP (8 + 4 * ?n)"
  let ?r = "drop (8 + 4 * ?n) junk"
  have f: "front junk (notify_frame m) = (?h @ le32 (st_devid st)) @ status_bytes st ?n @ ?r"
    using HSB_RESP_TYPE_STATUS by (simp add: notify_frame_def front_def)
  have g: "GET_u16 ((?h @ le32 (st_devid st)) @ status_bytes st ?n @ ?r) 0 = Some HSB_CMD_GET_STATUS_RESP"
    "GET_u16 ((?h @ le32 (st_devid st)) @ status_bytes st ?n @ ?r) 2 = Some (of_nat (8 + 4 * ?n))"
    "GET_u32 ((?h @ le32 (st_devid st)) @ status_bytes st ?n @ ?r) 4 = Some (st_devid st)"
    using GET_u32_at [of ?h 4 "st_devid st"] by (simp_all add: GET_u16_hdr del: of_nat_add of_nat_mult)
  have "uint (of_nat (8 + 4 * ?n) :: u16) = int (8 + 4 * ?n)" using n by (simp only: uint_nat unat_of_nat) simp
  then have k: "nat ((uint (of_nat (8 + 4 * ?n) :: u16) - 8) sdiv 4) = ?n" by (simp add: sdiv_4)
  show ?thesis unfolding f pad_deal_tcp_pkt_def g bind.bind_lunit k
    using pad_status_loop [of "?h @ le32 (st_devid st)" ?n ?n st ?r "st_devid st"] HSB_RESP_TYPE_STATUS by simp
qed

text \<open>
  C35. The pad reads what the daemon writes. Every notification the daemon can send (a result, an event, statuses) and every
  timer, delay and linkage it answers with is printed by the pad with exactly the values it has in the daemon, whatever
  the receive buffer held before.
\<close>

theorem pad_reads_daemon:
  assumes "resp_ok m" and "length junk = 1024"
  shows "(do { (n, b) \<leftarrow> make_notify_resp (replicate 64 0) m; pad_deal_tcp_pkt (front junk (take (nat n) b)) }) = Some (pad_view m) \<and>
    (do { (n, b) \<leftarrow> reply_get_timer (replicate 1024 0) devid tm; pad_deal_tcp_pkt (front junk (take (nat n) b)) }) = Some (PAD_TIMER devid tm) \<and>
    (do { (n, b) \<leftarrow> reply_get_delay (replicate 1024 0) devid dl; pad_deal_tcp_pkt (front junk (take (nat n) b)) }) = Some (PAD_DELAY devid dl) \<and>
    (do { (n, b) \<leftarrow> reply_get_linkage (replicate 1024 0) devid lk; pad_deal_tcp_pkt (front junk (take (nat n) b)) }) = Some (PAD_LINKAGE devid lk)"
proof (intro conjI)
  have 1: "take (nat (int (length p))) (fill n p) = p" for p n by (simp add: fill_def)
  show "(do { (n, b) \<leftarrow> make_notify_resp (replicate 64 0) m; pad_deal_tcp_pkt (front junk (take (nat n) b)) }) = Some (pad_view m)"
    using make_notify_resp_eq [OF assms(1), of 64] pad_notify_report [OF assms(1)] 1 by (simp add: replicate_fill)
  have c: "(do { (n, b) \<leftarrow> f; pad_deal_tcp_pkt (front junk (take (nat n) b)) }) = Some x"
    if "runs f (\<lambda>(n, b). take (nat n) b = p)" and "pad_deal_tcp_pkt (front junk p) = Some x" for f p x
    using that by (auto elim!: runsE)
  note replies = c [OF timer_codec.reply_take pad_slot_reports(1)] c [OF delay_codec.reply_take pad_slot_reports(2)]
    c [OF linkage_codec.reply_take pad_slot_reports(3)]
  show "(do { (n, b) \<leftarrow> reply_get_timer (replicate 1024 0) devid tm; pad_deal_tcp_pkt (front junk (take (nat n) b)) }) = Some (PAD_TIMER devid tm)"
    by (rule replies) simp
  show "(do { (n, b) \<leftarrow> reply_get_delay (replicate 1024 0) devid dl; pad_deal_tcp_pkt (front junk (take (nat n) b)) }) = Some (PAD_DELAY devid dl)"
    by (rule replies) simp
  show "(do { (n, b) \<leftarrow> reply_get_linkage (replicate 1024 0) devid lk; pad_deal_tcp_pkt (front junk (take (nat n) b)) }) = Some (PAD_LINKAGE devid lk)"
    by (rule replies) simp
qed

section \<open>What the user types\<close>

lemma pad_formats:
  "format ''get info '' = map LIT ''get'' @ BLANK # map LIT ''info'' @ [BLANK]"
  "format ''get status '' = map LIT ''get'' @ BLANK # map LIT ''status'' @ [BLANK]"
  "format ''set status '' = map LIT ''set'' @ BLANK # map LIT ''status'' @ [BLANK]"
  "format ''get timer '' = map LIT ''get'' @ BLANK # map LIT ''timer'' @ [BLANK]"
  "format ''set timer '' = map LIT ''set'' @ BLANK # map LIT ''timer'' @ [BLANK]"
  by code_simp+

lemma blank_chars:
  "isspace (CHR '' '')" "\<not> isspace (CHR ''t'')" "\<not> isspace (CHR ''s'')" "\<not> isspace (CHR ''i'')" "\<not> isspace (CHR ''d'')"
  by code_simp+

lemma end_chars: "dec_val (CHR 0x0A) = None" "dec_val (CHR '' '') = None"
  by code_simp+

lemma pad_get_timer_line:
  assumes "int_fits a" and "int_fits b"
  shows "pad_packet (''get timer '' @ show_int a @ '' '' @ show_int b @ [CHR 0x0A]) = pad_slot_cmd HSB_CMD_GET_TIMER a b (replicate 16 0)"
proof -
  let ?s = "''get timer '' @ show_int a @ '' '' @ show_int b @ [CHR 0x0A]"
  have "sscanf (format ''get timer '' @ [PCT_D, BLANK, PCT_D]) ?s = Some [a, b]"
    by (simp add: pad_formats blank_chars scan_number assms end_chars show_int_head del: sscanf.simps(4))
  then show ?thesis by (simp add: pad_packet_def try_scan_def pad_formats blank_chars)
qed

lemma pad_get_devices_line: "pad_packet (''get devices'' @ r) = do { b \<leftarrow> pad_head (replicate 16 0) HSB_CMD_GET_DEVS 4; Some (Some (b, 4)) }"
  by (simp add: pad_packet_def)

lemma pad_set_timer_line:
  assumes "int_fits a" and "int_fits b"
  shows "pad_packet (''set timer '' @ show_int a @ '' '' @ show_int b @ [CHR 0x0A]) = pad_set_timer a b (replicate 16 0)"
proof -
  let ?s = "''set timer '' @ show_int a @ '' '' @ show_int b @ [CHR 0x0A]"
  have "sscanf (format ''set timer '' @ [PCT_D, BLANK, PCT_D]) ?s = Some [a, b]"
    by (simp add: pad_formats blank_chars scan_number assms end_chars show_int_head del: sscanf.simps(4))
  then show ?thesis by (simp add: pad_packet_def try_scan_def pad_formats blank_chars)
qed

text \<open>A line at the terminal becomes the string the command is read from.\<close>

lemma pad_typed:
  assumes "CHR 0x00 \<notin> set line" and "length line < length ibuf"
  shows "control_box_round None (Some (int (length line), front ibuf (bytes line))) =
    (case pad_packet line of
       None \<Rightarrow> None
     | Some None \<Rightarrow> Some (True, [], [])
     | Some (Some (rbuf, len)) \<Rightarrow> if len \<le> length rbuf then Some (True, [], [take len rbuf]) else None)"
proof -
  from typed_line [OF assms] obtain b where b: "put_nul (front ibuf (bytes line)) (int (length line)) = Some b" "c_string b = Some line"
    by (rule runsE)
  then show ?thesis by (simp add: control_box_round_def pad_deal_input_cmd_def split: option.split)
qed

lemma two_numbers_line:
  assumes "int_fits a" and "int_fits b" and "length p \<le> 32" and "CHR 0x00 \<notin> set p"
  shows "length (p @ show_int a @ '' '' @ show_int b @ [CHR 0x0A]) < 1024"
    and "CHR 0x00 \<notin> set (p @ show_int a @ '' '' @ show_int b @ [CHR 0x0A])"
  using length_show_int [OF assms(1)] length_show_int [OF assms(2)] show_int_no_nul assms(3,4) by auto

lemma front_len_take: "k = length p \<Longrightarrow> take k (front junk p) = p"
  by simp

lemma pad_slot_frame:
  "pad_slot_cmd cmd (uint devid) (uint i) (replicate 16 0) =
     Some (Some (front (replicate 16 0) (hdr cmd 12 @ le32 devid @ le16 i), 12))"
  by (simp add: pad_slot_cmd_def pad_head_def hdr_def)

section \<open>Sessions\<close>

text \<open>
  The user's line makes the pad send a packet, the daemon answers it without changing anything else, and the pad prints the
  report; whatever follows the packet in the daemon's buffer and whatever the buffers held before.
\<close>

definition pad_session :: "string \<Rightarrow> box \<Rightarrow> pad_report \<Rightarrow> bool" where
  "pad_session line s report \<longleftrightarrow> (\<forall>fd reply rest junk ibuf. length junk = 1024 \<longrightarrow> length ibuf = 1024 \<longrightarrow>
     (\<exists>f a. control_box_round None (Some (int (length line), front ibuf (bytes line))) = Some (True, [], [f]) \<and>
        deal_tcp_packet fd (f @ rest) (int (length f)) reply s = Some (0, int (length f), send_out s (TCP_WRITE fd a)) \<and>
        control_box_round (Some (int (length a), front junk a)) None = Some (True, [report], [])))"

lemma pad_shows:
  assumes "pad_deal_tcp_pkt (front junk a) = Some r" and "a \<noteq> []"
  shows "control_box_round (Some (int (length a), front junk a)) None = Some (True, [r], [])"
  using assms by (simp add: control_box_round_def)

lemma deal_get_timer:
  assumes "box_ok s" and "length (cb_queue (dev_cb s)) \<le> 128" and "12 \<le> len" and "timer_slot s devid i = Some v"
  shows "deal_tcp_packet fd (hdr HSB_CMD_GET_TIMER 12 @ le32 devid @ le16 i @ rest) len reply s =
    Some (0, 12, send_out s (TCP_WRITE fd (hdr HSB_CMD_GET_TIMER_RESP 24 @ timer_body_bytes devid v)))"
proof -
  let ?g = "hdr HSB_CMD_GET_TIMER 12 @ le32 devid @ le16 i @ rest"
  let ?a = "hdr HSB_CMD_GET_TIMER_RESP 24 @ timer_body_bytes devid v"
  have a: "timer_service.answer s devid i = ?a" using assms(4) by (simp add: timer_service.answer_def)
  have l: "length ?a = 24" using timer_codec.body_length [of devid v] by simp
  have "tcp_switch HSB_CMD_GET_TIMER ?g len reply blank s = Some (24, fill 1024 ?a, s)"
    using timer_service.read_eq [OF box_okD(1) [OF assms(1)], of devid i zero_timer s] l
    unfolding tcp_switch_def tcp_get_timer_def slot_fields bind.bind_lunit by (simp add: a del: errno.simps)
  then show ?thesis
    using deal_tcp_hdr [OF assms(1,2), of HSB_CMD_GET_TIMER 12 "le32 devid @ le16 i @ rest" len fd reply] assms(3) l
      tcp_finish_frame [of ?a fd 12 1024 s] by (simp add: need_def HSB_CMD_VALID_def)
qed

lemma deal_get_devs:
  assumes "box_ok s" and "length (cb_queue (dev_cb s)) \<le> 128" and "4 \<le> len"
  shows "deal_tcp_packet fd (hdr HSB_CMD_GET_DEVS 4 @ rest) len reply s =
    Some (0, 4, send_out s (TCP_WRITE fd (devs_frame (online_ids s))))"
proof -
  have "devs_frame (online_ids s) \<noteq> []" by (simp add: devs_frame_def)
  then show ?thesis
    using deal_tcp_hdr [OF assms(1,2), of HSB_CMD_GET_DEVS 4 rest len fd reply] tcp_get_devs_eq [OF assms(1,2)] assms(3)
      tcp_finish_frame [of "devs_frame (online_ids s)" fd 4 1024 s]
    by (simp add: need_def HSB_CMD_VALID_def tcp_switch_def)
qed

text \<open>
  C34. A user at the pad sees the state of the daemon. \<^verbatim>\<open>get devices\<close> prints the ids of exactly the online devices in
  registry order, and \<^verbatim>\<open>get timer\<close> with a device and a slot prints the timer that is active there.
\<close>

theorem pad_user_sees_box:
  assumes "box_ok s" and "length (cb_queue (dev_cb s)) \<le> 128"
    and "timer_slot s devid i = Some v" and "uint devid < 2 ^ 31"
  shows "pad_session (''get devices'' @ [CHR 0x0A]) s (PAD_DEVS (map (\<lambda>p. dev_id (dev_at s p)) (cb_queue (dev_cb s)))) \<and>
    pad_session (''get timer '' @ show_int (uint devid) @ '' '' @ show_int (uint i) @ [CHR 0x0A]) s (PAD_TIMER devid v)"
  unfolding pad_session_def
proof (intro conjI allI impI)
  fix fd reply rest and junk ibuf :: buf
  assume b: "length junk = 1024" "length ibuf = 1024"
  let ?ids = "map (\<lambda>p. dev_id (dev_at s p)) (cb_queue (dev_cb s))"
  let ?l = "''get devices'' @ [CHR 0x0A]" and ?f = "hdr HSB_CMD_GET_DEVS 4" and ?a = "devs_frame ?ids"
  have "length ?l < length ibuf" "CHR 0x00 \<notin> set ?l" using b by simp_all
  from pad_typed [OF this(2,1)] have "control_box_round None (Some (int (length ?l), front ibuf (bytes ?l))) = Some (True, [], [?f])"
    unfolding pad_get_devices_line by (simp add: pad_head_def hdr_def front_len_take)
  moreover have "deal_tcp_packet fd (?f @ rest) (int (length ?f)) reply s = Some (0, int (length ?f), send_out s (TCP_WRITE fd ?a))"
    using deal_get_devs [OF assms(1,2)] by (simp add: online_ids_def)
  moreover have "control_box_round (Some (int (length ?a), front junk ?a)) None = Some (True, [PAD_DEVS ?ids], [])"
    using assms(2) by (intro pad_shows pad_devs_report) (simp_all add: devs_frame_def)
  ultimately show "\<exists>f a. control_box_round None (Some (int (length ?l), front ibuf (bytes ?l))) = Some (True, [], [f]) \<and>
      deal_tcp_packet fd (f @ rest) (int (length f)) reply s = Some (0, int (length f), send_out s (TCP_WRITE fd a)) \<and>
      control_box_round (Some (int (length a), front junk a)) None = Some (True, [PAD_DEVS ?ids], [])" by blast
next
  fix fd reply rest and junk ibuf :: buf
  assume b: "length junk = 1024" "length ibuf = 1024"
  let ?l = "''get timer '' @ show_int (uint devid) @ '' '' @ show_int (uint i) @ [CHR 0x0A]"
  let ?f = "hdr HSB_CMD_GET_TIMER 12 @ le32 devid @ le16 i @ replicate 2 0"
  let ?a = "hdr HSB_CMD_GET_TIMER_RESP 24 @ timer_body_bytes devid v"
  have n: "int_fits (uint devid)" using assms(4) order_trans [of "- (2 ^ 31)" 0 "uint devid"] by (simp add: int_fits_def)
  note l = two_numbers_line [OF n int_fits_u16 [of i], of "''get timer ''"]
  from pad_typed [of ?l ibuf] l b
  have "control_box_round None (Some (int (length ?l), front ibuf (bytes ?l))) = Some (True, [], [?f])"
    unfolding pad_get_timer_line [OF n int_fits_u16] pad_slot_frame by (simp add: front_def)
  moreover have "deal_tcp_packet fd (?f @ rest) (int (length ?f)) reply s = Some (0, int (length ?f), send_out s (TCP_WRITE fd ?a))"
    using deal_get_timer [OF assms(1,2) _ assms(3), of 12 fd "replicate 2 0 @ rest"] by simp
  moreover have "control_box_round (Some (int (length ?a), front junk ?a)) None = Some (True, [PAD_TIMER devid v], [])"
    by (intro pad_shows pad_slot_reports) simp
  ultimately show "\<exists>f a. control_box_round None (Some (int (length ?l), front ibuf (bytes ?l))) = Some (True, [], [f]) \<and>
      deal_tcp_packet fd (f @ rest) (int (length f)) reply s = Some (0, int (length f), send_out s (TCP_WRITE fd a)) \<and>
      control_box_round (Some (int (length a), front junk a)) None = Some (True, [PAD_TIMER devid v], [])" by blast
qed

section \<open>Bounds\<close>

text \<open>A packet ready to be sent: it lies in its buffer, carries its own length and a command the daemon accepts.\<close>

definition pad_sendable :: "(buf \<times> nat) option \<Rightarrow> bool" where
  "pad_sendable p \<longleftrightarrow> (case p of None \<Rightarrow> False | Some (rbuf, len) \<Rightarrow> length rbuf = 16 \<and> 4 \<le> len \<and> len \<le> 16 \<and>
     (\<exists>cmd. HSB_CMD_VALID cmd \<and> take 4 rbuf = hdr cmd len))"

lemma sendable_front:
  assumes "HSB_CMD_VALID cmd" and "l = of_nat len" and "4 \<le> len" and "len \<le> 16"
  shows "length r \<le> 12 \<Longrightarrow> pad_sendable (Some (front (replicate 16 0) (le16 cmd @ le16 l @ r), len))"
    and "pad_sendable (Some (front (replicate 16 0) (le16 cmd @ le16 l), len))"
  using assms by (auto simp: pad_sendable_def front_def hdr_def)

lemma pad_sendable_cmds:
  "runs (pad_dev_cmd HSB_CMD_GET_INFO a (replicate 16 0)) pad_sendable"
  "runs (pad_dev_cmd HSB_CMD_GET_STATUS a (replicate 16 0)) pad_sendable"
  "runs (pad_slot_cmd HSB_CMD_GET_TIMER a b (replicate 16 0)) pad_sendable"
  "runs (pad_slot_cmd HSB_CMD_DEL_TIMER a b (replicate 16 0)) pad_sendable"
  "runs (pad_set_status a b c (replicate 16 0)) pad_sendable"
  "runs (pad_probe a (replicate 16 0)) pad_sendable"
  "runs (pad_action a b c d (replicate 16 0)) pad_sendable"
  "runs (do { b \<leftarrow> pad_head (replicate 16 0) HSB_CMD_GET_DEVS 4; Some (Some (b, 4)) }) pad_sendable"
  by (simp_all add: pad_dev_cmd_def pad_slot_cmd_def pad_set_status_def pad_probe_def pad_action_def pad_head_def Let_def
      sendable_front HSB_CMD_VALID_def)

lemma pad_set_timer_overrun: "pad_set_timer a b (replicate 16 0) = None"
proof -
  have "SET_u16 (fill 16 p) 16 v = None" if "length p \<le> 16" for p v
    using f16.put_out_of_bounds [of "fill 16 p" 16 v] that by simp
  then show ?thesis by (simp add: pad_set_timer_def pad_head_def replicate_fill [of 16] del: SET_u16_start)
qed

text \<open>The formats of the commands with the number of their arguments, and whether a line is such a command.\<close>

definition set_timer_format :: "nat \<times> fmt list" where
  "set_timer_format = (2, format ''set timer '' @ [PCT_D, BLANK, PCT_D])"

definition pad_commands :: "(nat \<times> fmt list) list" where
  "pad_commands = [(1, format ''get info '' @ [PCT_D]), (1, format ''get status '' @ [PCT_D]),
     (3, format ''set status '' @ [PCT_D, BLANK, PCT_D, BLANK, PCT_D]), (2, format ''get timer '' @ [PCT_D, BLANK, PCT_D]),
     set_timer_format, (2, format ''del timer '' @ [PCT_D, BLANK, PCT_D]), (1, format ''probe '' @ [PCT_D]),
     (4, format ''action '' @ [PCT_D, BLANK, PCT_D, BLANK, PCT_D, BLANK, PCT_X])]"

definition matches :: "string \<Rightarrow> nat \<times> fmt list \<Rightarrow> bool" where
  "matches line = (\<lambda>(n, f). map_option length (sscanf f line) = Some n)"

lemma try_scan_eq: "sscanf f str \<noteq> None \<Longrightarrow> try_scan n f str yes no = (if matches str (n, f) then yes (the (sscanf f str)) else no)"
  by (auto simp: try_scan_def matches_def)

text \<open>A line that is a \<^verbatim>\<open>set timer\<close> is no other command.\<close>

lemma set_timer_words:
  assumes "matches line set_timer_format"
  shows "\<exists>r r'. line = ''set'' @ r \<and> dropWhile isspace r = CHR ''t'' # r'"
proof -
  have f: "format ''set timer '' = map LIT ''set'' @ [BLANK] @ map LIT ''timer'' @ [BLANK]" by code_simp
  show ?thesis using assms by (auto simp: matches_def set_timer_format_def f split: list.splits if_splits)
qed

lemma set_timer_only:
  assumes "matches line set_timer_format"
  shows "take 11 line \<noteq> ''get devices''" "sscanf (format ''get info '' @ fs) line = Some []" "sscanf (format ''get status '' @ fs) line = Some []"
    "sscanf (format ''get timer '' @ fs) line = Some []" "sscanf (format ''set status '' @ fs) line = Some []"
proof -
  have f: "format ''get info '' = LIT CHR ''g'' # map LIT ''et'' @ [BLANK] @ map LIT ''info'' @ [BLANK]"
    "format ''get status '' = LIT CHR ''g'' # map LIT ''et'' @ [BLANK] @ map LIT ''status'' @ [BLANK]"
    "format ''get timer '' = LIT CHR ''g'' # map LIT ''et'' @ [BLANK] @ map LIT ''timer'' @ [BLANK]"
    "format ''set status '' = map LIT ''set'' @ [BLANK] @ map LIT ''status'' @ [BLANK]" by code_simp+
  from set_timer_words [OF assms] obtain r r' where l: "line = ''set'' @ r" "dropWhile isspace r = CHR ''t'' # r'" by blast
  show "take 11 line \<noteq> ''get devices''" "sscanf (format ''get info '' @ fs) line = Some []" "sscanf (format ''get status '' @ fs) line = Some []"
    "sscanf (format ''get timer '' @ fs) line = Some []" "sscanf (format ''set status '' @ fs) line = Some []"
    unfolding f l(1) by (simp_all add: l(2))
qed

lemma pad_packet_set_timer: "matches line set_timer_format \<Longrightarrow> pad_packet line = None"
  using set_timer_only [of line]
  by (auto simp: pad_packet_def try_scan_def matches_def set_timer_format_def pad_set_timer_overrun)

lemma pad_packet_sendable:
  assumes "\<forall>(n, f) \<in> set pad_commands. sscanf f line \<noteq> None" and "\<not> matches line set_timer_format"
  shows "runs (pad_packet line) (\<lambda>p. if take 11 line = ''get devices'' \<or> (\<exists>c \<in> set pad_commands. matches line c) then pad_sendable p else p = None)"
  using assms unfolding pad_packet_def pad_commands_def Let_def
  by (simp add: try_scan_eq set_timer_format_def pad_sendable_cmds pad_sendable_cmds(8) [simplified])

text \<open>
  C36. The pad's packets. For every line whose numbers fit their type: a \<^verbatim>\<open>set timer\<close> command, whose packet has 24
  bytes, writes behind the buffer of 16 bytes, for any device and slot; every other command is built and sent within the buffer, as one packet
  that starts with a command the daemon accepts and carries its own length; a line that is no command sends nothing
  and gives -1.
\<close>

theorem pad_packet_bounds:
  assumes "c_string b = Some line" and "\<forall>(n, f) \<in> set pad_commands. sscanf f line \<noteq> None"
    and "int_fits devid" and "int_fits slot" and "length ibuf = 1024"
  shows "(if matches line set_timer_format then pad_deal_input_cmd b = None
     else runs (pad_deal_input_cmd b) (\<lambda>(r, out).
       if take 11 line = ''get devices'' \<or> (\<exists>c \<in> set pad_commands. matches line c)
       then r = 0 \<and> (\<exists>cmd pkt. out = [pkt] \<and> length pkt \<le> 16 \<and> HSB_CMD_VALID cmd \<and> take 4 pkt = le16 cmd @ le16 (of_nat (length pkt)))
       else r = - 1 \<and> out = [])) \<and>
    (let line = ''set timer '' @ show_int devid @ '' '' @ show_int slot @ [CHR 0x0A]
     in control_box_round None (Some (int (length line), front ibuf (bytes line))) = None)"
proof -
  have "pad_deal_input_cmd b = None" if "matches line set_timer_format"
    using that assms(1) by (simp add: pad_deal_input_cmd_def pad_packet_set_timer)
  moreover have "runs (pad_deal_input_cmd b) (\<lambda>(r, out).
       if take 11 line = ''get devices'' \<or> (\<exists>c \<in> set pad_commands. matches line c)
       then r = 0 \<and> (\<exists>cmd pkt. out = [pkt] \<and> length pkt \<le> 16 \<and> HSB_CMD_VALID cmd \<and> take 4 pkt = le16 cmd @ le16 (of_nat (length pkt)))
       else r = - 1 \<and> out = [])" if "\<not> matches line set_timer_format"
    using pad_packet_sendable [OF assms(2) that] unfolding pad_deal_input_cmd_def assms(1)
    by (auto simp: pad_sendable_def hdr_def min_def split: if_splits option.splits elim!: runsE)
  moreover from two_numbers_line [OF assms(3,4), of "''set timer ''"] pad_typed [of "''set timer '' @ show_int devid @ '' '' @ show_int slot @ [CHR 0x0A]" ibuf]
    assms(5) have "control_box_round None (Some (int (length (''set timer '' @ show_int devid @ '' '' @ show_int slot @ [CHR 0x0A])),
      front ibuf (bytes (''set timer '' @ show_int devid @ '' '' @ show_int slot @ [CHR 0x0A])))) = None"
    unfolding pad_set_timer_line [OF assms(3,4)] pad_set_timer_overrun by simp
  ultimately show ?thesis unfolding Let_def by simp
qed

end
