(* ===== verification/Config_File.thy ===== *)
theory Config_File
  imports C_Lib "HOL-Library.Monad_Syntax"
begin

text \<open>
  The files of the daemon: the configuration files of \<^verbatim>\<open>lib/hsb_param.c\<close> and the pid file of \<^verbatim>\<open>lib/utils.c\<close>.
  GLib's \<^verbatim>\<open>GKeyFile\<close> and \<^verbatim>\<open>g_strsplit_set\<close> are a parameter, \<open>keyfile\<close>; what the code relies on
  of them is \<open>keyfile_laws\<close>. A pointer argument that may be \<^verbatim>\<open>NULL\<close> is an option, the file system is a map from paths
  to contents, and an undefined \<^verbatim>\<open>atoi\<close> is \<^term>\<open>None\<close>.
\<close>

section \<open>Configuration values\<close>

datatype GKeyFileFlags = G_KEY_FILE_NONE | G_KEY_FILE_KEEP_COMMENTS

record ('c, 'k) keyfile =
  key_file_load :: "GKeyFileFlags \<Rightarrow> 'c \<Rightarrow> 'k option"
  key_file_get_value :: "'k \<Rightarrow> string \<Rightarrow> string \<Rightarrow> string option"
  key_file_has_key :: "'k \<Rightarrow> string \<Rightarrow> string \<Rightarrow> bool"
  key_file_set_value :: "'k \<Rightarrow> string \<Rightarrow> string \<Rightarrow> string \<Rightarrow> 'k"
  key_file_to_data :: "'k \<Rightarrow> 'c"
  strsplit_set :: "string \<Rightarrow> string \<Rightarrow> string list"

type_synonym 'c files = "string \<rightharpoonup> 'c"

definition cfg_get_value :: "('c, 'k) keyfile \<Rightarrow> 'c files \<Rightarrow> string option \<Rightarrow> string option \<Rightarrow> string option \<Rightarrow> string option" where
  "cfg_get_value G fs filename group_name key_name = do {
     f \<leftarrow> filename;
     g \<leftarrow> group_name;
     k \<leftarrow> key_name;
     contents \<leftarrow> fs f;
     kf \<leftarrow> key_file_load G G_KEY_FILE_NONE contents;
     key_file_get_value G kf g k }"

text \<open>The getters return the flag and the out parameter, which they leave alone when there is no value.\<close>

definition cfg_get_string :: "('c, 'k) keyfile \<Rightarrow> 'c files \<Rightarrow> string option \<Rightarrow> string option \<Rightarrow> string option \<Rightarrow> string \<Rightarrow> bool \<times> string" where
  "cfg_get_string G fs filename group_name key_name str = (case cfg_get_value G fs filename group_name key_name of
     Some ptr \<Rightarrow> (True, ptr)
   | None \<Rightarrow> (False, str))"

definition cfg_get_gint :: "('c, 'k) keyfile \<Rightarrow> 'c files \<Rightarrow> string option \<Rightarrow> string option \<Rightarrow> string option \<Rightarrow> int \<Rightarrow> (bool \<times> int) option" where
  "cfg_get_gint G fs filename group_name key_name v = (case cfg_get_value G fs filename group_name key_name of
     Some ptr \<Rightarrow> do { n \<leftarrow> atoi ptr; Some (True, n) }
   | None \<Rightarrow> Some (False, v))"

text \<open>\<^verbatim>\<open>gboolean\<close> is \<^verbatim>\<open>int\<close>: the value is not reduced to 0 or 1.\<close>

definition cfg_get_bool :: "('c, 'k) keyfile \<Rightarrow> 'c files \<Rightarrow> string option \<Rightarrow> string option \<Rightarrow> string option \<Rightarrow> int \<Rightarrow> (bool \<times> int) option" where
  "cfg_get_bool G fs filename group_name key_name v = (case cfg_get_value G fs filename group_name key_name of
     Some ptr \<Rightarrow> do { n \<leftarrow> atoi ptr; Some (True, n) }
   | None \<Rightarrow> Some (False, v))"

definition STRING_SPILIT :: string where
  "STRING_SPILIT = '',''"

definition cfg_get_string_list ::
  "('c, 'k) keyfile \<Rightarrow> 'c files \<Rightarrow> string option \<Rightarrow> string option \<Rightarrow> string option \<Rightarrow> string list \<Rightarrow> nat \<Rightarrow> bool \<times> string list \<times> nat" where
  "cfg_get_string_list G fs filename group_name key_name str len = (case cfg_get_value G fs filename group_name key_name of
     Some ptr \<Rightarrow> (let str = strsplit_set G ptr STRING_SPILIT in (True, str, length str))
   | None \<Rightarrow> (False, str, len))"

text \<open>The loop over the parts writes the numbers into a zeroed array of their number.\<close>

definition atoi_body :: "string list \<Rightarrow> nat \<Rightarrow> int list \<Rightarrow> int list option" where
  "atoi_body str i value_list = do { s \<leftarrow> arr_get str i; n \<leftarrow> atoi s; arr_set value_list i n }"

definition cfg_get_gint_list ::
  "('c, 'k) keyfile \<Rightarrow> 'c files \<Rightarrow> string option \<Rightarrow> string option \<Rightarrow> string option \<Rightarrow> int list \<Rightarrow> nat \<Rightarrow> (bool \<times> int list \<times> nat) option" where
  "cfg_get_gint_list G fs filename group_name key_name v len = (case cfg_get_value G fs filename group_name key_name of
     Some ptr \<Rightarrow> do {
       let str = strsplit_set G ptr STRING_SPILIT;
       let leng_num = length str;
       value_list \<leftarrow> for_list (atoi_body str) [0..<leng_num] (replicate leng_num 0);
       Some (True, value_list, leng_num) }
   | None \<Rightarrow> Some (False, v, len))"

definition cfg_get_bool_list ::
  "('c, 'k) keyfile \<Rightarrow> 'c files \<Rightarrow> string option \<Rightarrow> string option \<Rightarrow> string option \<Rightarrow> int list \<Rightarrow> nat \<Rightarrow> (bool \<times> int list \<times> nat) option" where
  "cfg_get_bool_list G fs filename group_name key_name v len = (case cfg_get_value G fs filename group_name key_name of
     Some ptr \<Rightarrow> do {
       let str = strsplit_set G ptr STRING_SPILIT;
       let leng_num = length str;
       value_list \<leftarrow> for_list (atoi_body str) [0..<leng_num] (replicate leng_num 0);
       Some (True, value_list, leng_num) }
   | None \<Rightarrow> Some (False, v, len))"

text \<open>
  Writing: whether \<^verbatim>\<open>g_fopen\<close> succeeds, and what the file holds after the unchecked \<^verbatim>\<open>fwrite\<close> and \<^verbatim>\<open>fclose\<close> of
  contents it was given.
\<close>

record 'c file_io =
  fopen_ok :: bool
  fwrite_left :: "'c \<Rightarrow> 'c"

definition cfg_set_string ::
  "('c, 'k) keyfile \<Rightarrow> 'c file_io \<Rightarrow> 'c files \<Rightarrow> string option \<Rightarrow> string option \<Rightarrow> string option \<Rightarrow> string \<Rightarrow> bool \<times> 'c files" where
  "cfg_set_string G io fs filename group_name key_name str = (case (filename, group_name, key_name) of
     (Some f, Some g, Some k) \<Rightarrow>
       (case Option.bind (fs f) (key_file_load G G_KEY_FILE_KEEP_COMMENTS) of
          None \<Rightarrow> (False, fs)
        | Some kf \<Rightarrow>
            if \<not> key_file_has_key G kf g k then (False, fs)
            else let kf = key_file_set_value G kf g k str; contents = key_file_to_data G kf
              in if \<not> fopen_ok io then (False, fs) else (True, fs(f \<mapsto> fwrite_left io contents)))
   | _ \<Rightarrow> (False, fs))"

definition cfg_set_gint ::
  "('c, 'k) keyfile \<Rightarrow> 'c file_io \<Rightarrow> 'c files \<Rightarrow> string option \<Rightarrow> string option \<Rightarrow> string option \<Rightarrow> int \<Rightarrow> bool \<times> 'c files" where
  "cfg_set_gint G io fs filename group_name key_name v = cfg_set_string G io fs filename group_name key_name (show_int v)"

definition cfg_set_bool ::
  "('c, 'k) keyfile \<Rightarrow> 'c file_io \<Rightarrow> 'c files \<Rightarrow> string option \<Rightarrow> string option \<Rightarrow> string option \<Rightarrow> int \<Rightarrow> bool \<times> 'c files" where
  "cfg_set_bool G io fs filename group_name key_name v = cfg_set_string G io fs filename group_name key_name (show_int v)"

section \<open>The pid file\<close>

text \<open>\<open>wlen\<close> is the number of bytes \<^verbatim>\<open>fwrite\<close> gets to the file.\<close>

definition create_pid_file :: "bool \<Rightarrow> nat \<Rightarrow> int \<Rightarrow> string files \<Rightarrow> string \<Rightarrow> int \<times> string files" where
  "create_pid_file open_ok wlen pid fs pidfile =
     (if \<not> open_ok then (- 1, fs)
      else let tbuf = show_int pid; fs = fs(pidfile \<mapsto> take wlen tbuf)
        in if wlen < length tbuf then (- 2, fs) else (0, fs))"

definition get_pid_from_file :: "bool \<Rightarrow> bool \<Rightarrow> string files \<Rightarrow> string option \<Rightarrow> int option" where
  "get_pid_from_file access_ok open_ok fs pid_file = (case pid_file of
     None \<Rightarrow> Some (- 1)
   | Some f \<Rightarrow>
       if access_ok then
         (if \<not> open_ok then Some (- 2)
          else case Option.bind (fs f) (fgets 100) of None \<Rightarrow> Some (- 3) | Some tbuf \<Rightarrow> atoi tbuf)
       else Some (- 1))"

section \<open>What the code relies on of \<^verbatim>\<open>GKeyFile\<close>\<close>

text \<open>A value that a key file can hold on one line.\<close>

definition plain :: "string \<Rightarrow> bool" where
  "plain s \<longleftrightarrow> s \<noteq> [] \<and> (\<forall>c \<in> set s. \<not> isspace c)"

text \<open>
  A key is there when it has a value; setting a key changes its value and no other; a key file written out and
  read again has the values it had, when the changed one is plain; comments do not change values.
\<close>

definition keyfile_laws :: "('c, 'k) keyfile \<Rightarrow> bool" where
  "keyfile_laws G \<longleftrightarrow>
     (\<forall>kf g k. key_file_has_key G kf g k = (key_file_get_value G kf g k \<noteq> None)) \<and>
     (\<forall>kf g k s g' k'. key_file_get_value G (key_file_set_value G kf g k s) g' k' =
        (if g' = g \<and> k' = k then Some s else key_file_get_value G kf g' k')) \<and>
     (\<forall>c kf g k s. key_file_load G G_KEY_FILE_KEEP_COMMENTS c = Some kf \<longrightarrow> plain s \<longrightarrow> key_file_has_key G kf g k \<longrightarrow>
        (\<exists>kf'. key_file_load G G_KEY_FILE_NONE (key_file_to_data G (key_file_set_value G kf g k s)) = Some kf' \<and>
           key_file_get_value G kf' = key_file_get_value G (key_file_set_value G kf g k s))) \<and>
     (\<forall>c. map_option (key_file_get_value G) (key_file_load G G_KEY_FILE_KEEP_COMMENTS c) =
        map_option (key_file_get_value G) (key_file_load G G_KEY_FILE_NONE c))"

lemma dec_chars_plain: "dec_val c \<noteq> None \<Longrightarrow> \<not> isspace c"
  by (auto simp: dec_val_def isspace_def Let_def split: if_splits)

lemma plain_show_int: "plain (show_int i)"
proof -
  have "\<not> isspace (CHR ''-'')" by code_simp
  with show_nat_digits dec_chars_plain show ?thesis by (auto simp: plain_def show_int_def)
qed

text \<open>The value of a key in a file, whichever flags it is read with.\<close>

lemma cfg_get_value_comments:
  assumes "keyfile_laws G" and "fs f = Some c" and "key_file_load G G_KEY_FILE_KEEP_COMMENTS c = Some kf"
  shows "cfg_get_value G fs (Some f) (Some g) (Some k) = key_file_get_value G kf g k"
proof -
  from assms(1,3) have "map_option (key_file_get_value G) (key_file_load G G_KEY_FILE_NONE c) = Some (key_file_get_value G kf)"
    unfolding keyfile_laws_def by (metis option.simps(9))
  with assms(2) show ?thesis by (auto simp: cfg_get_value_def)
qed

lemma cfg_set_string_get:
  assumes laws: "keyfile_laws G" and "fopen_ok io" and w: "\<And>c. fwrite_left io c = c" and "plain s"
    and "cfg_get_value G fs (Some f) (Some g) (Some k) \<noteq> None"
  shows "\<exists>c. cfg_set_string G io fs (Some f) (Some g) (Some k) s = (True, fs(f \<mapsto> c)) \<and>
    (\<forall>g' k'. cfg_get_value G (fs(f \<mapsto> c)) (Some f) (Some g') (Some k') =
       (if g' = g \<and> k' = k then Some s else cfg_get_value G fs (Some f) (Some g') (Some k')))"
proof -
  from assms(5) obtain c0 kn where c0: "fs f = Some c0" "key_file_load G G_KEY_FILE_NONE c0 = Some kn"
    by (auto simp: cfg_get_value_def Option.bind_eq_Some_conv)
  have "map_option (key_file_get_value G) (key_file_load G G_KEY_FILE_KEEP_COMMENTS c0) = Some (key_file_get_value G kn)"
    using laws c0(2) unfolding keyfile_laws_def by (metis option.simps(9))
  then obtain kf where kf: "key_file_load G G_KEY_FILE_KEEP_COMMENTS c0 = Some kf" by auto
  note old = cfg_get_value_comments [where fs = fs and f = f, OF laws c0(1) kf]
  with assms(5) laws have has: "key_file_has_key G kf g k" unfolding keyfile_laws_def by metis
  let ?kf = "key_file_set_value G kf g k s"
  from laws kf has \<open>plain s\<close> obtain kf' where kf': "key_file_load G G_KEY_FILE_NONE (key_file_to_data G ?kf) = Some kf'"
    "key_file_get_value G kf' = key_file_get_value G ?kf" unfolding keyfile_laws_def by meson
  have set: "key_file_get_value G ?kf g' k' = (if g' = g \<and> k' = k then Some s else key_file_get_value G kf g' k')" for g' k'
    using laws unfolding keyfile_laws_def by metis
  have "cfg_set_string G io fs (Some f) (Some g) (Some k) s = (True, fs(f \<mapsto> key_file_to_data G ?kf))"
    using c0 kf has \<open>fopen_ok io\<close> w by (simp add: cfg_set_string_def Let_def)
  moreover have "cfg_get_value G (fs(f \<mapsto> key_file_to_data G ?kf)) (Some f) (Some g') (Some k') =
      (if g' = g \<and> k' = k then Some s else cfg_get_value G fs (Some f) (Some g') (Some k'))" for g' k'
    unfolding old using kf' set by (simp add: cfg_get_value_def)
  ultimately show ?thesis by blast
qed

lemma cfg_other_file: "f' \<noteq> f \<Longrightarrow> cfg_get_value G (fs(f \<mapsto> c)) (Some f') g k = cfg_get_value G fs (Some f') g k"
  by (simp add: cfg_get_value_def)

lemma atoi_loop:
  assumes "\<And>s. s \<in> set str \<Longrightarrow> atoi s = Some (num_of s)" and "n \<le> length str"
  shows "for_list (atoi_body str) [0..<n] (replicate (length str) 0) = Some (map num_of (take n str) @ replicate (length str - n) 0)"
  using assms(2)
proof (induction n)
  case (Suc n)
  then have "atoi (str ! n) = Some (num_of (str ! n))" by (simp add: assms(1))
  with Suc show ?case
    by (simp add: for_list_append atoi_body_def take_Suc_conv_app_nth arr_get_def arr_set_def list_update_append
        nth_append Suc_diff_Suc [symmetric] replicate_append_same)
qed simp

text \<open>The parts of a list value are read one by one.\<close>

lemma cfg_get_gint_list_eq:
  assumes "cfg_get_value G fs filename group_name key_name = Some ptr"
    and "\<And>s. s \<in> set (strsplit_set G ptr STRING_SPILIT) \<Longrightarrow> atoi s = Some (num_of s)"
  shows "cfg_get_gint_list G fs filename group_name key_name v len =
    Some (True, map num_of (strsplit_set G ptr STRING_SPILIT), length (strsplit_set G ptr STRING_SPILIT))"
  using atoi_loop [OF assms(2), where n = "length (strsplit_set G ptr STRING_SPILIT)"] assms(1)
  by (simp add: cfg_get_gint_list_def Let_def)

lemma fgets_plain:
  assumes "plain s" and "length s < sz" and "CHR 0x00 \<notin> set s"
  shows "fgets sz s = Some s"
proof -
  have "isspace (CHR 0x0A)" by code_simp
  then have "c \<noteq> CHR 0x0A" if "c \<in> set s" for c using assms(1) that unfolding plain_def by blast
  then have "takeWhile (\<lambda>c. c \<noteq> CHR 0x0A) s = s" by (simp add: takeWhile_eq_all_conv)
  moreover have "takeWhile (\<lambda>c. c \<noteq> CHR 0x00) s = s" using assms(3) by (auto simp: takeWhile_eq_all_conv)
  ultimately show ?thesis using assms(1,2) unfolding fgets_def plain_def Let_def by (simp only:) simp
qed

text \<open>The pid that was written is read back, and a short write is reported.\<close>

lemma pid_file_roundtrip:
  assumes "int_fits pid" and "length (show_int pid) \<le> wlen"
  shows "create_pid_file True wlen pid fs pidfile = (0, fs(pidfile \<mapsto> show_int pid))"
    and "get_pid_from_file True True (fs(pidfile \<mapsto> show_int pid)) (Some pidfile) = Some pid"
  using assms length_show_int [OF assms(1)] plain_show_int show_int_no_nul
  by (simp_all add: create_pid_file_def get_pid_from_file_def Let_def fgets_plain atoi_show)

section \<open>Properties\<close>

text \<open>
  C37. Configuration values survive the file. When the key is in the file and the file can be written,
  \<^verbatim>\<open>cfg_set_gint\<close> returns true; \<^verbatim>\<open>cfg_get_gint\<close> then returns the number, \<^verbatim>\<open>cfg_get_string\<close> its decimal digits, every other
  key of the file has the value it had, and so has every key of any other file.
\<close>

theorem cfg_gint_roundtrip:
  assumes "keyfile_laws G" and "fopen_ok io" and "\<And>c. fwrite_left io c = c" and "int_fits v"
    and "cfg_get_value G fs (Some f) (Some g) (Some k) \<noteq> None"
  shows "\<exists>fs'. cfg_set_gint G io fs (Some f) (Some g) (Some k) v = (True, fs') \<and>
    cfg_get_gint G fs' (Some f) (Some g) (Some k) w = Some (True, v) \<and>
    cfg_get_string G fs' (Some f) (Some g) (Some k) str = (True, show_int v) \<and>
    (\<forall>g' k'. (g', k') \<noteq> (g, k) \<longrightarrow> cfg_get_value G fs' (Some f) (Some g') (Some k') = cfg_get_value G fs (Some f) (Some g') (Some k')) \<and>
    (\<forall>f' g' k'. f' \<noteq> f \<longrightarrow> cfg_get_value G fs' (Some f') g' k' = cfg_get_value G fs (Some f') g' k')"
proof -
  from cfg_set_string_get [OF assms(1-3) plain_show_int assms(5)] obtain c where
    c: "cfg_set_string G io fs (Some f) (Some g) (Some k) (show_int v) = (True, fs(f \<mapsto> c))"
    "\<And>g' k'. cfg_get_value G (fs(f \<mapsto> c)) (Some f) (Some g') (Some k') =
       (if g' = g \<and> k' = k then Some (show_int v) else cfg_get_value G fs (Some f) (Some g') (Some k'))" by blast
  show ?thesis
    by (rule exI [of _ "fs(f \<mapsto> c)"])
      (auto simp: cfg_set_gint_def c cfg_get_gint_def cfg_get_string_def atoi_show [OF assms(4)] cfg_other_file)
qed

section \<open>Witness\<close>

text \<open>A key file kept as the list of its values.\<close>

definition demo_keyfile :: "((string \<times> string \<times> string) list, (string \<times> string \<times> string) list) keyfile" where
  "demo_keyfile = \<lparr>key_file_load = (\<lambda>fl c. Some c),
     key_file_get_value = (\<lambda>kf g k. map_option (\<lambda>(g, k, v). v) (find (\<lambda>(g', k', v). g' = g \<and> k' = k) kf)),
     key_file_has_key = (\<lambda>kf g k. find (\<lambda>(g', k', v). g' = g \<and> k' = k) kf \<noteq> None),
     key_file_set_value = (\<lambda>kf g k s. (g, k, s) # kf), key_file_to_data = (\<lambda>kf. kf),
     strsplit_set = (\<lambda>s d. [s])\<rparr>"

lemma demo_keyfile_laws: "keyfile_laws demo_keyfile"
  by (auto simp: keyfile_laws_def demo_keyfile_def fun_eq_iff)

theorem cfg_gint_roundtrip_witness:
  "\<exists>fs. cfg_set_gint demo_keyfile \<lparr>fopen_ok = True, fwrite_left = (\<lambda>c. c)\<rparr> [''mc.ini'' \<mapsto> [(''Home'', ''SSL'', ''1''), (''Home'', ''ServerPort'', ''80'')]]
      (Some ''mc.ini'') (Some ''Home'') (Some ''ServerPort'') 18002 = (True, fs) \<and>
    cfg_get_gint demo_keyfile fs (Some ''mc.ini'') (Some ''Home'') (Some ''ServerPort'') 0 = Some (True, 18002) \<and>
    cfg_get_value demo_keyfile fs (Some ''mc.ini'') (Some ''Home'') (Some ''SSL'') = Some ''1''"
proof -
  have o: "cfg_get_value demo_keyfile [''mc.ini'' \<mapsto> [(''Home'', ''SSL'', ''1''), (''Home'', ''ServerPort'', ''80'')]]
      (Some ''mc.ini'') (Some ''Home'') (Some ''SSL'') = Some ''1''"
    by (simp add: cfg_get_value_def demo_keyfile_def)
  have k: "cfg_get_value demo_keyfile [''mc.ini'' \<mapsto> [(''Home'', ''SSL'', ''1''), (''Home'', ''ServerPort'', ''80'')]]
      (Some ''mc.ini'') (Some ''Home'') (Some ''ServerPort'') \<noteq> None"
    by (simp add: cfg_get_value_def demo_keyfile_def)
  have n: "int_fits 18002" by (simp add: int_fits_def)
  from cfg_gint_roundtrip [OF demo_keyfile_laws _ _ n k, of "\<lparr>fopen_ok = True, fwrite_left = (\<lambda>c. c)\<rparr>" 0 "[]"] o
  show ?thesis by (elim exE conjE meta_impE) (simp, simp, force)
qed

end
