(* ===== verification/Io_Utils.thy ===== *)
theory Io_Utils
  imports C_Lib "HOL-Library.Signed_Division"
begin

text \<open>
  The input and output helpers of \<^verbatim>\<open>lib/io_utils.c\<close> and \<^verbatim>\<open>lib/utils.c\<close>: reading and writing with a time limit, reading
  a line, matching a command, making a temporary name. What the system calls of the successive rounds of a loop return is
  an argument; a loop whose rounds are used up has not returned and is \<^term>\<open>None\<close>, as is an access outside an array.
\<close>

section \<open>Reading and writing with a time limit\<close>

text \<open>
  One round: the result of \<^verbatim>\<open>select\<close>, whether its error is \<^verbatim>\<open>EINTR\<close>, whether time is left in the \<^verbatim>\<open>timeval\<close> it updates,
  the result of \<^verbatim>\<open>read\<close> or \<^verbatim>\<open>write\<close>, whether its error is \<^verbatim>\<open>EINTR\<close>, and the bytes \<^verbatim>\<open>read\<close> delivered.
\<close>

record io_round =
  sel_ret :: int
  sel_eintr :: bool
  tv_left :: bool
  io_ret :: int
  io_eintr :: bool
  io_data :: buf

text \<open>
  \<open>tv\<close>: whether a time limit is given. Without one the loop condition is false after the first round. \<^verbatim>\<open>total\<close> is an
  \<^verbatim>\<open>int\<close> in the code. It never exceeds \<open>count\<close>, and the counts the program passes are buffer sizes and 16-bit lengths, far
  below \<open>2 ^ 31\<close>, so it does not wrap and is a natural number here, in both loops.
\<close>

fun read_loop :: "bool \<Rightarrow> io_round list \<Rightarrow> nat \<Rightarrow> buf \<Rightarrow> nat \<Rightarrow> (int \<times> buf) option" where
  "read_loop tv [] count b tot = None"
| "read_loop tv (r # rs) count b tot =
     (if sel_ret r = 0 then Some (int tot, b)
      else if sel_ret r < 0 then (if sel_eintr r then Some (int tot, b) else Some (- 1, b))
      else if io_ret r < 0 then
        (if io_eintr r then (if tv \<and> tv_left r then read_loop tv rs count b tot else Some (int tot, b))
         else Some (- 1, b))
      else if io_ret r = 0 then Some (- 1, b)
      else do {
        b \<leftarrow> put_bytes b tot (io_data r);
        let tot = tot + nat (io_ret r);
        if tot = count then Some (int tot, b)
        else if tv \<and> tv_left r then read_loop tv rs count b tot
        else Some (int tot, b) })"

definition read_timeout :: "bool \<Rightarrow> io_round list \<Rightarrow> buf \<Rightarrow> nat \<Rightarrow> (int \<times> buf) option" where
  "read_timeout tv rs b count = read_loop tv rs count b 0"

text \<open>Writing: the last component is what the system has taken.\<close>

fun write_loop :: "bool \<Rightarrow> io_round list \<Rightarrow> nat \<Rightarrow> buf \<Rightarrow> nat \<Rightarrow> buf \<Rightarrow> (int \<times> buf) option" where
  "write_loop tv [] count b tot out = None"
| "write_loop tv (r # rs) count b tot out =
     (if sel_ret r = 0 then Some (int tot, out)
      else if sel_ret r < 0 then (if sel_eintr r then Some (int tot, out) else Some (- 1, out))
      else if count > length b then None
      else if io_ret r < 0 then
        (if io_eintr r then (if tv \<and> tv_left r then write_loop tv rs count b tot out else Some (int tot, out))
         else Some (- 1, out))
      else if io_ret r = 0 then Some (int tot, out)
      else (let out = out @ take (nat (io_ret r)) (drop tot b); tot = tot + nat (io_ret r) in
        if tot = count then Some (int tot, out)
        else if tv \<and> tv_left r then write_loop tv rs count b tot out
        else Some (int tot, out)))"

definition write_timeout :: "bool \<Rightarrow> io_round list \<Rightarrow> buf \<Rightarrow> nat \<Rightarrow> (int \<times> buf) option" where
  "write_timeout tv rs b count = write_loop tv rs count b 0 []"

definition recvfrom_timeout :: "io_round \<Rightarrow> buf \<Rightarrow> nat \<Rightarrow> (int \<times> buf) option" where
  "recvfrom_timeout r b count =
     (if sel_ret r \<le> 0 then Some (sel_ret r, b)
      else if io_ret r < 0 then Some (io_ret r, b)
      else do { b \<leftarrow> put_bytes b 0 (io_data r); Some (io_ret r, b) })"

section \<open>Lines and commands\<close>

text \<open>The successive calls of \<^verbatim>\<open>read\<close> for one byte: the byte, the end of the file, or an error that is \<^verbatim>\<open>EINTR\<close> or not.\<close>

datatype byte_read = GOT u8 | END_OF_FILE | READ_ERROR bool

fun readline1_loop :: "byte_read list \<Rightarrow> nat \<Rightarrow> buf \<Rightarrow> nat \<Rightarrow> nat \<Rightarrow> (int \<times> buf) option" where
  "readline1_loop rs maxlen b p n =
     (if \<not> n < maxlen then do { b \<leftarrow> arr_set b p 0; Some (int n, b) }
      else case rs of
        [] \<Rightarrow> None
      | GOT c # rs \<Rightarrow> do {
          b \<leftarrow> arr_set b p c;
          if c = 10 then do { b \<leftarrow> arr_set b (p + 1) 0; Some (int n, b) }
          else readline1_loop rs maxlen b (p + 1) (n + 1) }
      | END_OF_FILE # rs \<Rightarrow> if n = 1 then Some (0, b) else do { b \<leftarrow> arr_set b p 0; Some (int n, b) }
      | READ_ERROR eintr # rs \<Rightarrow> if eintr then readline1_loop rs maxlen b p n else Some (- 1, b))"

declare readline1_loop.simps [simp del]

definition readline1 :: "byte_read list \<Rightarrow> buf \<Rightarrow> nat \<Rightarrow> (int \<times> buf) option" where
  "readline1 rs b maxlen = readline1_loop rs maxlen b 0 1"

definition tolower :: "char \<Rightarrow> char" where
  "tolower c = (let n = of_char c :: nat in if 65 \<le> n \<and> n \<le> 90 then char_of (n + 32) else c)"

text \<open>\<^verbatim>\<open>strncasecmp\<close> against the whole of the prefix.\<close>

definition check_cmd_prefix :: "string option \<Rightarrow> string option \<Rightarrow> int" where
  "check_cmd_prefix cmd prefix = (case (cmd, prefix) of
     (Some cmd, Some prefix) \<Rightarrow>
       if map tolower (take (length prefix) cmd) = map tolower prefix then 0 else - 2
   | _ \<Rightarrow> - 1)"

section \<open>Temporary names\<close>

definition letters :: string where
  "letters = ''ABCDEFGHIJKLMNOPQRSTUVWXYZ0123456789''"

text \<open>The six letters that replace the Xs; an index below 0 is outside the array.\<close>

fun fill_letters :: "nat \<Rightarrow> int \<Rightarrow> string option" where
  "fill_letters 0 v = Some []"
| "fill_letters (Suc k) v = (let i = v smod 36 in
     if i < 0 then None
     else do { c \<leftarrow> arr_get letters (nat i); cs \<leftarrow> fill_letters k (v sdiv 36); Some (c # cs) })"

text \<open>The results of the successive \<^verbatim>\<open>g_open\<close>: a descriptor, or an error that is \<^verbatim>\<open>EEXIST\<close> or not. The names tried are kept.\<close>

datatype open_result = OPENED int | OPEN_ERROR bool

fun mkstemp_loop :: "nat \<Rightarrow> open_result list \<Rightarrow> string \<Rightarrow> int \<Rightarrow> string list \<Rightarrow> (int \<times> string list) option" where
  "mkstemp_loop 0 rs stem v tried = Some (- 1, tried)"
| "mkstemp_loop (Suc n) rs stem v tried = do {
     cs \<leftarrow> fill_letters 6 v;
     let tried = tried @ [stem @ cs];
     case rs of
       [] \<Rightarrow> None
     | OPENED fd # rs \<Rightarrow> Some (fd, tried)
     | OPEN_ERROR eexist # rs \<Rightarrow> if eexist then mkstemp_loop n rs stem (v + 7777) tried else Some (- 1, tried) }"

text \<open>\<open>now\<close> is the time's microseconds XOR seconds, \<open>counter\<close> the static counter of calls.\<close>

definition hsb_mkstemp :: "open_result list \<Rightarrow> int \<Rightarrow> int \<Rightarrow> string \<Rightarrow> (int \<times> string list) option" where
  "hsb_mkstemp rs now counter tmpl = (let len = length tmpl in
     if len < 6 \<or> drop (len - 6) tmpl \<noteq> ''XXXXXX'' then Some (- 1, [])
     else mkstemp_loop 100 rs (take (len - 6) tmpl) (now + counter) [])"

section \<open>What the loops do\<close>

text \<open>What is documented of \<^verbatim>\<open>read\<close> and \<^verbatim>\<open>write\<close>: never more than was asked for.\<close>

fun io_contract :: "nat \<Rightarrow> io_round list \<Rightarrow> bool" where
  "io_contract k [] = True"
| "io_contract k (r # rs) = (if 0 < sel_ret r \<and> 0 < io_ret r
     then nat (io_ret r) = length (io_data r) \<and> length (io_data r) \<le> k \<and> io_contract (k - length (io_data r)) rs
     else io_contract k rs)"

definition received :: "io_round list \<Rightarrow> buf" where
  "received rs = concat (map (\<lambda>r. if 0 < sel_ret r \<and> 0 < io_ret r then io_data r else []) rs)"

definition time_ends :: "bool \<Rightarrow> io_round list \<Rightarrow> bool" where
  "time_ends tv rs \<longleftrightarrow> (\<exists>r \<in> set rs. \<not> (tv \<and> tv_left r) \<or> sel_ret r = 0)"

lemma take_put: "put_bytes b off bs = Some b' \<Longrightarrow> take off b' = take off b \<and> take (length bs) (drop off b') = bs \<and>
    (\<forall>k. off + length bs \<le> k \<longrightarrow> drop k b' = drop k b)"
  by (auto simp: put_bytes_def split: if_splits)

lemma read_loop_ok:
  assumes "io_contract (count - tot) rs" and "time_ends tv rs" and "tot \<le> count" and "count \<le> length b"
  shows "runs (read_loop tv rs count b tot) (\<lambda>(n, b'). length b' = length b \<and> take tot b' = take tot b \<and>
    drop count b' = drop count b \<and>
    (n = - 1 \<or> int tot \<le> n \<and> n \<le> int count \<and> nat n - tot \<le> length (received rs) \<and>
      take (nat n - tot) (drop tot b') = take (nat n - tot) (received rs)))"
  using assms
proof (induction rs arbitrary: b tot)
  case Nil
  then show ?case by (simp add: time_ends_def)
next
  case (Cons r rs)
  show ?case
  proof (cases "0 < sel_ret r \<and> 0 < io_ret r")
    case False
    then have e: "received (r # rs) = received rs" by (auto simp: received_def)
    show ?thesis
    proof (cases "0 < sel_ret r \<and> io_ret r < 0 \<and> io_eintr r \<and> tv \<and> tv_left r")
      case True
      with Cons.prems False have "io_contract (count - tot) rs" "time_ends tv rs" by (auto simp: time_ends_def)
      from Cons.IH [OF this Cons.prems(3,4)] True show ?thesis by (simp add: e)
    next
      case f: False
      with False Cons.prems show ?thesis by auto
    qed
  next
    case True
    let ?d = "io_data r" and ?t = "tot + length (io_data r)"
    from True Cons.prems(1) have d: "nat (io_ret r) = length ?d" "length ?d \<le> count - tot" "io_contract (count - ?t) rs" by simp_all
    have "tot + length ?d \<le> length b" using d(2) Cons.prems(3,4) by linarith
    then obtain b1 where b1: "put_bytes b tot ?d = Some b1" by (simp add: put_bytes_def)
    note p = take_put [OF b1] put_bytes_length [OF b1]
    have e: "received (r # rs) = ?d @ received rs" using True by (simp add: received_def)
    have le: "?t \<le> count" using d(2) Cons.prems(3) by simp
    have rd: "read_loop tv (r # rs) count b tot = (if ?t = count \<or> \<not> (tv \<and> tv_left r) then Some (int ?t, b1) else read_loop tv rs count b1 ?t)"
      using True b1 d(1) by (auto simp: Let_def)
    show ?thesis
    proof (cases "?t = count \<or> \<not> (tv \<and> tv_left r)")
      case stop: True
      then show ?thesis unfolding rd if_P [OF stop] using p e le by (simp add: nat_add_distrib)
    next
      case go: False
      with Cons.prems(2) True have "time_ends tv rs" by (auto simp: time_ends_def)
      note ih = Cons.IH [OF d(3) this le, of b1]
      have step: "length b' = length b \<and> take tot b' = take tot b \<and> drop count b' = drop count b \<and>
          (n = - 1 \<or> int tot \<le> n \<and> n \<le> int count \<and> nat n - tot \<le> length (received (r # rs)) \<and>
            take (nat n - tot) (drop tot b') = take (nat n - tot) (received (r # rs)))"
        if l: "length b' = length b1" and t: "take ?t b' = take ?t b1" and dr: "drop count b' = drop count b1"
          and n: "n = - 1 \<or> int ?t \<le> n \<and> n \<le> int count \<and> nat n - ?t \<le> length (received rs) \<and>
            take (nat n - ?t) (drop ?t b') = take (nat n - ?t) (received rs)" for n b'
      proof -
        have "take tot b' = take tot b" using t p by (metis le_add1 min.absorb1 take_take)
        moreover have "take (length ?d) (drop tot b') = ?d" using t p by (metis add_diff_cancel_left' drop_take)
        then have "drop tot b' = ?d @ drop ?t b'" by (metis add.commute append_take_drop_id drop_drop)
        then have "n \<noteq> - 1 \<Longrightarrow> take (nat n - tot) (drop tot b') = take (nat n - tot) (received (r # rs))"
          using n by (simp add: e)
        ultimately show ?thesis using l dr n p le by (auto simp: e)
      qed
      have "count \<le> length b1" using Cons.prems(4) p by simp
      from ih [OF this] obtain x where x: "read_loop tv rs count b1 ?t = Some x" and P: "case x of (n, b') \<Rightarrow> length b' = length b1 \<and>
          take ?t b' = take ?t b1 \<and> drop count b' = drop count b1 \<and> (n = - 1 \<or> int ?t \<le> n \<and> n \<le> int count \<and>
            nat n - ?t \<le> length (received rs) \<and> take (nat n - ?t) (drop ?t b') = take (nat n - ?t) (received rs))" by (rule runsE)
      obtain n b' where nb: "x = (n, b')" by (cases x)
      from P nb show ?thesis unfolding rd if_not_P [OF go] x nb runs_Some prod.case by (elim conjE) (rule step)
    qed
  qed
qed

lemma write_loop_ok:
  assumes "io_contract (count - tot) rs" and "time_ends tv rs" and "tot \<le> count" and "count \<le> length b" and "out = take tot b"
  shows "runs (write_loop tv rs count b tot out) (\<lambda>(n, out').
    (\<exists>k. tot \<le> k \<and> k \<le> count \<and> out' = take k b \<and> (n = - 1 \<or> n = int k)))"
  using assms
proof (induction rs arbitrary: tot out)
  case Nil
  then show ?case by (simp add: time_ends_def)
next
  case (Cons r rs)
  show ?case
  proof (cases "0 < sel_ret r \<and> 0 < io_ret r")
    case False
    show ?thesis
    proof (cases "0 < sel_ret r \<and> io_ret r < 0 \<and> io_eintr r \<and> tv \<and> tv_left r")
      case True
      with Cons.prems False have "io_contract (count - tot) rs" "time_ends tv rs" by (auto simp: time_ends_def)
      from Cons.IH [OF this Cons.prems(3-5)] True Cons.prems(4) show ?thesis by simp
    next
      case f: False
      with False Cons.prems show ?thesis by auto
    qed
  next
    case True
    let ?t = "tot + length (io_data r)"
    from True Cons.prems(1) have d: "nat (io_ret r) = length (io_data r)" "length (io_data r) \<le> count - tot" "io_contract (count - ?t) rs" by simp_all
    have le: "?t \<le> count" using d(2) Cons.prems(3) by simp
    have o: "out @ take (length (io_data r)) (drop tot b) = take ?t b" using Cons.prems(5) by (simp add: take_add)
    have wr: "write_loop tv (r # rs) count b tot out =
        (if ?t = count \<or> \<not> (tv \<and> tv_left r) then Some (int ?t, take ?t b) else write_loop tv rs count b ?t (take ?t b))"
      using True d(1) Cons.prems(4) o by (auto simp: Let_def)
    show ?thesis
    proof (cases "?t = count \<or> \<not> (tv \<and> tv_left r)")
      case stop: True
      then show ?thesis unfolding wr if_P [OF stop] using le by (auto intro: exI [of _ ?t])
    next
      case go: False
      with Cons.prems(2) True have "time_ends tv rs" by (auto simp: time_ends_def)
      from Cons.IH [OF d(3) this le Cons.prems(4) refl] show ?thesis unfolding wr if_not_P [OF go]
        by (rule runs_mono) (auto dest: add_leD1)
    qed
  qed
qed

text \<open>
  C38. Reading and writing with a time limit are correct and return. When the system calls never transfer more than was asked for and
  the time is used up in some round, both return; reading stays inside its buffer and returns -1 or
  the number \<open>n\<close> of bytes that it stored at the front, which are the first \<open>n\<close> that were received; writing
  hands over a front part of its buffer, in order and without gaps, and returns -1 or its length.
\<close>

theorem io_timeout_correct:
  assumes "io_contract count rs" and "time_ends tv rs" and "count \<le> length b"
  shows "runs (read_timeout tv rs b count) (\<lambda>(n, b'). length b' = length b \<and> drop count b' = drop count b \<and>
      (n = - 1 \<or> 0 \<le> n \<and> n \<le> int count \<and> nat n \<le> length (received rs) \<and> take (nat n) b' = take (nat n) (received rs))) \<and>
    runs (write_timeout tv rs b count) (\<lambda>(n, out).
      \<exists>k \<le> count. out = take k b \<and> (n = - 1 \<or> n = int k))"
  using read_loop_ok [of count 0 rs tv b] write_loop_ok [of count 0 rs tv b "[]"] assms
  by (auto simp: read_timeout_def write_timeout_def elim!: runs_mono)

section \<open>Lines\<close>

lemma nul_inside: "p < maxlen \<Longrightarrow> p < length b \<Longrightarrow> 0 \<in> set (take maxlen (b[p := 0 :: u8]))"
  by (auto simp: in_set_conv_nth intro!: exI [of _ p])

text \<open>A line that is read is a string inside its buffer, whatever the reads deliver.\<close>

lemma readline1_loop_ok:
  assumes "p + 1 = n" and "n \<le> maxlen" and "maxlen \<le> length b" and "readline1_loop rs maxlen b p n = Some (m, b')"
  shows "length b' = length b \<and> m \<le> int maxlen \<and> (0 < m \<longrightarrow> 0 \<in> set (take maxlen b')) \<and> drop maxlen b' = drop maxlen b"
  using assms
proof (induction rs arbitrary: b p n)
  case Nil
  then show ?case by (subst (asm) readline1_loop.simps) (auto simp: arr_set_def nul_inside split: if_splits)
next
  case (Cons r rs)
  note u = Cons.prems(4) [unfolded readline1_loop.simps [of "r # rs"]]
  show ?case
  proof (cases "n < maxlen")
    case False
    with u Cons.prems show ?thesis by (auto simp: arr_set_def nul_inside)
  next
    case n: True
    show ?thesis
    proof (cases r)
      case (GOT c)
      show ?thesis
      proof (cases "c = 10")
        case True
        with u n GOT Cons.prems show ?thesis by (auto simp: arr_set_def nul_inside)
      next
        case False
        with u n GOT Cons.prems have "readline1_loop rs maxlen (b[p := c]) (p + 1) (n + 1) = Some (m, b')" by (simp add: arr_set_def)
        from Cons.IH [OF _ _ _ this] n Cons.prems show ?thesis by simp
      qed
    next
      case END_OF_FILE
      with u n Cons.prems show ?thesis by (auto simp: arr_set_def nul_inside split: if_splits)
    next
      case (READ_ERROR eintr)
      with u n Cons.prems Cons.IH [OF Cons.prems(1-3)] show ?thesis by (auto split: if_splits)
    qed
  qed
qed

lemma readline1_inside:
  assumes "0 < maxlen" and "maxlen \<le> length b" and "readline1 rs b maxlen = Some (m, b')"
  shows "length b' = length b \<and> m \<le> int maxlen \<and> (0 < m \<longrightarrow> 0 \<in> set (take maxlen b')) \<and> drop maxlen b' = drop maxlen b"
  using readline1_loop_ok [of 0 1 maxlen b rs m b'] assms by (simp add: readline1_def)

section \<open>Names\<close>

text \<open>The letters are the base-36 digits of the value: values that differ by less than 36 to the sixth have different names.\<close>

lemma letters_index: "distinct letters" "length letters = 36"
  by code_simp+

lemma fill_letters_digits:
  assumes "0 \<le> v"
  shows "fill_letters k v = Some (map (\<lambda>i. letters ! (nat v div 36 ^ i mod 36)) [0..<k])"
  using assms
proof (induction k arbitrary: v)
  case (Suc k)
  have m: "v smod 36 = v mod 36" "v sdiv 36 = v div 36" using Suc.prems by (cases "v = 0"; simp add: signed_modulo_int_def signed_divide_int_def)+
  have i: "nat (v mod 36) = nat v mod 36" "nat (v div 36) = nat v div 36"
    using Suc.prems by (simp_all add: nat_mod_distrib nat_div_distrib)
  have "fill_letters k (v div 36) = Some (map (\<lambda>i. letters ! (nat v div 36 ^ Suc i mod 36)) [0..<k])"
    using Suc.IH [of "v div 36"] Suc.prems by (simp add: i div_mult2_eq)
  moreover have "map (\<lambda>i. letters ! (nat v div 36 ^ i mod 36)) [0..<Suc k] =
      letters ! (nat v mod 36) # map (\<lambda>i. letters ! (nat v div 36 ^ Suc i mod 36)) [0..<k]"
    by (simp add: upt_conv_Cons map_Suc_upt [symmetric] del: upt_Suc)
  ultimately show ?case using Suc.prems by (simp add: m i letters_index arr_get_def Let_def del: upt_Suc)
qed simp

lemma digits36_inj: "(\<And>i. i < k \<Longrightarrow> a div 36 ^ i mod 36 = b div 36 ^ i mod 36) \<Longrightarrow> a mod 36 ^ k = b mod (36 ^ k :: nat)"
proof (induction k arbitrary: a b)
  case (Suc k)
  have "a div 36 mod 36 ^ k = b div 36 mod 36 ^ k"
    using Suc.prems [of "Suc _"] by (intro Suc.IH) (simp add: div_mult2_eq)
  moreover have "a mod 36 = b mod 36" using Suc.prems [of 0] by simp
  ultimately show ?case by (simp add: mod_mult2_eq)
qed simp

lemma names_differ:
  assumes "0 \<le> v" and "i < j" and "j < 100"
  shows "fill_letters 6 (v + 7777 * int i) \<noteq> fill_letters 6 (v + 7777 * int j)"
proof
  assume eq: "fill_letters 6 (v + 7777 * int i) = fill_letters 6 (v + 7777 * int j)"
  let ?a = "nat (v + 7777 * int i)" and ?b = "nat (v + 7777 * int j)"
  have "map (\<lambda>i. letters ! (?a div 36 ^ i mod 36)) [0..<6] = map (\<lambda>i. letters ! (?b div 36 ^ i mod 36)) [0..<6]"
    using eq assms(1) by (simp add: fill_letters_digits del: upt_Suc)
  then have "letters ! (?a div 36 ^ k mod 36) = letters ! (?b div 36 ^ k mod 36)" if "k < 6" for k
    using that by (metis (no_types, lifting) add_0 length_map length_upt minus_nat.diff_0 nth_map nth_upt)
  then have "?a div 36 ^ k mod 36 = ?b div 36 ^ k mod 36" if "k < 6" for k
    using that nth_eq_iff_index_eq [OF letters_index(1)] letters_index(2) by simp
  then have "?a mod 36 ^ 6 = ?b mod 36 ^ 6" by (rule digits36_inj)
  moreover have "?b = ?a + 7777 * (j - i)" using assms by (simp add: nat_diff_distrib)
  ultimately have "36 ^ 6 dvd 7777 * (j - i)" using mod_eq_dvd_iff_nat [of ?a ?b "36 ^ 6"] by simp
  moreover have "0 < 7777 * (j - i)" "7777 * (j - i) < 36 ^ 6" using assms by simp_all
  ultimately show False using dvd_imp_le by fastforce
qed

text \<open>The names a call tries keep the stem and are pairwise different.\<close>

lemma mkstemp_loop_tries:
  assumes "0 \<le> v" and "mkstemp_loop n rs stem v tried = Some (r, out)"
  shows "\<exists>k \<le> n. out = tried @ map (\<lambda>i. stem @ the (fill_letters 6 (v + 7777 * int i))) [0..<k]"
  using assms
proof (induction n arbitrary: rs v tried)
  case (Suc n)
  obtain cs where cs: "fill_letters 6 v = Some cs" using fill_letters_digits [OF Suc.prems(1), of 6] by blast
  show ?case
  proof (cases "out = tried @ [stem @ cs]")
    case True
    then show ?thesis by (intro exI [of _ 1]) (simp add: cs)
  next
    case False
    with Suc.prems cs obtain rs' where "mkstemp_loop n rs' stem (v + 7777) (tried @ [stem @ cs]) = Some (r, out)"
      by (auto simp: Let_def split: list.splits open_result.splits if_splits)
    from Suc.IH [OF _ this] Suc.prems(1) obtain k where k: "k \<le> n"
      "out = (tried @ [stem @ cs]) @ map (\<lambda>i. stem @ the (fill_letters 6 (v + 7777 + 7777 * int i))) [0..<k]" by auto
    have "map (\<lambda>i. stem @ the (fill_letters 6 (v + 7777 * int i))) [0..<Suc k] =
        (stem @ cs) # map (\<lambda>i. stem @ the (fill_letters 6 (v + 7777 + 7777 * int i))) [0..<k]"
      by (simp add: upt_conv_Cons map_Suc_upt [symmetric] cs algebra_simps del: upt_Suc)
    with k show ?thesis by (intro exI [of _ "Suc k"]) simp
  qed
qed simp

lemma hsb_mkstemp_tries:
  assumes "0 \<le> now + counter" and "hsb_mkstemp rs now counter tmpl = Some (r, out)"
  shows "distinct out \<and> length out \<le> 100 \<and> (\<forall>name \<in> set out. take (length tmpl - 6) name = take (length tmpl - 6) tmpl)"
proof (cases "out = []")
  case False
  let ?stem = "take (length tmpl - 6) tmpl"
  from False assms(2) have "mkstemp_loop 100 rs ?stem (now + counter) [] = Some (r, out)"
    by (auto simp: hsb_mkstemp_def Let_def split: if_splits)
  from mkstemp_loop_tries [OF assms(1) this] obtain k where k: "k \<le> 100"
    "out = map (\<lambda>i. ?stem @ the (fill_letters 6 (now + counter + 7777 * int i))) [0..<k]" by auto
  have some: "fill_letters 6 (now + counter + 7777 * int i) = Some (the (fill_letters 6 (now + counter + 7777 * int i)))" for i
    using fill_letters_digits [of "now + counter + 7777 * int i" 6] assms(1) by simp
  have d: "the (fill_letters 6 (now + counter + 7777 * int i)) \<noteq> the (fill_letters 6 (now + counter + 7777 * int j))"
    if "i < j" "j < k" for i j
    using names_differ [OF assms(1) that(1)] that(2) k(1) some [of i] some [of j] by (metis less_le_trans)
  have "inj_on (\<lambda>i. ?stem @ the (fill_letters 6 (now + counter + 7777 * int i))) {0..<k}"
    by (rule linorder_inj_onI) (use d in auto)
  then show ?thesis using k by (auto simp: distinct_map)
qed simp

end
