(* ===== verification/Sys_Sockets.thy ===== *)
theory Sys_Sockets
  imports Config_File Io_Utils
begin

text \<open>
  The wrappers around system calls: sockets of \<^verbatim>\<open>lib/network_utils.c\<close>, Unix-domain sockets of \<^verbatim>\<open>lib/unix_socket.c\<close>, the
  serial port of \<^verbatim>\<open>lib/serial_utils.c\<close>, and the start and exit of a daemon, \<^verbatim>\<open>lib/daemon_control.c\<close>. The state is what a
  process holds of the system: its open descriptors, which of them are non-blocking, the serial
  settings of a descriptor, and the files. The results of the system calls are arguments.
\<close>

section \<open>What a process holds of the system\<close>

record termios =
  c_cflag :: u32
  c_iflag :: u32
  c_lflag :: u32
  c_oflag :: u32
  c_speed :: u32
  c_vtime :: u8
  c_vmin :: u8

record sys =
  open_fds :: "int set"
  nonblock :: "int set"
  ttys :: "int \<Rightarrow> termios"
  files :: "string files"

text \<open>\<^verbatim>\<open>socket\<close> and \<^verbatim>\<open>open\<close> with their result, \<^verbatim>\<open>close\<close>, and \<^verbatim>\<open>unlink\<close> with whether it succeeds.\<close>

definition sys_open :: "int \<Rightarrow> sys \<Rightarrow> sys" where
  "sys_open fd y = (if fd < 0 then y else y\<lparr>open_fds := insert fd (open_fds y), nonblock := nonblock y - {fd}\<rparr>)"

definition sys_close :: "int \<Rightarrow> sys \<Rightarrow> sys" where
  "sys_close fd y = y\<lparr>open_fds := open_fds y - {fd}, nonblock := nonblock y - {fd}\<rparr>"

definition sys_unlink :: "bool \<Rightarrow> string \<Rightarrow> sys \<Rightarrow> sys" where
  "sys_unlink ok path y = (if ok then y\<lparr>files := (files y)(path := None)\<rparr> else y)"

section \<open>Internet sockets\<close>

record connect_env =
  e_socket :: int
  e_host :: "u32 option"
  e_getfl :: int
  e_setfl :: int
  e_connect :: int
  e_in_progress :: bool
  e_select :: int
  e_rset :: bool
  e_wset :: bool
  e_getsockopt :: int
  e_sock_error :: int
  e_restore :: int

definition connect_nonb :: "connect_env \<Rightarrow> string option \<Rightarrow> sys \<Rightarrow> int \<times> sys" where
  "connect_nonb e ip y =
     (if ip = None then (- 1, y)
      else if e_socket e < 0 then (- 1, y)
      else let sockfd = e_socket e; y = sys_open sockfd y in
        if e_host e = None then (- 1, sys_close sockfd y)
        else if e_getfl e = - 1 then (- 1, sys_close sockfd y)
        else if e_setfl e = - 1 then (- 1, sys_close sockfd y)
        else let y = y\<lparr>nonblock := insert sockfd (nonblock y)\<rparr> in
          if e_connect e < 0 \<and> \<not> e_in_progress e then (- 1, sys_close sockfd y)
          else if e_connect e = 0 then (sockfd, y)
          else if e_select e \<le> 0 then (- 1, sys_close sockfd y)
          else if \<not> (e_rset e \<or> e_wset e) then (- 1, sys_close sockfd y)
          else if e_getsockopt e < 0 then (- 1, sys_close sockfd y)
          else if e_sock_error e \<noteq> 0 then (- 1, sys_close sockfd y)
          else if e_restore e < 0 then (- 1, sys_close sockfd y)
          else (sockfd, y\<lparr>nonblock := nonblock y - {sockfd}\<rparr>))"

record listen_env =
  l_socket :: int
  l_setsockopt :: int
  l_bind :: int
  l_listen :: int

definition open_tcp_listenfd :: "listen_env \<Rightarrow> sys \<Rightarrow> int \<times> sys" where
  "open_tcp_listenfd e y =
     (if l_socket e < 0 then (- 1, y)
      else let listenfd = l_socket e; y = sys_open listenfd y in
        if l_setsockopt e < 0 then (- 1, sys_close listenfd y)
        else if l_bind e < 0 then (- 1, sys_close listenfd y)
        else if l_listen e < 0 then (- 1, sys_close listenfd y)
        else (listenfd, y))"

text \<open>The results of \<^verbatim>\<open>socket\<close> and \<^verbatim>\<open>bind\<close> are not looked at.\<close>

definition open_udp_listenfd :: "listen_env \<Rightarrow> sys \<Rightarrow> int \<times> sys" where
  "open_udp_listenfd e y = (l_socket e, sys_open (l_socket e) y)"

definition open_udp_clientfd :: "int \<Rightarrow> sys \<Rightarrow> int \<times> sys" where
  "open_udp_clientfd sock y = (sock, sys_open sock y)"

text \<open>\<^verbatim>\<open>struct sockaddr_in\<close>: the port is in network byte order.\<close>

record sockaddr_in =
  sin_family :: u16
  sin_port :: u16
  sin_addr :: u32

definition AF_INET :: u16 where
  "AF_INET = 2"

definition htons :: "u16 \<Rightarrow> u16" where
  "htons p = push_bit 8 p OR drop_bit 8 p"

definition make_sockaddr :: "sockaddr_in \<Rightarrow> u32 \<Rightarrow> u16 \<Rightarrow> sockaddr_in" where
  "make_sockaddr dst addr port = dst\<lparr>sin_family := AF_INET, sin_port := htons port, sin_addr := addr\<rparr>"

definition set_broadcast :: "(int \<Rightarrow> bool \<Rightarrow> int) \<Rightarrow> int \<Rightarrow> bool \<Rightarrow> int" where
  "set_broadcast setsockopt sockfd enable = setsockopt sockfd enable"

text \<open>The out parameter is left alone when \<^verbatim>\<open>ioctl\<close> fails.\<close>

definition get_broadcast_address :: "int \<Rightarrow> sockaddr_in \<Rightarrow> u32 \<Rightarrow> int \<times> u32" where
  "get_broadcast_address ioctl_ret ifr_broadaddr addr =
     (if ioctl_ret < 0 then (- 1, addr) else (0, sin_addr ifr_broadaddr))"

definition get_ip :: "int \<Rightarrow> int \<Rightarrow> sockaddr_in \<Rightarrow> u32 \<Rightarrow> sys \<Rightarrow> int \<times> u32 \<times> sys" where
  "get_ip sock ioctl_ret ifr_addr addr y =
     (if sock < 0 then (- 1, addr, y)
      else let y = sys_open sock y in
        if ioctl_ret < 0 then (- 2, addr, y)
        else (0, sin_addr ifr_addr, sys_close sock y))"

section \<open>Unix-domain sockets\<close>

definition unix_socket_new :: "int \<Rightarrow> int \<Rightarrow> sys \<Rightarrow> int \<times> sys" where
  "unix_socket_new sock setsockopt_ret y =
     (if sock < 0 then (- 1, y)
      else let y = sys_open sock y in if setsockopt_ret < 0 then (- 1, sys_close sock y) else (sock, y))"

text \<open>\<open>name\<close>: what \<^verbatim>\<open>getsockname\<close> returned and stored.\<close>

definition unix_socket_free :: "int \<times> string \<Rightarrow> bool \<Rightarrow> int \<Rightarrow> sys \<Rightarrow> sys" where
  "unix_socket_free name unlink_ok sockfd y =
     (if sockfd = - 1 then y
      else let (ret, sun_path) = name; y = sys_close sockfd y in
        if ret = 0 \<and> 0 < length sun_path then sys_unlink unlink_ok sun_path y else y)"

record unix_env =
  u_socket :: int
  u_mkstemp :: "open_result list"
  u_now :: int
  u_counter :: int
  u_unlink :: bool
  u_bind :: int
  u_setsockopt :: int

text \<open>
  \<^verbatim>\<open>strcpy\<close> into the 108 bytes of \<^verbatim>\<open>sun_path\<close> is undefined for a longer path. A bound socket shows as an
  empty file. The descriptor that \<^verbatim>\<open>hsb_mkstemp\<close> opened is closed at once, the file it made stays until it is unlinked.
\<close>

definition bind_path :: "unix_env \<Rightarrow> string \<Rightarrow> sys \<Rightarrow> (int \<times> sys) option" where
  "bind_path e path y = (let listenfd = u_socket e; y = sys_unlink (u_unlink e) path y in
     if path \<in> dom (files y) then Some (- 1, sys_close listenfd y)
     else if 108 \<le> length path then None
     else if u_bind e < 0 then Some (- 1, sys_close listenfd (sys_unlink (u_unlink e) path y))
     else let y = y\<lparr>files := (files y)(path \<mapsto> [])\<rparr> in
       if u_setsockopt e < 0 then Some (- 1, sys_close listenfd y) else Some (listenfd, y))"

definition unix_socket_new_listen :: "unix_env \<Rightarrow> string option \<Rightarrow> sys \<Rightarrow> (int \<times> sys) option" where
  "unix_socket_new_listen e unix_path y =
     (if u_socket e < 0 then Some (- 1, y)
      else let y = sys_open (u_socket e) y in
        case unix_path of
          Some path \<Rightarrow> bind_path e path y
        | None \<Rightarrow> do {
            (fd, tried) \<leftarrow> hsb_mkstemp (u_mkstemp e) (u_now e) (u_counter e) ''/tmp/.hsb_unXXXXXX'';
            if fd = - 1 then Some (- 1, sys_close (u_socket e) y)
            else bind_path e (last tried) (sys_close fd (sys_open fd (y\<lparr>files := (files y)(last tried \<mapsto> [])\<rparr>))) })"

text \<open>Nothing is sent for a missing argument; \<open>sent\<close> is what \<^verbatim>\<open>sendto\<close> returned.\<close>

definition unix_socket_send_to :: "int \<Rightarrow> string option \<Rightarrow> buf option \<Rightarrow> int \<Rightarrow> int option" where
  "unix_socket_send_to send_socket to_unix_path data sent =
     (if send_socket < 0 \<or> to_unix_path = None \<or> data = None then Some (- 1)
      else if 108 \<le> length (the to_unix_path) then None
      else Some sent)"

section \<open>The life of a daemon\<close>

record daemon_config =
  pid_file :: string
  unix_listen_path :: string
  unix_listen_fd :: int

definition hsb_core_daemon_config :: daemon_config where
  "hsb_core_daemon_config = \<lparr>pid_file = ''hsb_core_daemon.pid'', unix_listen_path = ''hsb_core_daemon.listen'', unix_listen_fd = - 1\<rparr>"

text \<open>\<^verbatim>\<open>cfg_read_from_mc\<close> is compiled to a constant; \<^verbatim>\<open>GL_total_cfg_info\<close> is an empty struct.\<close>

definition cfg_read_from_mc :: bool where
  "cfg_read_from_mc = True"

definition total_cfg_read :: bool where
  "total_cfg_read = (if \<not> cfg_read_from_mc then False else True)"

record init_env =
  i_daemon :: int
  i_chdir :: int
  i_pid :: int
  i_pid_open :: bool
  i_pid_written :: nat
  i_unix :: unix_env
  i_unlink :: bool

text \<open>
  Paths are relative to the working directory, which the state does not show. \<^verbatim>\<open>daemon\<close> redirects the standard
  descriptors and forks; the process that goes on is the one modelled. \<^verbatim>\<open>umask\<close> and \<^verbatim>\<open>mkdir\<close> of the working directory, whose
  results are not looked at, are left out: permissions and directories are not part of the state, and a directory that
  could not be made shows as a failing \<^verbatim>\<open>chdir\<close>.
\<close>

definition daemon_init :: "init_env \<Rightarrow> daemon_config \<Rightarrow> bool \<Rightarrow> sys \<Rightarrow> (bool \<times> daemon_config \<times> sys) option" where
  "daemon_init e my_daemon background y =
     (if background \<and> i_daemon e = - 1 then Some (False, my_daemon, y)
      else if i_chdir e = - 1 then Some (False, my_daemon, y)
      else if \<not> total_cfg_read then Some (False, my_daemon, y)
      else let (r, fs) = create_pid_file (i_pid_open e) (i_pid_written e) (i_pid e) (files y) (pid_file my_daemon);
            y = y\<lparr>files := fs\<rparr> in
        if r \<noteq> 0 then Some (False, my_daemon, y)
        else do {
          (fd, y) \<leftarrow> unix_socket_new_listen (i_unix e) (Some (unix_listen_path my_daemon)) y;
          if fd = - 1 then
            Some (False, my_daemon, sys_unlink (i_unlink e) (unix_listen_path my_daemon) (sys_unlink (i_unlink e) (pid_file my_daemon) y))
          else Some (True, my_daemon\<lparr>unix_listen_fd := fd\<rparr>, y) })"

text \<open>The process ends here: its descriptors are closed.\<close>

definition daemon_exit :: "bool \<Rightarrow> daemon_config \<Rightarrow> sys \<Rightarrow> sys" where
  "daemon_exit unlink_ok my_daemon y =
     (sys_unlink unlink_ok (unix_listen_path my_daemon) (sys_unlink unlink_ok (pid_file my_daemon) y))\<lparr>open_fds := {}, nonblock := {}\<rparr>"

section \<open>Descriptors\<close>

lemma sys_open_close: "fd \<notin> open_fds y \<Longrightarrow> 0 \<le> fd \<Longrightarrow> open_fds (sys_close fd (sys_open fd y)) = open_fds y"
  by (simp add: sys_open_def sys_close_def)

lemmas sys_defs = sys_open_def sys_close_def sys_unlink_def

text \<open>
  A call either fails and leaves no descriptor open, or returns the one descriptor it opened. A connection is handed over
  in blocking mode, except when it was made at once: then it stays non-blocking.
\<close>

definition balanced :: "int \<Rightarrow> sys \<Rightarrow> int \<times> sys \<Rightarrow> bool" where
  "balanced fd y = (\<lambda>(r, y'). if r = - 1 then open_fds y' = open_fds y else r = fd \<and> 0 \<le> fd \<and> open_fds y' = insert fd (open_fds y))"

lemma connect_nonb_balanced:
  assumes "e_socket e \<notin> open_fds y"
  shows "balanced (e_socket e) y (connect_nonb e ip y)"
    and "connect_nonb e ip y = (r, y') \<Longrightarrow> 0 \<le> r \<Longrightarrow> r \<in> nonblock y' \<longleftrightarrow> e_connect e = 0"
  using assms by (auto simp: balanced_def connect_nonb_def Let_def sys_defs split: if_splits)

lemma open_tcp_listenfd_balanced: "l_socket e \<notin> open_fds y \<Longrightarrow> balanced (l_socket e) y (open_tcp_listenfd e y)"
  by (auto simp: balanced_def open_tcp_listenfd_def Let_def sys_defs)

lemma unix_socket_new_balanced: "sock \<notin> open_fds y \<Longrightarrow> balanced sock y (unix_socket_new sock ret y)"
  by (auto simp: balanced_def unix_socket_new_def Let_def sys_defs)

text \<open>\<^verbatim>\<open>get_ip\<close> loses its socket when the \<^verbatim>\<open>ioctl\<close> fails.\<close>

lemma get_ip_leak:
  assumes "0 \<le> sock" and "sock \<notin> open_fds y" and "get_ip sock ioctl_ret a addr y = (r, addr', y')"
  shows "open_fds y' = (if ioctl_ret < 0 then insert sock (open_fds y) else open_fds y)"
  using assms by (auto simp: get_ip_def Let_def sys_defs)

lemma bind_path_frame:
  assumes "u_socket e \<notin> open_fds y0" and "open_fds y = insert (u_socket e) (open_fds y0)" and "0 \<le> u_socket e"
    and "bind_path e path y = Some (r, y')"
  shows "balanced (u_socket e) y0 (r, y') \<and> (\<forall>p. p \<noteq> path \<longrightarrow> files y' p = files y p) \<and> (0 \<le> r \<longrightarrow> files y' path = Some [])"
proof -
  let ?u = "sys_unlink (u_unlink e) path"
  have u: "open_fds (?u z) = open_fds z" "p \<noteq> path \<Longrightarrow> files (?u z) p = files z p" for z p by (simp_all add: sys_unlink_def)
  have c: "open_fds (sys_close (u_socket e) z) = open_fds y0" "files (sys_close (u_socket e) z) = files z"
    if "open_fds z = open_fds y" for z using that assms(1,2) by (simp_all add: sys_close_def)
  note b = assms(4) [unfolded bind_path_def Let_def]
  consider "path \<in> dom (files (?u y))" "(r, y') = (- 1, sys_close (u_socket e) (?u y))"
    | "(r, y') = (- 1, sys_close (u_socket e) (?u (?u y)))"
    | "(r, y') = (- 1, sys_close (u_socket e) ((?u y)\<lparr>files := (files (?u y))(path \<mapsto> [])\<rparr>))"
    | "(r, y') = (u_socket e, (?u y)\<lparr>files := (files (?u y))(path \<mapsto> [])\<rparr>)"
    using b by (simp split: if_splits)
  then show ?thesis using assms(2,3) by cases (simp_all add: balanced_def u c)
qed

lemma listen_frame:
  assumes "u_socket e \<notin> open_fds y" and "unix_socket_new_listen e (Some path) y = Some (r, y')"
  shows "balanced (u_socket e) y (r, y') \<and> (\<forall>p. p \<noteq> path \<longrightarrow> files y' p = files y p) \<and> (0 \<le> r \<longrightarrow> files y' path = Some [])"
proof (cases "u_socket e < 0")
  case True
  with assms(2) show ?thesis by (auto simp: unix_socket_new_listen_def balanced_def)
next
  case False
  then have o: "open_fds (sys_open (u_socket e) y) = insert (u_socket e) (open_fds y)" "files (sys_open (u_socket e) y) = files y"
    by (simp_all add: sys_open_def)
  have "bind_path e path (sys_open (u_socket e) y) = Some (r, y')" using assms(2) False by (simp add: unix_socket_new_listen_def Let_def)
  from bind_path_frame [OF assms(1) o(1) _ this] False show ?thesis by (simp add: o(2))
qed

text \<open>The temporary file of \<^verbatim>\<open>hsb_mkstemp\<close> is replaced by the socket.\<close>

lemma listen_temporary:
  assumes "u_socket e \<notin> open_fds y" and "unix_socket_new_listen e None y = Some (r, y')" and "fd \<notin> open_fds y"
    and "hsb_mkstemp (u_mkstemp e) (u_now e) (u_counter e) ''/tmp/.hsb_unXXXXXX'' = Some (fd, tried)" and "fd \<noteq> u_socket e"
  shows "balanced (u_socket e) y (r, y')"
proof (cases "u_socket e < 0 \<or> fd = - 1")
  case True
  with assms show ?thesis by (auto simp: unix_socket_new_listen_def balanced_def Let_def sys_defs split: if_splits)
next
  case False
  let ?y = "sys_close fd (sys_open fd ((sys_open (u_socket e) y)\<lparr>files := (files y)(last tried \<mapsto> [])\<rparr>))"
  have "open_fds ?y = insert (u_socket e) (open_fds y)" using False assms(3,5) by (auto simp: sys_defs)
  moreover have "bind_path e (last tried) ?y = Some (r, y')"
    using assms(2,4) False by (simp add: unix_socket_new_listen_def Let_def) (simp add: sys_open_def)
  ultimately show ?thesis using bind_path_frame [OF assms(1)] False by auto
qed

section \<open>Properties\<close>

text \<open>
  C40. The life of a daemon. When \<^verbatim>\<open>daemon_init\<close> succeeds, the pid file can be read back as the
  process id, the control socket is open under its path, and no other file has changed; \<^verbatim>\<open>daemon_exit\<close> then removes the two files, so
  that everything is as it was before without them. When it fails it leaves no descriptor open, and only the two files of the
  daemon can have changed; after a failure to open the control socket both are gone.
\<close>

theorem daemon_life:
  assumes "daemon_init e cfg background y = Some (ok, cfg', y')" and "int_fits (i_pid e)"
    and "pid_file cfg \<noteq> unix_listen_path cfg" and "u_socket (i_unix e) \<notin> open_fds y"
  shows "(ok \<longrightarrow> get_pid_from_file True True (files y') (Some (pid_file cfg)) = Some (i_pid e) \<and>
      unix_listen_fd cfg' \<in> open_fds y' \<and> unix_listen_path cfg \<in> dom (files y') \<and>
      files (daemon_exit True cfg' y') = (files y)(pid_file cfg := None, unix_listen_path cfg := None)) \<and>
    (\<not> ok \<longrightarrow> open_fds y' = open_fds y \<and>
      (i_unlink e \<and> i_chdir e \<noteq> - 1 \<and> (background \<longrightarrow> i_daemon e \<noteq> - 1) \<and> i_pid_open e \<and> length (show_int (i_pid e)) \<le> i_pid_written e
        \<longrightarrow> files y' (pid_file cfg) = None \<and> files y' (unix_listen_path cfg) = None)) \<and>
    (\<forall>p. p \<noteq> pid_file cfg \<and> p \<noteq> unix_listen_path cfg \<longrightarrow> files y' p = files y p)"
proof -
  let ?pid = "pid_file cfg" and ?path = "unix_listen_path cfg"
  let ?early = "background \<and> i_daemon e = - 1 \<or> i_chdir e = - 1"
  let ?fs = "(files y)(?pid \<mapsto> show_int (i_pid e))"
  consider (early) ?early | (pid) "\<not> ?early" "\<not> (i_pid_open e \<and> length (show_int (i_pid e)) \<le> i_pid_written e)"
    | (go) "\<not> ?early" "i_pid_open e" "length (show_int (i_pid e)) \<le> i_pid_written e" by blast
  then show ?thesis
  proof cases
    case early
    with assms(1) have "y' = y" "\<not> ok" by (auto simp: daemon_init_def split: if_splits)
    with early show ?thesis by auto
  next
    case pid
    with assms(1) have "\<not> ok" "open_fds y' = open_fds y" "\<forall>p. p \<noteq> ?pid \<longrightarrow> files y' p = files y p"
      by (auto simp: daemon_init_def total_cfg_read_def cfg_read_from_mc_def create_pid_file_def Let_def split: if_splits)
    with pid show ?thesis by auto
  next
    case go
    note pidf = pid_file_roundtrip [OF assms(2) go(3)]
    from assms(1) go obtain fd z where
      z: "unix_socket_new_listen (i_unix e) (Some ?path) (y\<lparr>files := ?fs\<rparr>) = Some (fd, z)"
      "(ok, cfg', y') = (if fd = - 1 then (False, cfg, sys_unlink (i_unlink e) ?path (sys_unlink (i_unlink e) ?pid z))
         else (True, cfg\<lparr>unix_listen_fd := fd\<rparr>, z))"
      by (auto simp: daemon_init_def total_cfg_read_def cfg_read_from_mc_def pidf(1) Let_def split: if_splits Option.bind_splits)
    have "u_socket (i_unix e) \<notin> open_fds (y\<lparr>files := ?fs\<rparr>)" using assms(4) by simp
    note fr = listen_frame [OF this z(1)]
    show ?thesis
    proof (cases "fd = - 1")
      case True
      with z(2) fr go assms(3) show ?thesis by (auto simp: balanced_def sys_unlink_def)
    next
      case False
      then have ok: "ok" "cfg' = cfg\<lparr>unix_listen_fd := fd\<rparr>" "y' = z" using z(2) by simp_all
      from False fr have fd: "0 \<le> fd" "fd \<in> open_fds z" by (auto simp: balanced_def)
      have f: "files z p = (if p = ?path then Some [] else ?fs p)" for p using fr fd by auto
      then have "files z ?pid = ?fs ?pid" using assms(3) by simp
      with pidf(2) [of "files y" ?pid] have "get_pid_from_file True True (files z) (Some ?pid) = Some (i_pid e)"
        by (simp add: get_pid_from_file_def)
      moreover have "files (daemon_exit True cfg' z) = (files y)(?pid := None, ?path := None)"
        using f by (auto simp: daemon_exit_def sys_unlink_def ok(2))
      ultimately show ?thesis using ok fd f by auto
    qed
  qed
qed

end
