(* ===== verification/Serial_Port.thy ===== *)
theory Serial_Port
  imports Sys_Sockets
begin

text \<open>
  The serial port, \<^verbatim>\<open>lib/serial_utils.c\<close>: speed, frame format and the opening of the device the Zigbee driver reads. The flag bits
  are those of Linux's \<^verbatim>\<open>termios.h\<close>; \<open>get_ok\<close> and \<open>set_ok\<close> are whether \<^verbatim>\<open>tcgetattr\<close> and \<^verbatim>\<open>tcsetattr\<close> succeed;
  \<^verbatim>\<open>set_speed\<close> does not look at the result of its \<^verbatim>\<open>tcgetattr\<close>, which is taken to succeed.
\<close>

section \<open>Flags\<close>

abbreviation (input) CSIZE :: u32 where "CSIZE \<equiv> 0x30"
abbreviation (input) CS7 :: u32 where "CS7 \<equiv> 0x20"
abbreviation (input) CS8 :: u32 where "CS8 \<equiv> 0x30"
abbreviation (input) CSTOPB :: u32 where "CSTOPB \<equiv> 0x40"
abbreviation (input) PARENB :: u32 where "PARENB \<equiv> 0x100"
abbreviation (input) PARODD :: u32 where "PARODD \<equiv> 0x200"
abbreviation (input) PARMRK :: u32 where "PARMRK \<equiv> 0x8"
abbreviation (input) INPCK :: u32 where "INPCK \<equiv> 0x10"
abbreviation (input) ISTRIP :: u32 where "ISTRIP \<equiv> 0x20"
abbreviation (input) INLCR :: u32 where "INLCR \<equiv> 0x40"
abbreviation (input) IGNCR :: u32 where "IGNCR \<equiv> 0x80"
abbreviation (input) ICRNL :: u32 where "ICRNL \<equiv> 0x100"
abbreviation (input) IUCLC :: u32 where "IUCLC \<equiv> 0x200"
abbreviation (input) IXON :: u32 where "IXON \<equiv> 0x400"
abbreviation (input) IXOFF :: u32 where "IXOFF \<equiv> 0x1000"
abbreviation (input) ISIG :: u32 where "ISIG \<equiv> 0x1"
abbreviation (input) ICANON :: u32 where "ICANON \<equiv> 0x2"
abbreviation (input) ECHO :: u32 where "ECHO \<equiv> 0x8"
abbreviation (input) ECHOE :: u32 where "ECHOE \<equiv> 0x10"
abbreviation (input) OPOST :: u32 where "OPOST \<equiv> 0x1"

section \<open>Speed\<close>

definition speed_arr :: "u32 list" where
  "speed_arr = [0x1002, 0xF, 0xE, 0xD, 0xC, 0xB, 0x9, 0x7, 0xF, 0xE, 0xD, 0xC, 0xB, 0x9, 0x7]"

definition name_arr :: "int list" where
  "name_arr = [115200, 38400, 19200, 9600, 4800, 2400, 1200, 300, 38400, 19200, 9600, 4800, 2400, 1200, 300]"

fun set_speed_loop :: "nat list \<Rightarrow> bool \<Rightarrow> int \<Rightarrow> int \<Rightarrow> termios \<Rightarrow> sys \<Rightarrow> sys option" where
  "set_speed_loop [] set_ok fd speed Opt y = Some y"
| "set_speed_loop (i # is) set_ok fd speed Opt y = do {
     name \<leftarrow> arr_get name_arr i;
     if speed = name then do {
       s \<leftarrow> arr_get speed_arr i;
       let Opt = Opt\<lparr>c_speed := s\<rparr>;
       Some (if set_ok then y\<lparr>ttys := (ttys y)(fd := Opt)\<rparr> else y) }
     else set_speed_loop is set_ok fd speed Opt y }"

definition set_speed :: "bool \<Rightarrow> int \<Rightarrow> int \<Rightarrow> sys \<Rightarrow> sys option" where
  "set_speed set_ok fd speed y = set_speed_loop [0..<length speed_arr] set_ok fd speed (ttys y fd) y"

section \<open>Frame format\<close>

definition set_databits :: "int \<Rightarrow> termios \<Rightarrow> termios option" where
  "set_databits databits t = (let t = t\<lparr>c_cflag := c_cflag t AND NOT CSIZE\<rparr> in
     if databits = 7 then Some (t\<lparr>c_cflag := c_cflag t OR CS7\<rparr>)
     else if databits = 8 then Some (t\<lparr>c_cflag := c_cflag t OR CS8\<rparr>)
     else None)"

definition set_parity_bits :: "char \<Rightarrow> termios \<Rightarrow> termios option" where
  "set_parity_bits parity t =
     (if parity = CHR ''n'' \<or> parity = CHR ''N'' then
        Some (t\<lparr>c_cflag := c_cflag t AND NOT PARENB, c_iflag := c_iflag t AND NOT INPCK\<rparr>)
      else if parity = CHR ''o'' \<or> parity = CHR ''O'' then
        Some (t\<lparr>c_cflag := c_cflag t OR (PARODD OR PARENB), c_iflag := c_iflag t OR INPCK\<rparr>)
      else if parity = CHR ''e'' \<or> parity = CHR ''E'' then
        Some (t\<lparr>c_cflag := (c_cflag t OR PARENB) AND NOT PARODD, c_iflag := c_iflag t OR INPCK\<rparr>)
      else if parity = CHR ''S'' \<or> parity = CHR ''s'' then
        Some (t\<lparr>c_cflag := (c_cflag t AND NOT PARENB) AND NOT CSTOPB\<rparr>)
      else None)"

definition set_stopbits :: "int \<Rightarrow> termios \<Rightarrow> termios option" where
  "set_stopbits stopbits t =
     (if stopbits = 1 then Some (t\<lparr>c_cflag := c_cflag t AND NOT CSTOPB\<rparr>)
      else if stopbits = 2 then Some (t\<lparr>c_cflag := c_cflag t OR CSTOPB\<rparr>)
      else None)"

text \<open>Raw mode with a time-out of 15 seconds.\<close>

definition set_raw :: "char \<Rightarrow> termios \<Rightarrow> termios" where
  "set_raw parity t = (let
     t = (if parity \<noteq> CHR ''n'' then t\<lparr>c_iflag := c_iflag t OR INPCK\<rparr> else t);
     t = t\<lparr>c_vtime := 150, c_vmin := 0\<rparr>;
     t = t\<lparr>c_lflag := c_lflag t AND NOT (ICANON OR ECHO OR ECHOE OR ISIG)\<rparr>;
     t = t\<lparr>c_iflag := c_iflag t AND NOT (ISTRIP OR IUCLC OR IGNCR OR ICRNL OR INLCR OR IXON OR PARMRK)\<rparr>
     in t\<lparr>c_oflag := c_oflag t AND NOT (OPOST OR IXON OR IXOFF)\<rparr>)"

definition set_Parity :: "bool \<Rightarrow> bool \<Rightarrow> int \<Rightarrow> int \<Rightarrow> int \<Rightarrow> char \<Rightarrow> sys \<Rightarrow> int \<times> sys" where
  "set_Parity get_ok set_ok fd databits stopbits parity y =
     (if \<not> get_ok then (0, y)
      else case (do {
          t \<leftarrow> set_databits databits (ttys y fd);
          t \<leftarrow> set_parity_bits parity t;
          t \<leftarrow> set_stopbits stopbits t;
          Some (set_raw parity t) }) of
        None \<Rightarrow> (0, y)
      | Some t \<Rightarrow> if \<not> set_ok then (0, y) else (1, y\<lparr>ttys := (ttys y)(fd := t)\<rparr>))"

section \<open>Opening\<close>

definition OpenDev :: "int \<Rightarrow> sys \<Rightarrow> int \<times> sys" where
  "OpenDev fd y = (let y = sys_open fd y in if fd = - 1 then (- 1, y) else (fd, y))"

record serial_env =
  s_open :: int
  s_get :: bool
  s_set_speed :: bool
  s_set :: bool

definition open_serial_fd :: "serial_env \<Rightarrow> string option \<Rightarrow> int \<Rightarrow> sys \<Rightarrow> (int \<times> sys) option" where
  "open_serial_fd e dev baud_rate y =
     (if dev = None then Some (- 1, y)
      else let baud_rate = (if baud_rate = 0 then 115200 else baud_rate); (fd, y) = OpenDev (s_open e) y in
        if fd < 0 then Some (- 1, y)
        else do {
          y \<leftarrow> set_speed (s_set_speed e) fd baud_rate y;
          let (r, y) = set_Parity (s_get e) (s_set e) fd 8 1 (CHR ''n'') y;
          if r = 0 then Some (- 1, sys_close fd y) else Some (fd, y) })"

section \<open>What an open port looks like\<close>

lemma set_speed_loop_eq:
  assumes "set is \<subseteq> {..<15}"
  shows "set_speed_loop is set_ok fd speed Opt y = Some (case find (\<lambda>i. name_arr ! i = speed) is of
     None \<Rightarrow> y | Some i \<Rightarrow> if set_ok then y\<lparr>ttys := (ttys y)(fd := Opt\<lparr>c_speed := speed_arr ! i\<rparr>)\<rparr> else y)"
proof -
  have "length name_arr = 15" "length speed_arr = 15" by (simp_all add: name_arr_def speed_arr_def)
  with assms show ?thesis by (induction "is") (auto simp: arr_get_def)
qed

text \<open>The speeds the code knows; for any other the port keeps the speed it had.\<close>

lemma set_speed_eq: "set_speed True fd speed y = Some (case map_of (zip name_arr speed_arr) speed of
    None \<Rightarrow> y | Some s \<Rightarrow> y\<lparr>ttys := (ttys y)(fd := (ttys y fd)\<lparr>c_speed := s\<rparr>)\<rparr>)"
proof -
  have l: "length speed_arr = 15" by (simp add: speed_arr_def)
  have u: "[0..<15] = [0, 1, 2, 3, 4, 5, 6, 7, 8, 9, 10, 11, 12, 13, 14 :: nat]" by code_simp
  show ?thesis unfolding set_speed_def l by (subst set_speed_loop_eq) (auto simp: u name_arr_def speed_arr_def)
qed

lemma set_Parity_8n1:
  "set_Parity True True fd 8 1 (CHR ''n'') y = (1, y\<lparr>ttys := (ttys y)(fd := set_raw (CHR ''n'') ((ttys y fd)
    \<lparr>c_iflag := c_iflag (ttys y fd) AND NOT INPCK,
     c_cflag := (((c_cflag (ttys y fd) AND NOT CSIZE) OR CS8) AND NOT PARENB) AND NOT CSTOPB\<rparr>))\<rparr>)"
  by (simp add: set_Parity_def set_databits_def set_parity_bits_def set_stopbits_def Let_def)

definition raw_8n1 :: "termios \<Rightarrow> bool" where
  "raw_8n1 t \<longleftrightarrow> c_cflag t AND (CSIZE OR PARENB OR CSTOPB) = CS8 \<and>
     c_lflag t AND (ICANON OR ECHO OR ECHOE OR ISIG) = 0 \<and>
     c_iflag t AND (ISTRIP OR IUCLC OR IGNCR OR ICRNL OR INLCR OR IXON OR PARMRK OR INPCK) = 0 \<and>
     c_oflag t AND OPOST = 0 \<and> c_vmin t = 0"

lemma raw_8n1_set:
  "raw_8n1 (set_raw (CHR ''n'') (t\<lparr>c_iflag := z AND NOT INPCK, c_cflag := (((x AND NOT CSIZE) OR CS8) AND NOT PARENB) AND NOT CSTOPB\<rparr>))"
  by (simp add: raw_8n1_def set_raw_def bit.conj_disj_distrib bit.conj_disj_distrib2 and.assoc)

text \<open>
  A port that is open has eight data bits, no parity, one stop bit, and is raw: no line editing, echo or signals, no translation of
  what is received; asked for 115200, or for no speed, it runs at 115200. A failure leaves no descriptor open.
\<close>

lemma open_serial_fd_raw:
  assumes "open_serial_fd e dev baud y = Some (fd, y')" and "s_open e \<notin> open_fds y" and "s_set_speed e"
  shows "if 0 \<le> fd then fd = s_open e \<and> open_fds y' = insert fd (open_fds y) \<and> raw_8n1 (ttys y' fd) \<and>
      (baud \<in> {0, 115200} \<longrightarrow> c_speed (ttys y' fd) = 0x1002)
    else open_fds y' = open_fds y"
proof (cases "dev = None \<or> s_open e < 0")
  case True
  with assms(1) show ?thesis by (auto simp: open_serial_fd_def OpenDev_def sys_open_def split: if_splits)
next
  case False
  let ?f = "s_open e" and ?b = "if baud = 0 then 115200 else baud"
  let ?y = "sys_open ?f y"
  let ?m = "map_of (zip name_arr speed_arr) ?b"
  have m: "baud \<in> {0, 115200} \<Longrightarrow> ?m = Some 0x1002" by (auto simp: name_arr_def speed_arr_def)
  define y1 where "y1 = (case ?m of None \<Rightarrow> ?y | Some s \<Rightarrow> ?y\<lparr>ttys := (ttys ?y)(?f := (ttys ?y ?f)\<lparr>c_speed := s\<rparr>)\<rparr>)"
  have y1: "set_speed True ?f ?b ?y = Some y1" "open_fds y1 = insert ?f (open_fds y)"
    using False by (simp_all add: set_speed_eq y1_def sys_open_def split: option.split)
  have sp: "baud \<in> {0, 115200} \<Longrightarrow> c_speed (ttys y1 ?f) = 0x1002" using m by (simp add: y1_def)
  have e: "open_serial_fd e dev baud y = (let (r, z) = set_Parity (s_get e) (s_set e) ?f 8 1 (CHR ''n'') y1 in
      if r = 0 then Some (- 1, sys_close ?f z) else Some (?f, z))"
    using False y1(1) assms(3) by (auto simp: open_serial_fd_def OpenDev_def)
  show ?thesis
  proof (cases "s_get e \<and> s_set e")
    case True
    let ?t = "set_raw (CHR ''n'') ((ttys y1 ?f)\<lparr>c_iflag := c_iflag (ttys y1 ?f) AND NOT INPCK,
      c_cflag := (((c_cflag (ttys y1 ?f) AND NOT CSIZE) OR CS8) AND NOT PARENB) AND NOT CSTOPB\<rparr>)"
    from True have "fd = ?f" "y' = y1\<lparr>ttys := (ttys y1)(?f := ?t)\<rparr>" using assms(1) unfolding e by (auto simp: set_Parity_8n1)
    moreover have "raw_8n1 ?t" by (rule raw_8n1_set)
    moreover have "c_speed ?t = c_speed (ttys y1 ?f)" by (simp add: set_raw_def)
    ultimately show ?thesis using False y1(2) sp by simp
  next
    case f: False
    then have "fst (set_Parity (s_get e) (s_set e) ?f 8 1 (CHR ''n'') y1) = 0 \<and> snd (set_Parity (s_get e) (s_set e) ?f 8 1 (CHR ''n'') y1) = y1"
      by (auto simp: set_Parity_def set_databits_def set_parity_bits_def set_stopbits_def Let_def)
    with assms(1) y1(2) assms(2) show ?thesis unfolding e by (auto simp: split_beta sys_close_def)
  qed
qed

end
