(* ===== verification/Core_Main.thy ===== *)
theory Core_Main
  imports Core_Daemon Serial_Port
begin

text \<open>
  The whole \<^verbatim>\<open>main\<close> of \<^verbatim>\<open>core_daemon/core_daemon.c\<close> up to its loop, over both parts of the state: what the process holds of
  the system and the box. Command line, \<^verbatim>\<open>daemon_init\<close>, network and devices, in the order of the code, with
  every socket, port and file that start-up opens.
\<close>

section \<open>The command line\<close>

text \<open>
  \<^verbatim>\<open>getopt\<close> for the options \<^verbatim>\<open>d:b\<close>, as the list of what it returns: letters can be joined in one word, the argument of \<^verbatim>\<open>d\<close> is
  the rest of its word or the next word, words without a dash are passed over, \<^verbatim>\<open>?\<close> stands for an
  unknown letter or a missing argument.
\<close>

fun getopt :: "string list \<Rightarrow> (char \<times> string) list" and getopt_word :: "string \<Rightarrow> string list \<Rightarrow> (char \<times> string) list" where
  "getopt [] = []"
| "getopt (a # as) =
     (if a = ''--'' then []
      else if take 1 a \<noteq> ''-'' \<or> a = ''-'' then getopt as
      else getopt_word (tl a) as)"
| "getopt_word [] as = getopt as"
| "getopt_word (c # cs) as =
     (if c = CHR ''d'' then
        if cs \<noteq> [] then (c, cs) # getopt as
        else case as of [] \<Rightarrow> [(CHR ''?'', [])] | x # xs \<Rightarrow> (c, x) # getopt xs
      else if c = CHR ''b'' then (c, []) # getopt_word cs as
      else (CHR ''?'', []) # getopt_word cs as)"

definition option_body :: "char \<times> string \<Rightarrow> bool \<times> int \<Rightarrow> (bool \<times> int) option" where
  "option_body o1 = (\<lambda>(background, debug_verbose). case o1 of (opt, optarg) \<Rightarrow>
     if opt = CHR ''b'' then Some (True, debug_verbose)
     else if opt = CHR ''d'' then map_option (Pair background) (atoi optarg)
     else Some (background, debug_verbose))"

definition DEBUG_DEFAULT_LEVEL :: int where
  "DEBUG_DEFAULT_LEVEL = 3"

definition parse_options :: "string list \<Rightarrow> (bool \<times> int) option" where
  "parse_options argv = for_list option_body (getopt (tl argv)) (False, DEBUG_DEFAULT_LEVEL)"

section \<open>\<^verbatim>\<open>main\<close>\<close>

text \<open>
  What the system answers during start-up: whether the two threads of the network could be created (\<open>m_udp\<close>, \<open>m_tcp\<close>), the
  sockets of the UDP and TCP listeners and of the monitor of the virtual switches, the serial port, the notification
  socket of the Zigbee monitor, the sockets of the two probes, and what the drivers receive.
\<close>

record main_env =
  m_init :: init_env
  m_udp :: bool
  m_tcp :: bool
  m_udp_sock :: listen_env
  m_tcp_sock :: listen_env
  m_vs_sock :: listen_env
  m_serial :: serial_env
  m_cz_sock :: unix_env
  m_vs_probe :: int
  m_cz_probe :: int
  m_cz_probe_opt :: int
  m_cz_probe_name :: "int \<times> string"
  m_cz_probe_unlink :: bool
  m_drv :: drv_env

text \<open>
  A thread opens its socket before its loop. These calls are run where the thread is created: they touch descriptors and
  files only, so it does not matter how the scheduler orders them among the steps of \<^verbatim>\<open>main\<close>. The threads of the drivers and of
  the request queue are taken to be created; their results are not looked at by \<^verbatim>\<open>init_dev_module\<close>.
\<close>

definition start_network :: "main_env \<Rightarrow> sys \<Rightarrow> box \<Rightarrow> int \<times> sys \<times> box" where
  "start_network e y s =
     (let (r, s) = init_network_module (m_udp e) (m_tcp e) s in
      if \<not> m_udp e then (r, y, s)
      else let (sockfd, y) = open_udp_listenfd (m_udp_sock e) y in
        if \<not> m_tcp e then (r, y, s)
        else let (listenfd, y) = open_tcp_listenfd (m_tcp_sock e) y in (r, y, s))"

definition start_virtual_switch :: "main_env \<Rightarrow> sys \<Rightarrow> box \<Rightarrow> int \<times> sys \<times> box" where
  "start_virtual_switch e y s =
     (let (fd, y) = open_udp_listenfd (m_vs_sock e) y; (r, s) = init_virtual_switch_drv s in (r, y, s))"

definition cz_listen_path :: string where
  "cz_listen_path = ''/tmp/hsb/driver_cz.listen''"

definition start_cz :: "main_env \<Rightarrow> sys \<Rightarrow> box \<Rightarrow> (int \<times> sys \<times> box) option" where
  "start_cz e y s = do {
     (fd, y) \<leftarrow> open_serial_fd (m_serial e) (Some ''/dev/ttyUSB0'') 115200 y;
     let (r, s) = init_cz_drv fd s;
     if fd < 0 then Some (r, y, s)
     else do {
       (unfd, y) \<leftarrow> unix_socket_new_listen (m_cz_sock e) (Some cz_listen_path) y;
       Some (r, y, s)
     }
   }"

text \<open>A probe opens a socket of its own and closes it: \<^verbatim>\<open>virtual_switch_probe\<close>, and \<^verbatim>\<open>notify_process\<close> in \<^verbatim>\<open>cz_probe\<close>.\<close>

definition start_probe :: "main_env \<Rightarrow> HSB_DEV_DRV_T \<Rightarrow> sys \<times> box \<Rightarrow> (sys \<times> box) option" where
  "start_probe e drv = (\<lambda>(y, s). do {
     op \<leftarrow> drv_op drv;
     case op of
       virtual_switch_drv_op \<Rightarrow> do {
         let (sockfd, y) = open_udp_clientfd (m_vs_probe e) y;
         (r, s) \<leftarrow> drv_probe (m_drv e) op s;
         Some (sys_close sockfd y, s)
       }
     | cz_drv_op \<Rightarrow> do {
         let (fd, y) = unix_socket_new (m_cz_probe e) (m_cz_probe_opt e) y;
         (r, s) \<leftarrow> drv_probe (m_drv e) op s;
         Some (unix_socket_free (m_cz_probe_name e) (m_cz_probe_unlink e) fd y, s)
       }
   })"

definition start_devices :: "main_env \<Rightarrow> sys \<Rightarrow> box \<Rightarrow> (int \<times> sys \<times> box) option" where
  "start_devices e y s = do {
     let s = dev_cb_update (\<lambda>c. c\<lparr>cb_queue := [], cb_mutex := False, cb_driverq := [], cb_offq := [],
       cb_dev_id := 1\<rparr>) s;
     (r, s) \<leftarrow> init_private_thread s;
     let (r, y, s) = start_virtual_switch e y s;
     (r, y, s) \<leftarrow> start_cz e y s;
     (y, s) \<leftarrow> for_list (start_probe e) (cb_driverq (dev_cb s)) (y, s);
     Some (0, y, s)
   }"

text \<open>False: the process has called \<^verbatim>\<open>exit\<close>. The number is \<^verbatim>\<open>debug_verbose\<close>.\<close>

definition core_main :: "main_env \<Rightarrow> string list \<Rightarrow> sys \<Rightarrow> box \<Rightarrow> (bool \<times> int \<times> daemon_config \<times> sys \<times> box) option" where
  "core_main e argv y s = do {
     (background, debug_verbose) \<leftarrow> parse_options argv;
     (ok, cfg, y) \<leftarrow> daemon_init (m_init e) hsb_core_daemon_config background y;
     if \<not> ok then Some (False, debug_verbose, cfg, y, s)
     else let (r, y, s) = start_network e y s in
       if r \<noteq> 0 then Some (False, debug_verbose, cfg, y, s)
       else do {
         (r, y, s) \<leftarrow> start_devices e y s;
         Some (r = 0, debug_verbose, cfg, y, s)
       }
   }"

section \<open>The steps of the start\<close>

text \<open>Every system call of \<^verbatim>\<open>daemon_init\<close> succeeds.\<close>

definition init_works :: "init_env \<Rightarrow> bool" where
  "init_works e \<longleftrightarrow> i_daemon e \<noteq> - 1 \<and> i_chdir e \<noteq> - 1 \<and> int_fits (i_pid e) \<and> i_pid_open e \<and> length (show_int (i_pid e)) \<le> i_pid_written e \<and>
     0 \<le> u_socket (i_unix e) \<and> u_unlink (i_unix e) \<and> 0 \<le> u_bind (i_unix e) \<and> 0 \<le> u_setsockopt (i_unix e)"

definition serial_works :: "serial_env \<Rightarrow> bool" where
  "serial_works e \<longleftrightarrow> 0 \<le> s_open e \<and> s_get e \<and> s_set_speed e \<and> s_set e"

lemma daemon_init_up:
  assumes "init_works e" and "pid_file cfg \<noteq> unix_listen_path cfg" and "length (unix_listen_path cfg) < 108"
  shows "\<exists>y'. daemon_init e cfg background y = Some (True, cfg\<lparr>unix_listen_fd := u_socket (i_unix e)\<rparr>, y') \<and>
    open_fds y' = insert (u_socket (i_unix e)) (open_fds y) \<and>
    files y' = (files y)(pid_file cfg \<mapsto> show_int (i_pid e), unix_listen_path cfg \<mapsto> []) \<and>
    get_pid_from_file True True (files y') (Some (pid_file cfg)) = Some (i_pid e)"
proof -
  have w: "int_fits (i_pid e)" "length (show_int (i_pid e)) \<le> i_pid_written e" using assms(1) by (simp_all add: init_works_def)
  note pidf = pid_file_roundtrip [OF w]
  let ?fs = "(files y)(pid_file cfg \<mapsto> show_int (i_pid e), unix_listen_path cfg \<mapsto> [])"
  have "get_pid_from_file True True ?fs (Some (pid_file cfg)) = Some (i_pid e)"
    using pidf(2) [of "files y" "pid_file cfg"] assms(2) by (simp add: get_pid_from_file_def)
  with assms pidf(1) show ?thesis
    by (simp add: daemon_init_def init_works_def total_cfg_read_def cfg_read_from_mc_def Let_def unix_socket_new_listen_def
        bind_path_def sys_open_def sys_unlink_def)
qed

lemma open_serial_works:
  assumes "serial_works e"
  shows "runs (open_serial_fd e (Some dev) baud y) (\<lambda>(fd, y'). fd = s_open e \<and> files y' = files y)"
proof -
  let ?b = "if baud = 0 then 115200 else baud"
  have e: "s_set_speed e = True" "s_get e = True" "s_set e = True" "0 \<le> s_open e" using assms by (simp_all add: serial_works_def)
  show ?thesis using e(4)
    by (auto simp: open_serial_fd_def OpenDev_def e(1,2,3) set_speed_eq set_Parity_8n1 sys_open_def Let_def split: option.split)
qed

text \<open>The daemon goes into the background exactly when a \<^verbatim>\<open>-b\<close> was read; the last \<^verbatim>\<open>-d\<close> gives the level of the messages.\<close>

lemma options_background:
  "for_list option_body os (bg, lv) = Some (background, level) \<Longrightarrow> background \<longleftrightarrow> bg \<or> (\<exists>a. (CHR ''b'', a) \<in> set os)"
proof (induction os arbitrary: bg lv)
  case (Cons o1 os)
  then show ?case by (cases o1) (auto simp: option_body_def split: if_splits option.splits Option.bind_splits)
qed simp

text \<open>Every socket of start-up can be opened and bound; the socket that \<^verbatim>\<open>notify_process\<close> sends from has no name.\<close>

definition sockets_work :: "main_env \<Rightarrow> bool" where
  "sockets_work e \<longleftrightarrow> m_udp e \<and> m_tcp e \<and> 0 \<le> l_socket (m_udp_sock e) \<and>
     0 \<le> l_socket (m_tcp_sock e) \<and> 0 \<le> l_setsockopt (m_tcp_sock e) \<and> 0 \<le> l_bind (m_tcp_sock e) \<and> 0 \<le> l_listen (m_tcp_sock e) \<and>
     0 \<le> l_socket (m_vs_sock e) \<and> 0 \<le> u_socket (m_cz_sock e) \<and> u_unlink (m_cz_sock e) \<and> 0 \<le> u_bind (m_cz_sock e) \<and>
     0 \<le> u_setsockopt (m_cz_sock e) \<and> 0 \<le> m_vs_probe e \<and> 0 \<le> m_cz_probe e \<and> 0 \<le> m_cz_probe_opt e \<and> m_cz_probe_name e = (0, [])"

text \<open>The descriptors that stay open, and those of the probes.\<close>

definition kept_fds :: "main_env \<Rightarrow> int list" where
  "kept_fds e = [u_socket (i_unix (m_init e)), l_socket (m_udp_sock e), l_socket (m_tcp_sock e), l_socket (m_vs_sock e),
     s_open (m_serial e), u_socket (m_cz_sock e)]"

definition fresh_fds :: "main_env \<Rightarrow> sys \<Rightarrow> bool" where
  "fresh_fds e y \<longleftrightarrow> distinct (kept_fds e) \<and> set (kept_fds e) \<inter> open_fds y = {} \<and>
     {m_vs_probe e, m_cz_probe e} \<inter> (set (kept_fds e) \<union> open_fds y) = {}"

definition same_sys :: "sys \<Rightarrow> sys \<Rightarrow> bool" where
  "same_sys y y' \<longleftrightarrow> open_fds y' = open_fds y \<and> ttys y' = ttys y \<and> files y' = files y"

lemma start_network_works:
  assumes "sockets_work e"
  shows "\<exists>y'. start_network e y s = (0, y', init_client_pool s) \<and>
    open_fds y' = {l_socket (m_udp_sock e), l_socket (m_tcp_sock e)} \<union> open_fds y \<and> ttys y' = ttys y \<and> files y' = files y"
  using assms by (auto simp: start_network_def sockets_work_def init_network_module_def open_udp_listenfd_def open_tcp_listenfd_def
      sys_open_def Let_def)

text \<open>The probes leave no descriptor behind, and act on the box as \<^verbatim>\<open>probe_all_devices\<close>.\<close>

lemma start_probe_works:
  assumes "sockets_work e" and "m_vs_probe e \<notin> open_fds y" and "m_cz_probe e \<notin> open_fds y" and "probe_all_body (m_drv e) drv s = Some t"
  shows "\<exists>y'. start_probe e drv (y, s) = Some (y', t) \<and> same_sys y y'"
proof -
  from assms(4) obtain op r where op: "drv_op drv = Some op" "drv_probe (m_drv e) op s = Some (r, t)"
    by (auto simp: probe_all_body_def split: Option.bind_splits)
  then show ?thesis using assms(1-3)
    by (cases op) (simp_all add: start_probe_def open_udp_clientfd_def unix_socket_new_def unix_socket_free_def sockets_work_def
        same_sys_def sys_defs)
qed

lemma start_probes_work:
  assumes "sockets_work e" and "m_vs_probe e \<notin> open_fds y" and "m_cz_probe e \<notin> open_fds y"
    and "for_list (probe_all_body (m_drv e)) ds s = Some t"
  shows "\<exists>y'. for_list (start_probe e) ds (y, s) = Some (y', t) \<and> same_sys y y'"
  using assms(2-)
proof (induction ds arbitrary: y s)
  case Nil
  then show ?case by (simp add: same_sys_def)
next
  case (Cons d ds)
  from Cons.prems(3) obtain u where u: "probe_all_body (m_drv e) d s = Some u" "for_list (probe_all_body (m_drv e)) ds u = Some t"
    by (auto split: Option.bind_splits)
  from start_probe_works [OF assms(1) Cons.prems(1,2) u(1)] obtain y1 where
    y1: "start_probe e d (y, s) = Some (y1, u)" "same_sys y y1" by blast
  then have "m_vs_probe e \<notin> open_fds y1" "m_cz_probe e \<notin> open_fds y1" using Cons.prems(1,2) by (simp_all add: same_sys_def)
  from Cons.IH [OF this u(2)] y1 show ?case by (auto simp: same_sys_def)
qed

lemma start_cz_works:
  assumes "sockets_work e" and "serial_works (m_serial e)" and "s_open (m_serial e) \<notin> open_fds y" and "init_cz_drv (s_open (m_serial e)) s = (r, t)"
  shows "\<exists>y'. start_cz e y s = Some (r, y', t) \<and> open_fds y' = {s_open (m_serial e), u_socket (m_cz_sock e)} \<union> open_fds y \<and>
    raw_8n1 (ttys y' (s_open (m_serial e))) \<and> c_speed (ttys y' (s_open (m_serial e))) = 0x1002 \<and> files y' = (files y)(cz_listen_path \<mapsto> [])"
proof -
  let ?f = "s_open (m_serial e)"
  obtain z where z: "open_serial_fd (m_serial e) (Some ''/dev/ttyUSB0'') 115200 y = Some (?f, z)" "files z = files y"
    using open_serial_works [OF assms(2), of "''/dev/ttyUSB0''" 115200 y] by (auto elim!: runsE)
  have f: "0 \<le> ?f" "s_set_speed (m_serial e)" using assms(2) by (simp_all add: serial_works_def)
  from open_serial_fd_raw [OF z(1) assms(3) f(2)] f(1) have
    o: "open_fds z = insert ?f (open_fds y)" "raw_8n1 (ttys z ?f)" "c_speed (ttys z ?f) = 0x1002" by auto
  have "length cz_listen_path < 108" by (simp add: cz_listen_path_def)
  then have "\<exists>y'. unix_socket_new_listen (m_cz_sock e) (Some cz_listen_path) z = Some (u_socket (m_cz_sock e), y') \<and>
    open_fds y' = insert (u_socket (m_cz_sock e)) (open_fds z) \<and> ttys y' = ttys z \<and> files y' = (files z)(cz_listen_path \<mapsto> [])"
    using assms(1) by (simp add: sockets_work_def unix_socket_new_listen_def bind_path_def sys_open_def sys_unlink_def Let_def)
  with z o f(1) assms(4) show ?thesis by (auto simp: start_cz_def)
qed

lemma start_devices_works:
  assumes "sockets_work e" and "serial_works (m_serial e)" and "init_dev_module (m_drv e) (s_open (m_serial e)) s = Some (r, t)"
    and "s_open (m_serial e) \<notin> insert (l_socket (m_vs_sock e)) (open_fds y)"
    and "{m_vs_probe e, m_cz_probe e} \<inter> ({l_socket (m_vs_sock e), s_open (m_serial e), u_socket (m_cz_sock e)} \<union> open_fds y) = {}"
  shows "\<exists>y'. start_devices e y s = Some (r, y', t) \<and>
    open_fds y' = {l_socket (m_vs_sock e), s_open (m_serial e), u_socket (m_cz_sock e)} \<union> open_fds y \<and>
    raw_8n1 (ttys y' (s_open (m_serial e))) \<and> c_speed (ttys y' (s_open (m_serial e))) = 0x1002 \<and> files y' = (files y)(cz_listen_path \<mapsto> [])"
proof -
  let ?s = "dev_cb_update (\<lambda>c. c\<lparr>cb_queue := [], cb_mutex := False, cb_driverq := [], cb_offq := [], cb_dev_id := 1\<rparr>) s"
  obtain r1 s1 r2 s2 r3 s3 where c: "init_private_thread ?s = Some (r1, s1)" "init_virtual_switch_drv s1 = (r2, s2)"
    "init_cz_drv (s_open (m_serial e)) s2 = (r3, s3)" "for_list (probe_all_body (m_drv e)) (cb_driverq (dev_cb s3)) s3 = Some t" "r = 0"
    using assms(3) by (auto simp: init_dev_module_def probe_all_devices_def split: prod.splits Option.bind_splits)
  let ?y = "sys_open (l_socket (m_vs_sock e)) y"
  have y: "open_fds ?y = insert (l_socket (m_vs_sock e)) (open_fds y)" "files ?y = files y"
    using assms(1) by (simp_all add: sockets_work_def sys_open_def)
  have "s_open (m_serial e) \<notin> open_fds ?y" using assms(4) y(1) by simp
  from start_cz_works [OF assms(1,2) this c(3)] obtain z where z: "start_cz e ?y s2 = Some (r3, z, s3)"
    "open_fds z = {s_open (m_serial e), u_socket (m_cz_sock e)} \<union> open_fds ?y" "raw_8n1 (ttys z (s_open (m_serial e)))"
    "c_speed (ttys z (s_open (m_serial e))) = 0x1002" "files z = (files ?y)(cz_listen_path \<mapsto> [])" by blast
  have "m_vs_probe e \<notin> open_fds z" "m_cz_probe e \<notin> open_fds z" using assms(5) z(2) y(1) by auto
  from start_probes_work [OF assms(1) this c(4)] obtain w where
    "for_list (start_probe e) (cb_driverq (dev_cb s3)) (z, s3) = Some (w, t)" "same_sys z w" by blast
  with z y c(1,2,5) show ?thesis
    by (auto simp: start_devices_def start_virtual_switch_def open_udp_listenfd_def same_sys_def)
qed

lemma config_paths:
  "pid_file hsb_core_daemon_config \<noteq> unix_listen_path hsb_core_daemon_config" "length (unix_listen_path hsb_core_daemon_config) < 108"
  "pid_file hsb_core_daemon_config \<noteq> cz_listen_path"
  by (simp_all add: hsb_core_daemon_config_def cz_listen_path_def)

text \<open>An exit after \<^verbatim>\<open>daemon_init\<close> leaves the pid file and the control socket behind: \<^verbatim>\<open>main\<close> does not call \<^verbatim>\<open>daemon_exit\<close>.\<close>

lemma core_main_exit_leaves_files:
  assumes "parse_options argv = Some (background, level)" and "init_works (m_init e)" and "\<not> (m_udp e \<and> m_tcp e)"
  shows "runs (core_main e argv y s) (\<lambda>(run, lv, cfg, y', t). \<not> run \<and> pid_file hsb_core_daemon_config \<in> dom (files y') \<and> unix_listen_path hsb_core_daemon_config \<in> dom (files y'))"
proof -
  from daemon_init_up [OF assms(2) config_paths(1,2), of background y] obtain cfg y1 where
    "daemon_init (m_init e) hsb_core_daemon_config background y = Some (True, cfg, y1)"
    "files y1 = (files y)(pid_file hsb_core_daemon_config \<mapsto> show_int (i_pid (m_init e)), unix_listen_path hsb_core_daemon_config \<mapsto> [])"
    by blast
  with assms(1,3) show ?thesis
    by (auto simp: core_main_def start_network_def init_network_module_def open_udp_listenfd_def sys_open_def Let_def)
qed

section \<open>Property\<close>

text \<open>
  C4. The daemon comes up. From any readable command line, when the threads are created, every socket, the serial port and the
  pid file can be opened, the descriptors handed out are new and different, and no other thread has taken a pass yet,
  \<^verbatim>\<open>main\<close> reaches its loop. Then exactly six descriptors more are open: the control socket, the UDP and the TCP listener, the UDP socket
  of the monitor of the virtual switches, the serial port and the notification socket of the Zigbee monitor; the
  sockets of the two probes are closed again. The files written are the pid file, which reads back as the process id, and
  those of the two Unix-domain sockets. The serial port is in raw mode, eight bits, no parity, one stop bit, at 115200 baud.
  Every state that passes within the limits of \<open>box_limits\<close> lead to is well formed, and the next pass within them is defined.
\<close>

theorem daemon_comes_up:
  assumes "parse_options argv = Some (background, level)" and "init_works (m_init e)" and "serial_works (m_serial e)"
    and "sockets_work e" and "fresh_fds e y" and "\<forall>rx \<in> set (ev_vs_rxs (m_drv e)). length (rx_buf rx) = 64"
    and "status_shape stk" and "length junk = 64"
  shows "runs (core_main e argv y (power_on pool stk junk)) (\<lambda>(run, lv, cfg, y', s). run \<and> lv = level \<and>
    unix_listen_fd cfg = u_socket (i_unix (m_init e)) \<and>
    open_fds y' = set (kept_fds e) \<union> open_fds y \<and>
    files y' = (files y)(pid_file hsb_core_daemon_config \<mapsto> show_int (i_pid (m_init e)), unix_listen_path hsb_core_daemon_config \<mapsto> [],
      cz_listen_path \<mapsto> []) \<and>
    get_pid_from_file True True (files y') (Some (pid_file hsb_core_daemon_config)) = Some (i_pid (m_init e)) \<and>
    raw_8n1 (ttys y' (s_open (m_serial e))) \<and> c_speed (ttys y' (s_open (m_serial e))) = 0x1002 \<and>
    (\<forall>t. reach box_handle box_allowed s t \<longrightarrow> box_ok t \<and> mail_ok t \<and>
      (\<forall>ev. box_world ev \<and> box_limits ev t \<longrightarrow> runs (box_handle ev t) (reach box_handle box_allowed s))))"
proof -
  let ?u = "u_socket (i_unix (m_init e))" and ?f = "s_open (m_serial e)" and ?c = hsb_core_daemon_config and ?p = "power_on pool stk junk"
  obtain y1 where i: "daemon_init (m_init e) ?c background y = Some (True, ?c\<lparr>unix_listen_fd := ?u\<rparr>, y1)"
    "open_fds y1 = insert ?u (open_fds y)"
    "files y1 = (files y)(pid_file ?c \<mapsto> show_int (i_pid (m_init e)), unix_listen_path ?c \<mapsto> [])"
    "get_pid_from_file True True (files y1) (Some (pid_file ?c)) = Some (i_pid (m_init e))"
    using daemon_init_up [OF assms(2) config_paths(1,2), of background y] by blast
  obtain y2 where n: "start_network e y1 ?p = (0, y2, init_client_pool ?p)"
    "open_fds y2 = {l_socket (m_udp_sock e), l_socket (m_tcp_sock e)} \<union> open_fds y1" "files y2 = files y1"
    using start_network_works [OF assms(4), of y1 ?p] by blast
  have "0 \<le> ?f" using assms(3) by (simp add: serial_works_def)
  from main_start_ok [OF assms(7,8,6) this, of pool] obtain s where
    s: "init_dev_module (m_drv e) ?f (init_client_pool ?p) = Some (0, s)" "daemon_ok s"
    by (auto simp: main_start_def init_network_module_def Let_def split: Option.bind_splits elim!: runsE)
  have "?f \<notin> insert (l_socket (m_vs_sock e)) (open_fds y2)"
    "{m_vs_probe e, m_cz_probe e} \<inter> ({l_socket (m_vs_sock e), ?f, u_socket (m_cz_sock e)} \<union> open_fds y2) = {}"
    using assms(5) i(2) n(2) by (auto simp: fresh_fds_def kept_fds_def)
  from start_devices_works [OF assms(4,3) s(1) this] obtain z where z: "start_devices e y2 (init_client_pool ?p) = Some (0, z, s)"
    "open_fds z = {l_socket (m_vs_sock e), ?f, u_socket (m_cz_sock e)} \<union> open_fds y2" "raw_8n1 (ttys z ?f)"
    "c_speed (ttys z ?f) = 0x1002" "files z = (files y2)(cz_listen_path \<mapsto> [])" by blast
  have m: "core_main e argv y ?p = Some (True, level, ?c\<lparr>unix_listen_fd := ?u\<rparr>, z, s)"
    using assms(1) i(1) n(1) z(1) by (simp add: core_main_def)
  have "open_fds z = set (kept_fds e) \<union> open_fds y" using z(2) n(2) i(2) by (auto simp: kept_fds_def)
  moreover have "get_pid_from_file True True (files z) (Some (pid_file ?c)) = Some (i_pid (m_init e))"
    using i(4) n(3) z(5) config_paths(3) by (simp add: get_pid_from_file_def)
  moreover have "box_ok t \<and> mail_ok t \<and> (\<forall>ev. box_world ev \<and> box_limits ev t \<longrightarrow> runs (box_handle ev t) (reach box_handle box_allowed s))"
    if "reach box_handle box_allowed s t" for t
    using daemon.reach_inv [OF that s(2)] daemon.reach_live [OF that s(2)] by (simp add: daemon_okD box_allowed_def)
  ultimately show ?thesis unfolding m runs_Some using i(3) n(3) z(3,4,5) by simp
qed

end
