(* ===== verification/Demo_Tools.thy ===== *)
theory Demo_Tools
  imports Demo_Daemon Switch_Sim Pad_Sim Core_Main
begin

text \<open>The theorems on the tools and the library, applied to the demonstration box and to concrete inputs.\<close>

definition demo_on :: HSB_STATUS_T where
  "demo_on = \<lparr>st_devid = 1, st_num = 1, st_id = replicate 8 0, st_val = 1 # replicate 7 0\<rparr>"

theorem switch_obeys_driver_witness:
  "let w' = switch_start\<lparr>status_on_off := 1, dgrams := [TO_CLIENT (le16 VS_CMD_RESULT @ le16 8 @ le16 1 @ le16 0),
      TO_BROADCAST (le16 VS_CMD_STATUS_CHANGED @ le16 8 @ le16 0 @ le16 1)]\<rparr> in
    virtual_switch_set_status (8, front (replicate 64 0) (le16 VS_CMD_RESULT @ le16 8 @ le16 1 @ le16 0)) demo_on demo_box =
      Some (0, send_out demo_box (UDP_SENDTO 10 19001 (le16 VS_CMD_SET_STATUS @ le16 8 @ le16 0 @ le16 1))) \<and>
    switch_main_round (Some (8, front (replicate 1024 0) (le16 VS_CMD_SET_STATUS @ le16 8 @ le16 0 @ le16 1))) None switch_start = Some w' \<and>
    virtual_switch_get_status (8, front (replicate 64 0) (le16 VS_CMD_GET_STATUS_RESP @ le16 8 @ le16 0 @ le16 1)) demo_on demo_box =
      Some (0, demo_on, send_out demo_box (UDP_SENDTO 10 19001 (le16 VS_CMD_GET_STATUS @ le16 8 @ le32 0xffffffff)))"
proof -
  let ?w = "switch_start\<lparr>status_on_off := 1, dgrams := [TO_CLIENT (le16 VS_CMD_RESULT @ le16 8 @ le16 1 @ le16 0),
      TO_BROADCAST (le16 VS_CMD_STATUS_CHANGED @ le16 8 @ le16 0 @ le16 1)]\<rparr>"
  have d: "vs_find_dev_by_id demo_box (st_devid demo_on) = Some (demo_vs 1 10 0)"
    by (simp add: vs_find_dev_by_id_def demo_box_def demo_vs_def demo_on_def)
  have sh: "status_shape demo_on" "st_num demo_on = 1" "st_id demo_on ! 0 = 0" "st_val demo_on ! 0 = 1" "unat (st_num demo_on) \<le> 1"
    by (simp_all add: status_shape_def demo_on_def)
  have same: "demo_on\<lparr>st_num := 1, st_id := (st_id demo_on)[0 := 0], st_val := (st_val demo_on)[0 := 1]\<rparr> = demo_on"
    by (simp add: demo_on_def list_update_code numeral_eq_Suc)
  have w: "?w = switch_start\<lparr>status_on_off := 1, dgrams := dgrams switch_start @ TO_CLIENT (le16 VS_CMD_RESULT @ le16 8 @ le16 1 @ le16 0) #
      (if 1 = status_on_off switch_start then [] else [TO_BROADCAST (le16 VS_CMD_STATUS_CHANGED @ le16 8 @ le16 0 @ le16 1)])\<rparr>"
    by (simp add: switch_start_def)
  have b: "length (replicate 1024 (0 :: u8)) = 1024" "length (replicate 64 (0 :: u8)) = 64" by simp_all
  note o = switch_obeys_driver [OF d sh(1-4) refl sh(1,5) b w, unfolded same]
  from spec [OF conjunct1 [OF o], of 1] conjunct2 [OF o] show ?thesis by (simp add: Let_def demo_vs_def)
qed

theorem switch_change_reported_witness:
  "\<exists>f. switch_main_round None (Some (9, front (replicate 1024 0) (bytes (''status=5'' @ [CHR 0x0A])))) switch_start =
      Some (switch_start\<lparr>status_on_off := 5, dgrams := [TO_BROADCAST f]\<rparr>) \<and>
    runs (vs_monitor_msg demo_env (int (length f)) (front (replicate 16 0) f) 11 demo_box) (\<lambda>t. box_ok t \<and>
      vs_queue t = [demo_vs 1 10 0, demo_vs 2 11 0])"
proof -
  have l: "''status=5'' @ [CHR 0x0A] = ''status='' @ show_int (uint (5 :: u16)) @ [CHR 0x0A]" by code_simp
  have i: "vs_find_dev_by_ip demo_box 11 = Some 1" by (simp add: vs_find_dev_by_ip_def demo_box_def demo_vs_def)
  have q: "(vs_queue demo_box)[1 := (vs_queue demo_box ! 1)\<lparr>vs_idle_time := 0\<rparr>] = [demo_vs 1 10 0, demo_vs 2 11 0]"
    by (simp add: demo_box_def demo_vs_def)
  have w: "status_on_off switch_start \<noteq> 5" by (simp add: switch_start_def)
  from switch_change_reported [OF demo_box_sync i w _ l, of "replicate 16 0" "replicate 1024 0" demo_env]
  show ?thesis unfolding q by (auto simp: switch_start_def elim!: runs_mono)
qed


theorem pad_user_sees_box_witness:
  "pad_session (''get devices'' @ [CHR 0x0A]) demo_box (PAD_DEVS [1, 2]) \<and>
   pad_session (''get timer 1 0'' @ [CHR 0x0A]) demo_box (PAD_TIMER 1 demo_timer)"
proof -
  have l: "''get timer 1 0'' @ [CHR 0x0A] = ''get timer '' @ show_int (uint (1 :: u32)) @ '' '' @ show_int (uint (0 :: u16)) @ [CHR 0x0A]"
    by code_simp
  have t: "timer_slot demo_box 1 0 = Some demo_timer" by (simp add: timer_slot_def online_dev_def demo_find demo_dev_def)
  have ids: "map (\<lambda>p. dev_id (dev_at demo_box p)) (cb_queue (dev_cb demo_box)) = [1, 2]" by (simp add: demo_find)
  from pad_user_sees_box [OF demo_box_sync demo_devs t] show ?thesis unfolding l ids by simp
qed

theorem pad_reads_daemon_witness:
  "(do { (n, b) \<leftarrow> make_notify_resp (replicate 64 0) (HSB_RESP_TYPE_STATUS (Some 0) demo_on);
      pad_deal_tcp_pkt (front (replicate 1024 7) (take (nat n) b)) }) = Some (PAD_STATUS [(1, 0, 1)]) \<and>
   (do { (n, b) \<leftarrow> reply_get_timer (replicate 1024 0) 2 demo_timer; pad_deal_tcp_pkt (front (replicate 1024 7) (take (nat n) b)) }) =
      Some (PAD_TIMER 2 demo_timer)"
proof -
  have ok: "resp_ok (HSB_RESP_TYPE_STATUS (Some 0) demo_on)" by (simp add: demo_on_def status_shape_def)
  have v: "pad_view (HSB_RESP_TYPE_STATUS (Some 0) demo_on) = PAD_STATUS [(1, 0, 1)]" by (simp add: demo_on_def)
  show ?thesis using pad_reads_daemon [OF ok, of "replicate 1024 7" 2 demo_timer zero_delay zero_linkage] unfolding v by simp
qed

definition demo_line :: string where
  "demo_line = ''action 4 0 1 ff'' @ [CHR 0x0A]"

lemma demo_line_facts: "c_string (front (replicate 1024 0) (bytes demo_line)) = Some demo_line"
  "\<forall>(n, f) \<in> set pad_commands. sscanf f demo_line \<noteq> None" "\<not> matches demo_line set_timer_format"
  "\<exists>c \<in> set pad_commands. matches demo_line c"
  by code_simp+

theorem pad_packet_bounds_witness:
  "runs (pad_deal_input_cmd (front (replicate 1024 0) (bytes demo_line))) (\<lambda>(r, out). r = 0 \<and> (\<exists>cmd pkt. out = [pkt] \<and> length pkt \<le> 16 \<and>
     HSB_CMD_VALID cmd \<and> take 4 pkt = le16 cmd @ le16 (of_nat (length pkt)))) \<and>
   control_box_round None (Some (14, front (replicate 1024 0) (bytes (''set timer 1 2'' @ [CHR 0x0A])))) = None"
proof -
  have l: "''set timer 1 2'' @ [CHR 0x0A] = ''set timer '' @ show_int 1 @ '' '' @ show_int 2 @ [CHR 0x0A]" by code_simp
  have n: "length (''set timer 1 2'' @ [CHR 0x0A]) = 14" by simp
  have i: "int_fits 1" "int_fits 2" "length (replicate 1024 (0 :: u8)) = 1024" by (simp_all add: int_fits_def)
  from pad_packet_bounds [OF demo_line_facts(1,2) i] demo_line_facts(3,4) n show ?thesis unfolding Let_def l [symmetric] by simp
qed

text \<open>Two bytes and then one, with an interrupted read between them.\<close>

definition demo_rounds :: "io_round list" where
  "demo_rounds =
     [\<lparr>sel_ret = 1, sel_eintr = False, tv_left = True, io_ret = 2, io_eintr = False, io_data = [1, 2]\<rparr>,
      \<lparr>sel_ret = 1, sel_eintr = False, tv_left = True, io_ret = - 1, io_eintr = True, io_data = []\<rparr>,
      \<lparr>sel_ret = 1, sel_eintr = False, tv_left = False, io_ret = 1, io_eintr = False, io_data = [3]\<rparr>]"

theorem io_timeout_correct_witness:
  "runs (read_timeout True demo_rounds (replicate 8 0) 4) (\<lambda>(n, b). drop 4 b = replicate 4 0) \<and>
   runs (write_timeout True demo_rounds [1, 2, 3, 4] 4) (\<lambda>(n, out). \<exists>k \<le> 4. out = take k [1, 2, 3, 4])"
proof -
  have c: "io_contract 4 demo_rounds" "time_ends True demo_rounds" by (simp_all add: demo_rounds_def time_ends_def)
  have r: "runs (read_timeout True demo_rounds (replicate 8 0) 4) (\<lambda>(n, b). drop 4 b = replicate 4 0)"
    by (rule runs_mono [OF conjunct1 [OF io_timeout_correct [OF c]]]) auto
  have w: "runs (write_timeout True demo_rounds [1, 2, 3, 4] 4) (\<lambda>(n, out). \<exists>k \<le> 4. out = take k [1, 2, 3, 4])"
    by (rule runs_mono [OF conjunct2 [OF io_timeout_correct [OF c]]]) auto
  show ?thesis using r w ..
qed

definition demo_init :: init_env where
  "demo_init = \<lparr>i_daemon = 0, i_chdir = 0, i_pid = 321, i_pid_open = True, i_pid_written = 3,
     i_unix = \<lparr>u_socket = 3, u_mkstemp = [], u_now = 0, u_counter = 0, u_unlink = True, u_bind = 0, u_setsockopt = 0\<rparr>,
     i_unlink = True\<rparr>"

definition demo_sys :: sys where
  "demo_sys = \<lparr>open_fds = {0, 1, 2}, nonblock = {}, ttys = (\<lambda>_. \<lparr>c_cflag = 0, c_iflag = 0, c_lflag = 0, c_oflag = 0, c_speed = 0,
     c_vtime = 0, c_vmin = 0\<rparr>), files = [''mc.ini'' \<mapsto> ''x'']\<rparr>"

theorem daemon_life_witness:
  "\<exists>cfg y. daemon_init demo_init hsb_core_daemon_config True demo_sys = Some (True, cfg, y) \<and>
    get_pid_from_file True True (files y) (Some ''hsb_core_daemon.pid'') = Some 321 \<and> unix_listen_fd cfg \<in> open_fds y \<and>
    files (daemon_exit True cfg y) = [''mc.ini'' \<mapsto> ''x'']"
proof -
  let ?c = "hsb_core_daemon_config\<lparr>unix_listen_fd := 3\<rparr>"
  let ?y = "demo_sys\<lparr>open_fds := {3, 0, 1, 2}, files := [''mc.ini'' \<mapsto> ''x'', ''hsb_core_daemon.pid'' \<mapsto> ''321'', ''hsb_core_daemon.listen'' \<mapsto> []]\<rparr>"
  have s: "show_int 321 = ''321''" by code_simp
  have i: "daemon_init demo_init hsb_core_daemon_config True demo_sys = Some (True, ?c, ?y)"
    by (simp add: daemon_init_def demo_init_def total_cfg_read_def cfg_read_from_mc_def create_pid_file_def s Let_def
        hsb_core_daemon_config_def unix_socket_new_listen_def bind_path_def sys_defs demo_sys_def)
  have "i_pid demo_init = 321" "int_fits (i_pid demo_init)" by (simp_all add: demo_init_def int_fits_def)
  moreover have "pid_file hsb_core_daemon_config = ''hsb_core_daemon.pid''" "unix_listen_path hsb_core_daemon_config = ''hsb_core_daemon.listen''"
    "u_socket (i_unix demo_init) \<notin> open_fds demo_sys" by (simp_all add: hsb_core_daemon_config_def demo_init_def demo_sys_def)
  moreover have "(files demo_sys)(''hsb_core_daemon.pid'' := None, ''hsb_core_daemon.listen'' := None) = [''mc.ini'' \<mapsto> ''x'']"
    by (auto simp: demo_sys_def)
  ultimately show ?thesis using daemon_life [OF i] i by (intro exI [of _ ?c] exI [of _ ?y]) simp
qed

definition demo_main :: main_env where
  "demo_main = \<lparr>m_init = demo_init, m_udp = True, m_tcp = True,
     m_udp_sock = \<lparr>l_socket = 4, l_setsockopt = 0, l_bind = 0, l_listen = 0\<rparr>,
     m_tcp_sock = \<lparr>l_socket = 5, l_setsockopt = 0, l_bind = 0, l_listen = 0\<rparr>,
     m_vs_sock = \<lparr>l_socket = 6, l_setsockopt = 0, l_bind = 0, l_listen = 0\<rparr>,
     m_serial = \<lparr>s_open = 7, s_get = True, s_set_speed = True, s_set = True\<rparr>,
     m_cz_sock = \<lparr>u_socket = 8, u_mkstemp = [], u_now = 0, u_counter = 0, u_unlink = True, u_bind = 0, u_setsockopt = 0\<rparr>,
     m_vs_probe = 9, m_cz_probe = 9, m_cz_probe_opt = 0, m_cz_probe_name = (0, []), m_cz_probe_unlink = True, m_drv = demo_env\<rparr>"

theorem daemon_comes_up_witness:
  "runs (core_main demo_main [''hsb_core_daemon'', ''-b'', ''-d2''] demo_sys (power_on demo_pool zero_status (replicate 64 0xCC)))
    (\<lambda>(run, lv, cfg, y, s). run \<and> lv = 2 \<and> open_fds y = {0..8} \<and> raw_8n1 (ttys y 7) \<and> box_ok s \<and>
      dom (files y) = {''/tmp/hsb/driver_cz.listen'', ''hsb_core_daemon.listen'', ''hsb_core_daemon.pid'', ''mc.ini''})"
proof -
  have a: "parse_options [''hsb_core_daemon'', ''-b'', ''-d2''] = Some (True, 2)" by code_simp
  have i: "init_works (m_init demo_main)"
  proof -
    have "length (show_int 321) \<le> 3" by code_simp
    then show ?thesis by (simp add: init_works_def demo_main_def demo_init_def int_fits_def)
  qed
  have w: "serial_works (m_serial demo_main)" "sockets_work demo_main" "fresh_fds demo_main demo_sys"
    "\<forall>rx \<in> set (ev_vs_rxs (m_drv demo_main)). length (rx_buf rx) = 64" "length (replicate 64 (0xCC :: u8)) = 64"
    by (simp_all add: serial_works_def sockets_work_def fresh_fds_def kept_fds_def demo_main_def demo_init_def demo_sys_def demo_env_def)
  have n: "set (kept_fds demo_main) \<union> open_fds demo_sys = {0..8}" "s_open (m_serial demo_main) = 7"
    by (auto simp: kept_fds_def demo_main_def demo_init_def demo_sys_def)
  have d: "dom ((files demo_sys)(pid_file hsb_core_daemon_config \<mapsto> a, unix_listen_path hsb_core_daemon_config \<mapsto> b, cz_listen_path \<mapsto> c)) =
    {''/tmp/hsb/driver_cz.listen'', ''hsb_core_daemon.listen'', ''hsb_core_daemon.pid'', ''mc.ini''}" for a b c
    by (simp add: demo_sys_def hsb_core_daemon_config_def cz_listen_path_def)
  show ?thesis
    by (rule runs_mono [OF daemon_comes_up [OF a i w(1-4) zero_status_shape w(5)]])
      (clarsimp simp: n d simp del: dom_fun_upd, blast intro: reach.start)
qed

end
