(* ===== verification/Base64.thy ===== *)
theory Base64
  imports Cmd_Field
begin

text \<open>
  The Base64 codec of \<^verbatim>\<open>lib/utils.c\<close>: \<^verbatim>\<open>encrypt_b64\<close> and \<^verbatim>\<open>decode_b64\<close> on byte buffers of a
  given size, with the table \<^verbatim>\<open>base64_reverse_table\<close>. \<open>b64\<close> is the reference encoding. Sizes are those of
  objects that exist, below \<open>2 ^ 31\<close>, so the \<^verbatim>\<open>int\<close> counters of the code do not wrap. The buffers are objects, so the tests for
  a null pointer at the head of \<^verbatim>\<open>encrypt_b64\<close> and \<^verbatim>\<open>decode_b64\<close>, which return -1, have no counterpart.
\<close>

section \<open>Encoding\<close>

text \<open>The letter of a 6-bit value, computed in place in \<^verbatim>\<open>dest\<close>.\<close>

definition b64_letter :: "u8 \<Rightarrow> u8" where
  "b64_letter v =
     (let v = (if v \<le> 25 then v + 65 else if v \<le> 51 then v + (97 - 26) else if v \<le> 61 then v + (48 - 52) else v);
          v = (if v = 62 then 43 else v);
          v = (if v = 63 then 47 else v)
      in v)"

definition to_letter :: "nat \<Rightarrow> buf \<Rightarrow> buf option" where
  "to_letter k dest = do {
     v \<leftarrow> arr_get dest k;
     arr_set dest k (b64_letter v)
   }"

function encrypt_loop :: "buf \<Rightarrow> buf \<Rightarrow> nat \<Rightarrow> nat \<Rightarrow> nat \<Rightarrow> (buf \<times> nat \<times> nat) option" where
  "encrypt_loop dest src sz tmp b64_tmp =
     (if sz - b64_tmp \<ge> 3 then do {
        x \<leftarrow> arr_get src b64_tmp;
        y \<leftarrow> arr_get src (b64_tmp + 1);
        z \<leftarrow> arr_get src (b64_tmp + 2);
        dest \<leftarrow> arr_set dest tmp (0x3F AND drop_bit 2 x);
        dest \<leftarrow> arr_set dest (tmp + 1) ((push_bit 4 x AND 0x30) OR (drop_bit 4 y AND 0x0F));
        dest \<leftarrow> arr_set dest (tmp + 2) ((push_bit 2 y AND 0x3C) OR (drop_bit 6 z AND 0x03));
        dest \<leftarrow> arr_set dest (tmp + 3) (0x3F AND z);
        dest \<leftarrow> for_list to_letter [tmp..<tmp + 4] dest;
        encrypt_loop dest src sz (tmp + 4) (b64_tmp + 3)
      } else Some (dest, tmp, b64_tmp))"
  by pat_completeness auto

termination encrypt_loop
  by (relation "measure (\<lambda>(dest, src, sz, tmp, b64_tmp). sz - b64_tmp)") auto

declare encrypt_loop.simps [simp del]

text \<open>What follows the loop: the last one or two bytes, the padding and the terminating 0.\<close>

definition encrypt_tail :: "buf \<Rightarrow> nat \<Rightarrow> buf \<times> nat \<times> nat \<Rightarrow> (nat \<times> buf) option" where
  "encrypt_tail src sz = (\<lambda>(dest, tmp, b64_tmp).
     if b64_tmp = sz then do {
       dest \<leftarrow> arr_set dest tmp 0;
       Some (tmp, dest)
     } else do {
       x \<leftarrow> arr_get src b64_tmp;
       dest \<leftarrow> (if sz - b64_tmp = 1 then do {
           dest \<leftarrow> arr_set dest tmp (0x3F AND drop_bit 2 x);
           dest \<leftarrow> arr_set dest (tmp + 1) (push_bit 4 x AND 0x30);
           arr_set dest (tmp + 2) 61
         } else do {
           y \<leftarrow> arr_get src (b64_tmp + 1);
           dest \<leftarrow> arr_set dest tmp (0x3F AND drop_bit 2 x);
           dest \<leftarrow> arr_set dest (tmp + 1) ((push_bit 4 x AND 0x30) OR (drop_bit 4 y AND 0x0F));
           arr_set dest (tmp + 2) (push_bit 2 y AND 0x3F)
         });
       dest \<leftarrow> for_list to_letter [tmp..<Suc (tmp + (sz - b64_tmp))] dest;
       dest \<leftarrow> arr_set dest (tmp + 3) 61;
       dest \<leftarrow> arr_set dest (tmp + 4) 0;
       Some (tmp + 4, dest)
     })"

definition encrypt_b64 :: "buf \<Rightarrow> buf \<Rightarrow> nat \<Rightarrow> (nat \<times> buf) option" where
  "encrypt_b64 dest src sz = Option.bind (encrypt_loop dest src sz 0 0) (encrypt_tail src sz)"

section \<open>Decoding\<close>

definition base64_reverse_table :: "int list" where
  "base64_reverse_table = [
     -1, -1, -1, -1, -1, -1, -1, -1, -1, -1, -1, -1, -1, -1, -1, -1,
     -1, -1, -1, -1, -1, -1, -1, -1, -1, -1, -1, -1, -1, -1, -1, -1,
     -1, -1, -1, -1, -1, -1, -1, -1, -1, -1, -1, 62, -1, -1, -1, 63,
     52, 53, 54, 55, 56, 57, 58, 59, 60, 61, -1, -1, -1, -1, -1, -1,
     -1,  0,  1,  2,  3,  4,  5,  6,  7,  8,  9, 10, 11, 12, 13, 14,
     15, 16, 17, 18, 19, 20, 21, 22, 23, 24, 25, -1, -1, -1, -1, -1,
     -1, 26, 27, 28, 29, 30, 31, 32, 33, 34, 35, 36, 37, 38, 39, 40,
     41, 42, 43, 44, 45, 46, 47, 48, 49, 50, 51, -1, -1, -1, -1, -1,
     -1, -1, -1, -1, -1, -1, -1, -1, -1, -1, -1, -1, -1, -1, -1, -1,
     -1, -1, -1, -1, -1, -1, -1, -1, -1, -1, -1, -1, -1, -1, -1, -1,
     -1, -1, -1, -1, -1, -1, -1, -1, -1, -1, -1, -1, -1, -1, -1, -1,
     -1, -1, -1, -1, -1, -1, -1, -1, -1, -1, -1, -1, -1, -1, -1, -1,
     -1, -1, -1, -1, -1, -1, -1, -1, -1, -1, -1, -1, -1, -1, -1, -1,
     -1, -1, -1, -1, -1, -1, -1, -1, -1, -1, -1, -1, -1, -1, -1, -1,
     -1, -1, -1, -1, -1, -1, -1, -1, -1, -1, -1, -1, -1, -1, -1, -1,
     -1, -1, -1, -1, -1, -1, -1, -1, -1, -1, -1, -1, -1, -1, -1, -1]"

text \<open>The \<^verbatim>\<open>switch\<close> of the loop: the new buffer and the new \<^verbatim>\<open>j\<close>.\<close>

definition decode_char :: "nat \<Rightarrow> u8 \<Rightarrow> nat \<Rightarrow> buf \<Rightarrow> (buf \<times> nat) option" where
  "decode_char i ch j result =
     (if i mod 4 = 0 then do {
        result \<leftarrow> arr_set result j (push_bit 2 ch);
        Some (result, j)
      } else if i mod 4 = 1 then do {
        x \<leftarrow> arr_get result j;
        result \<leftarrow> arr_set result j (x OR drop_bit 4 ch);
        result \<leftarrow> arr_set result (j + 1) (push_bit 4 (ch AND 0x0F));
        Some (result, j + 1)
      } else if i mod 4 = 2 then do {
        x \<leftarrow> arr_get result j;
        result \<leftarrow> arr_set result j (x OR drop_bit 2 ch);
        result \<leftarrow> arr_set result (j + 1) (push_bit 6 (ch AND 0x03));
        Some (result, j + 1)
      } else do {
        x \<leftarrow> arr_get result j;
        result \<leftarrow> arr_set result j (x OR ch);
        Some (result, j + 1)
      })"

text \<open>The loop over the string; the results are the last character read, \<^verbatim>\<open>i\<close>, \<^verbatim>\<open>j\<close> and the buffer.\<close>

fun decode_loop :: "buf \<Rightarrow> buf \<Rightarrow> int \<Rightarrow> nat \<Rightarrow> nat \<Rightarrow> (u8 \<times> nat \<times> nat \<times> buf) option" where
  "decode_loop result [] len i j = None"
| "decode_loop result (ch # current) len i j =
     (if ch = 0 \<or> len \<le> 0 \<or> ch = 61 then Some (ch, i, j, result)
      else do {
        v \<leftarrow> arr_get base64_reverse_table (unat (if ch = 32 then 43 else ch));
        if v < 0 then decode_loop result current (len - 1) i j
        else do {
          (result, j) \<leftarrow> decode_char i (word_of_int v) j result;
          decode_loop result current (len - 1) (i + 1) j
        }
      })"

declare decode_loop.simps(2) [simp del]

text \<open>What follows the loop.\<close>

definition decode_tail :: "u8 \<times> nat \<times> nat \<times> buf \<Rightarrow> (int \<times> buf) option" where
  "decode_tail = (\<lambda>(ch, i, j, result).
     if ch = 61 \<and> i mod 4 = 1 then Some (- 1, result)
     else do {
       result \<leftarrow> (if ch = 61 \<and> i mod 4 = 2 then arr_set result (j + 1) 0
         else if ch = 61 \<and> i mod 4 = 3 then arr_set result j 0 else Some result);
       result \<leftarrow> arr_set result j 0;
       Some (int j, result)
     })"

definition decode_b64 :: "buf \<Rightarrow> buf \<Rightarrow> int \<Rightarrow> (int \<times> buf) option" where
  "decode_b64 desc str len = Option.bind (decode_loop desc str len 0 0) decode_tail"

section \<open>The reference encoding\<close>

definition b64_alphabet :: "u8 list" where
  "b64_alphabet = map of_char ''ABCDEFGHIJKLMNOPQRSTUVWXYZabcdefghijklmnopqrstuvwxyz0123456789+/''"

text \<open>Three bytes are one number of 24 bits, cut into four sextets.\<close>

definition triple :: "u8 \<Rightarrow> u8 \<Rightarrow> u8 \<Rightarrow> 24 word" where
  "triple x y z = push_bit 16 (ucast x) OR push_bit 8 (ucast y) OR ucast z"

definition sextet :: "24 word \<Rightarrow> nat \<Rightarrow> u8" where
  "sextet w k = b64_alphabet ! unat (take_bit 6 (drop_bit (6 * k) w))"

fun b64 :: "u8 list \<Rightarrow> u8 list" where
  "b64 (x # y # z # xs) = map (sextet (triple x y z)) [3, 2, 1, 0] @ b64 xs"
| "b64 [x, y] = map (sextet (triple x y 0)) [3, 2, 1] @ [61]"
| "b64 [x] = map (sextet (triple x 0 0)) [3, 2] @ [61, 61]"
| "b64 [] = []"

section \<open>Letters\<close>

lemma alphabet_letters: "map (b64_letter \<circ> of_nat) [0..<64] = b64_alphabet"
  by code_simp

lemma alphabet_table:
  "map (\<lambda>c. base64_reverse_table ! unat c) b64_alphabet = map int [0..<64]" "set b64_alphabet \<inter> {0, 32, 61} = {}"
  by code_simp+

lemma length_alphabet: "length b64_alphabet = 64"
  by (simp add: b64_alphabet_def)

lemma letter_alphabet: "n < 64 \<Longrightarrow> b64_letter (of_nat n) = b64_alphabet ! n"
  using arg_cong [OF alphabet_letters, of "\<lambda>xs. xs ! n"] by simp

lemma table_alphabet:
  assumes "n < 64"
  shows "base64_reverse_table ! unat (b64_alphabet ! n) = int n" "b64_alphabet ! n \<noteq> 0" "b64_alphabet ! n \<noteq> 32" "b64_alphabet ! n \<noteq> 61"
proof -
  show "base64_reverse_table ! unat (b64_alphabet ! n) = int n"
    using arg_cong [OF alphabet_table(1), of "\<lambda>xs. xs ! n"] assms by (simp add: length_alphabet)
  have "b64_alphabet ! n \<in> set b64_alphabet" using assms by (simp add: length_alphabet)
  then show "b64_alphabet ! n \<noteq> 0" "b64_alphabet ! n \<noteq> 32" "b64_alphabet ! n \<noteq> 61" using alphabet_table(2) by auto
qed

definition six :: "24 word \<Rightarrow> nat \<Rightarrow> u8" where
  "six w k = ucast (take_bit 6 (drop_bit (6 * k) w))"

lemma six_less: "unat (take_bit 6 (w :: 24 word)) < 64"
  using take_bit_nat_less_exp [of 6 "unat w"] by (simp add: unsigned_take_bit_eq)

lemma letter_six: "b64_letter (six w k) = sextet w k"
proof -
  let ?n = "unat (take_bit 6 (drop_bit (6 * k) w))"
  have "six w k = of_nat ?n" by (simp add: six_def)
  with letter_alphabet [OF six_less] show ?thesis by (simp add: sextet_def)
qed

lemma table_six:
  "word_of_int (base64_reverse_table ! unat (sextet w k)) = six w k" "0 \<le> base64_reverse_table ! unat (sextet w k)"
  "sextet w k \<noteq> 0" "sextet w k \<noteq> 32" "sextet w k \<noteq> 61"
  using table_alphabet [OF six_less [of "drop_bit (6 * k) w"]] by (simp_all add: sextet_def six_def)

lemma six_bits:
  "0x3F AND drop_bit 2 x = six (triple x y z) 3"
  "(push_bit 4 x AND 0x30) OR (drop_bit 4 y AND 0x0F) = six (triple x y z) 2"
  "(push_bit 2 y AND 0x3C) OR (drop_bit 6 z AND 0x03) = six (triple x y z) 1"
  "0x3F AND z = six (triple x y z) 0"
  by (rule bit8_eqI; elim insertE emptyE; simp add: six_def triple_def bit_simps bit8_high)+

lemma six_bits_short:
  "push_bit 4 x AND 0x30 = six (triple x 0 0) 2"
  "push_bit 2 y AND 0x3F = six (triple x y 0) 1"
  by (rule bit8_eqI; elim insertE emptyE; simp add: six_def triple_def bit_simps bit8_high)+

lemma six_bytes:
  "push_bit 2 (six (triple x y z) 3) OR drop_bit 4 (six (triple x y z) 2) = x"
  "push_bit 4 (six (triple x y z) 2 AND 0x0F) OR drop_bit 2 (six (triple x y z) 1) = y"
  "push_bit 6 (six (triple x y z) 1 AND 0x03) OR six (triple x y z) 0 = z"
  by (rule bit8_eqI; elim insertE emptyE; simp add: six_def triple_def bit_simps bit8_high)+

section \<open>The encoder computes the reference\<close>

lemma put_at:
  "arr_set (pre @ a # r) (length pre) v = Some (pre @ v # r)"
  "arr_set (pre @ a # b # r) (Suc (length pre)) v = Some (pre @ a # v # r)"
  "arr_set (pre @ a # b # c # r) (Suc (Suc (length pre))) v = Some (pre @ a # b # v # r)"
  "arr_set (pre @ a # b # c # d # r) (length pre + 3) v = Some (pre @ a # b # c # v # r)"
  "arr_set (pre @ a # b # c # d # e # r) (length pre + 4) v = Some (pre @ a # b # c # d # v # r)"
  by (simp_all add: arr_set_def list_update_append)

lemma get_at:
  "arr_get (pre @ a # r) (length pre) = Some a"
  "arr_get (pre @ a # b # r) (Suc (length pre)) = Some b"
  "arr_get (pre @ a # b # c # r) (Suc (Suc (length pre))) = Some c"
  "arr_get (pre @ a # b # c # d # r) (length pre + 3) = Some d"
  by (simp_all add: arr_get_def nth_append)

lemma letters_at:
  "for_list to_letter [length pre..<length pre + 4] (pre @ a # b # c # d # r) =
    Some (pre @ b64_letter a # b64_letter b # b64_letter c # b64_letter d # r)"
proof -
  have u: "[n..<n + 4] = [n, Suc n, Suc (Suc n), n + 3]" for n by (simp add: upt_conv_Cons)
  show ?thesis unfolding u by (simp add: to_letter_def put_at get_at)
qed

lemma five_cells: "n \<le> length xs \<Longrightarrow> n = 5 \<Longrightarrow> \<exists>a b c d e r. xs = a # b # c # d # e # r"
  by (auto simp: Suc_le_length_iff numeral_eq_Suc)

lemma encrypt_from:
  assumes "length (b64 src) < length junk"
  shows "Option.bind (encrypt_loop (pre @ junk) (spre @ src) (length (spre @ src)) (length pre) (length spre))
      (encrypt_tail (spre @ src) (length (spre @ src))) =
    Some (length pre + length (b64 src), pre @ b64 src @ 0 # drop (Suc (length (b64 src))) junk)"
  using assms
proof (induction src arbitrary: pre spre junk rule: b64.induct)
  case (1 x y z xs)
  then obtain a b c d e r where j: "junk = a # b # c # d # e # r" using five_cells [of 5 junk] by fastforce
  let ?q = "map (sextet (triple x y z)) [3, 2, 1, 0]"
  have l: "length (pre @ ?q) = length pre + 4" "length (spre @ [x, y, z]) = length spre + 3" by simp_all
  have "Option.bind (encrypt_loop ((pre @ ?q) @ e # r) ((spre @ [x, y, z]) @ xs) (length ((spre @ [x, y, z]) @ xs)) (length pre + 4) (length spre + 3))
      (encrypt_tail ((spre @ [x, y, z]) @ xs) (length ((spre @ [x, y, z]) @ xs))) =
    Some (length pre + 4 + length (b64 xs), (pre @ ?q) @ b64 xs @ 0 # drop (Suc (length (b64 xs))) (e # r))"
    unfolding l [symmetric] using 1 j by (intro 1) simp
  then show ?case
    by (subst encrypt_loop.simps) (simp add: j put_at get_at letters_at six_bits [where x = x and y = y and z = z] letter_six)
next
  case (2 x y)
  then obtain a b c d e r where j: "junk = a # b # c # d # e # r" using five_cells [of 5 junk] by fastforce
  show ?case
    by (subst encrypt_loop.simps) (simp add: j encrypt_tail_def to_letter_def put_at get_at six_bits(1,2) [where x = x and y = y and z = 0] six_bits_short(2) [where x = x and y = y] letter_six)
next
  case (3 x)
  then obtain a b c d e r where j: "junk = a # b # c # d # e # r" using five_cells [of 5 junk] by fastforce
  show ?case
    by (subst encrypt_loop.simps) (simp add: j encrypt_tail_def to_letter_def put_at get_at six_bits(1) [where x = x and y = 0 and z = 0] six_bits_short(1) [of x] letter_six)
next
  case 4
  then obtain a r where j: "junk = a # r" by (cases junk) auto
  show ?case by (subst encrypt_loop.simps) (simp add: j encrypt_tail_def put_at)
qed

lemma encrypt_b64_eq:
  assumes "length (b64 src) < length dest"
  shows "encrypt_b64 dest src (length src) = Some (length (b64 src), b64 src @ 0 # drop (Suc (length (b64 src))) dest)"
  using encrypt_from [OF assms, of "[]" "[]"] by (simp add: encrypt_b64_def)

section \<open>The decoder inverts it\<close>

lemma length_table: "length base64_reverse_table = 256"
  by (simp add: base64_reverse_table_def)

lemma decode_sextet:
  assumes "0 < len"
  shows "decode_loop res (sextet w k # str) len i j =
    Option.bind (decode_char i (six w k) j res) (\<lambda>(res, j). decode_loop res str (len - 1) (i + 1) j)"
proof -
  have "unat (sextet w k) < 256" using unsigned_less [of "sextet w k"] by simp
  then show ?thesis using assms table_six [of w k]
    by (simp add: decode_loop.simps(2) length_table arr_get_def split: prod.splits)
qed

lemma decode_stop: "ch = 0 \<or> len \<le> 0 \<or> ch = 61 \<Longrightarrow> decode_loop res (ch # str) len i j = Some (ch, i, j, res)"
  by (simp add: decode_loop.simps(2))

lemma decode_chars:
  "i mod 4 = 0 \<Longrightarrow> decode_char i v (length pre) (pre @ a # r) = Some (pre @ push_bit 2 v # r, length pre)"
  "i mod 4 = 1 \<Longrightarrow> decode_char i v (length pre) (pre @ a # b # r) =
    Some (pre @ (a OR drop_bit 4 v) # push_bit 4 (v AND 0x0F) # r, Suc (length pre))"
  "i mod 4 = 2 \<Longrightarrow> decode_char i v (Suc (length pre)) (pre @ a # b # c # r) =
    Some (pre @ a # (b OR drop_bit 2 v) # push_bit 6 (v AND 0x03) # r, Suc (Suc (length pre)))"
  "i mod 4 = 3 \<Longrightarrow> decode_char i v (Suc (Suc (length pre))) (pre @ a # b # c # r) =
    Some (pre @ a # b # (c OR v) # r, length pre + 3)"
  by (simp_all add: decode_char_def put_at get_at)

lemma next_mod4: "i mod 4 = 0 \<Longrightarrow> (i + 1) mod 4 = 1 \<and> (i + 1 + 1) mod 4 = 2 \<and> (i + 1 + 1 + 1) mod 4 = (3 :: nat)"
  by presburger

lemma decode_two:
  assumes "2 \<le> len" and "i mod 4 = 0"
  shows "decode_loop (pre @ a # b # r) (sextet w 3 # sextet w 2 # str) len i (length pre) =
    decode_loop (pre @ (push_bit 2 (six w 3) OR drop_bit 4 (six w 2)) # push_bit 4 (six w 2 AND 0x0F) # r) str (len - 1 - 1) (i + 1 + 1) (Suc (length pre))"
  using assms next_mod4 [OF assms(2)]
  by (simp only: decode_sextet decode_chars bind.bind_lunit prod.case)

lemma decode_three:
  assumes "3 \<le> len" and "i mod 4 = 0"
  shows "decode_loop (pre @ a # b # c # r) (sextet (triple x y z) 3 # sextet (triple x y z) 2 # sextet (triple x y z) 1 # str) len i (length pre) =
    decode_loop (pre @ x # y # push_bit 6 (six (triple x y z) 1 AND 0x03) # r) str (len - 1 - 1 - 1) (i + 1 + 1 + 1) (Suc (Suc (length pre)))"
proof -
  have "0 < len - 1 - 1" using assms(1) by simp
  with assms next_mod4 [OF assms(2)] show ?thesis
    by (simp only: decode_two decode_sextet decode_chars bind.bind_lunit prod.case six_bytes)
qed

lemma decode_four:
  assumes "4 \<le> len" and "i mod 4 = 0"
  shows "decode_loop (pre @ a # b # c # r) (map (sextet (triple x y z)) [3, 2, 1, 0] @ str) len i (length pre) =
    decode_loop (pre @ x # y # z # r) str (len - 4) (i + 4) (length pre + 3)"
proof -
  have l: "3 \<le> len" "0 < len - 1 - 1 - 1" "len - 1 - 1 - 1 - 1 = len - 4" "i + 1 + 1 + 1 + 1 = i + 4" using assms(1) by simp_all
  show ?thesis
    by (simp only: list.map append.simps decode_three [OF l(1) assms(2)] decode_sextet [OF l(2)]
        decode_chars(4) [OF conjunct2 [OF conjunct2 [OF next_mod4 [OF assms(2)]]]] bind.bind_lunit prod.case six_bytes l(3,4))
qed

lemma decode_from:
  assumes "length src + 2 \<le> length junk" and "i mod 4 = 0" and "int (length (b64 src)) = len"
  shows "runs (Option.bind (decode_loop (pre @ junk) (b64 src @ 0 # rest) len i (length pre)) decode_tail) (\<lambda>(n, res).
    n = int (length pre + length src) \<and> take (length pre + length src) res = pre @ src)"
  using assms
proof (induction src arbitrary: pre junk i len rule: b64.induct)
  case (1 x y z xs)
  then obtain a b c d e r where j: "junk = a # b # c # d # e # r" using five_cells [of 5 junk] by fastforce
  have l: "length (pre @ [x, y, z]) = length pre + 3" "4 \<le> len" using 1(4) by auto
  have "runs (Option.bind (decode_loop ((pre @ [x, y, z]) @ d # e # r) (b64 xs @ 0 # rest) (len - 4) (i + 4) (length (pre @ [x, y, z]))) decode_tail)
     (\<lambda>(n, res). n = int (length (pre @ [x, y, z]) + length xs) \<and> take (length (pre @ [x, y, z]) + length xs) res = (pre @ [x, y, z]) @ xs)"
    using 1(2-4) j by (intro 1(1)) auto
  moreover have "length (x # y # z # xs) = 3 + length xs" by simp
  ultimately show ?case unfolding l(1) b64.simps(1) append.assoc j decode_four [OF l(2) 1(3)]
    by (simp only: add.assoc append.assoc append.simps)
next
  case (2 x y)
  then obtain a b c d r where j: "junk = a # b # c # d # r" by (auto simp: Suc_le_length_iff)
  have l: "3 \<le> len" using 2 by auto
  have "(i + 1 + 1 + 1) mod 4 = 3" using next_mod4 [OF 2(2)] by blast
  then show ?case unfolding b64.simps(2) j list.map append.simps decode_three [OF l 2(2)]
    by (simp add: decode_stop decode_tail_def arr_set_def list_update_append)
next
  case (3 x)
  then obtain a b c r where j: "junk = a # b # c # r" by (auto simp: Suc_le_length_iff)
  have l: "2 \<le> len" using 3 by auto
  have "(i + 1 + 1) mod 4 = 2" using next_mod4 [OF 3(2)] by blast
  then show ?case unfolding b64.simps(3) j list.map append.simps decode_two [OF l 3(2)] six_bytes
    by (simp add: decode_stop decode_tail_def arr_set_def list_update_append)
next
  case 4
  then obtain a r where "junk = a # r" by (cases junk) auto
  then show ?case by (simp add: decode_stop decode_tail_def put_at)
qed

lemma decode_b64_eq:
  assumes "length src + 2 \<le> length desc"
  shows "runs (decode_b64 desc (b64 src @ 0 # rest) (int (length (b64 src)))) (\<lambda>(n, res). n = int (length src) \<and> take (length src) res = src)"
  using decode_from [OF assms, of 0 _ "[]"] by (simp add: decode_b64_def del: runs_bind)

text \<open>
  C29. The encoder computes Base64. Given room for the result and its terminating 0, \<^verbatim>\<open>encrypt_b64\<close> writes exactly the
  standard encoding of the source (24-bit groups cut into sextets, the alphabet A-Z a-z 0-9 + /, padding with =) followed
  by 0, returns its length, and leaves the rest of the destination alone.
\<close>

theorem encrypt_b64_correct:
  assumes "length (b64 src) < length dest"
  shows "encrypt_b64 dest src (length src) = Some (length (b64 src), b64 src @ 0 # drop (Suc (length (b64 src))) dest)"
  by (rule encrypt_b64_eq [OF assms])

text \<open>
  C28. Decoding what was encoded gives the source back: \<^verbatim>\<open>decode_b64\<close> on the output of \<^verbatim>\<open>encrypt_b64\<close> returns the
  length of the source and writes its bytes, in a buffer of two bytes more than the source (the second one is needed when one byte is left
  over).
\<close>

theorem base64_roundtrip:
  assumes "length (b64 src) < length dest" and "length src + 2 \<le> length desc"
  shows "runs (do { (n, enc) \<leftarrow> encrypt_b64 dest src (length src); decode_b64 desc enc (int n) })
    (\<lambda>(n, out). n = int (length src) \<and> take (length src) out = src)"
  using decode_b64_eq [OF assms(2)] by (simp add: encrypt_b64_eq [OF assms(1)])

text \<open>Both on the bytes of \<open>''Man!''\<close>.\<close>

theorem encrypt_b64_correct_witness:
  "encrypt_b64 (replicate 12 0) [77, 97, 110, 33] 4 = Some (8, map of_char ''TWFuIQ=='' @ replicate 4 0)"
proof -
  have "b64 [77, 97, 110, 33] = map of_char ''TWFuIQ==''" by code_simp
  with encrypt_b64_correct [of "[77, 97, 110, 33]" "replicate 12 0"] show ?thesis by (simp add: numeral_eq_Suc)
qed

theorem base64_roundtrip_witness:
  "runs (do { (n, enc) \<leftarrow> encrypt_b64 (replicate 12 0) [77, 97, 110, 33] 4; decode_b64 (replicate 6 0) enc (int n) })
    (\<lambda>(n, out). n = 4 \<and> take 4 out = [77, 97, 110, 33])"
  using base64_roundtrip [of "[77, 97, 110, 33]" "replicate 12 0" "replicate 6 0"] by (simp add: numeral_eq_Suc)

end
