(* ===== verification/Smart_Config.thy ===== *)
theory Smart_Config
  imports Cmd_Field
begin

text \<open>
  The Wi-Fi provisioning tool \<^verbatim>\<open>misc/smart_config.c\<close>: it encodes the password of an access point in the
  lengths of the datagrams it sends. Modelled are the CRC table and \<^verbatim>\<open>crc8\<close>, the encoding of one byte
  (\<^verbatim>\<open>make_data_code\<close>), the whole code (\<^verbatim>\<open>make_code\<close>) and the datagrams of \<^verbatim>\<open>_send_data\<close>. Strings are the
  bytes before their terminating 0.
\<close>

section \<open>The checksum\<close>

abbreviation (input) CRC_POLYNOM :: u16 where "CRC_POLYNOM \<equiv> 0x8c"

definition crc_step :: "u16 \<Rightarrow> u16" where
  "crc_step remainder = (if remainder AND 0x01 \<noteq> 0 then drop_bit 1 remainder XOR CRC_POLYNOM else drop_bit 1 remainder)"

definition init_crcTable :: "u16 list" where
  "init_crcTable = map (\<lambda>dividend. (crc_step ^^ 8) (of_nat dividend)) [0..<256]"

text \<open>
  The running value is a \<^verbatim>\<open>short\<close>; \<^verbatim>\<open>value << 8\<close> is computed in \<^verbatim>\<open>int\<close> and cut back to 16 bits.
\<close>

definition crc8_body :: "u16 list \<Rightarrow> buf \<Rightarrow> nat \<Rightarrow> nat \<Rightarrow> u16 \<Rightarrow> u16 option" where
  "crc8_body crcTable b offset cnt v = do {
     x \<leftarrow> arr_get b (offset + cnt);
     let data = ucast x XOR v;
     t \<leftarrow> arr_get crcTable (unat (data AND 0xff));
     Some (t XOR push_bit 8 v)
   }"

definition crc8 :: "u16 list \<Rightarrow> buf \<Rightarrow> nat \<Rightarrow> nat \<Rightarrow> u8 option" where
  "crc8 crcTable b offset len = do {
     v \<leftarrow> for_list (crc8_body crcTable b offset) [0..<len] 0;
     Some (ucast (v AND 0xff))
   }"

section \<open>The code\<close>

definition make_data_code :: "u16 list \<Rightarrow> u16 \<Rightarrow> u8 \<Rightarrow> u16 list \<Rightarrow> u16 list option" where
  "make_data_code crcTable data index data_code = do {
     let datal = data AND 0xF;
     let datah = drop_bit 4 (data AND 0xF0);
     let offset = unat index * 3;
     crc \<leftarrow> crc8 crcTable [ucast data, index] 0 2;
     let crcl = ucast (crc AND 0xF);
     let crch = ucast (drop_bit 4 (crc AND 0xF0));
     data_code \<leftarrow> arr_set data_code offset ((push_bit 4 crch OR datah) + 40);
     data_code \<leftarrow> arr_set data_code (offset + 1) ((0x100 OR ucast index) + 40);
     arr_set data_code (offset + 2) ((push_bit 4 crcl OR datal) + 40)
   }"

text \<open>
  One pass of the three loops of \<^verbatim>\<open>make_code\<close>: encode a character and add it to the running XOR. Characters are
  read as unsigned; where \<^verbatim>\<open>char\<close> is signed the upper byte of \<^verbatim>\<open>tmp\<close> differs, of which
  \<^verbatim>\<open>make_data_code\<close> uses nothing.
\<close>

definition make_code_body :: "u16 list \<Rightarrow> buf \<Rightarrow> nat \<Rightarrow> nat \<Rightarrow> u16 list \<times> u16 \<Rightarrow> (u16 list \<times> u16) option" where
  "make_code_body crcTable str base cnt = (\<lambda>(data_code, total_xor). do {
     x \<leftarrow> arr_get str cnt;
     let tmp = ucast x;
     data_code \<leftarrow> make_data_code crcTable tmp (of_nat (base + cnt)) data_code;
     Some (data_code, total_xor XOR tmp)
   })"

text \<open>The result is \<^verbatim>\<open>data_code\<close> and \<^verbatim>\<open>dc_len\<close>.\<close>

definition make_code :: "buf \<Rightarrow> buf \<Rightarrow> buf \<Rightarrow> buf \<Rightarrow> u16 list \<Rightarrow> (u16 list \<times> int) option" where
  "make_code ssid pwd ip bssid data_code = do {
     let apPwdLen = (of_nat (length pwd) :: u16);
     let apSsidLen = (of_nat (length ssid) :: u16);
     let crcTable = init_crcTable;
     let total_len = 5 + 4 + apPwdLen + apSsidLen;
     data_code \<leftarrow> make_data_code crcTable total_len 0 data_code;
     let total_xor = 0 XOR total_len;
     data_code \<leftarrow> make_data_code crcTable apPwdLen 1 data_code;
     let total_xor = total_xor XOR apPwdLen;
     apSsidCrc \<leftarrow> crc8 crcTable ssid 0 (unat apSsidLen);
     data_code \<leftarrow> make_data_code crcTable (ucast apSsidCrc) 2 data_code;
     let total_xor = total_xor XOR ucast apSsidCrc;
     apBssidCrc \<leftarrow> crc8 crcTable bssid 0 6;
     data_code \<leftarrow> make_data_code crcTable (ucast apBssidCrc) 3 data_code;
     let total_xor = total_xor XOR ucast apBssidCrc;
     (data_code, total_xor) \<leftarrow> for_list (make_code_body crcTable ip 5) [0..<4] (data_code, total_xor);
     (data_code, total_xor) \<leftarrow> for_list (make_code_body crcTable pwd 9) [0..<unat apPwdLen] (data_code, total_xor);
     (data_code, total_xor) \<leftarrow> for_list (make_code_body crcTable ssid (9 + unat apPwdLen)) [0..<unat apSsidLen] (data_code, total_xor);
     data_code \<leftarrow> make_data_code crcTable total_xor 4 data_code;
     Some (data_code, (9 + uint apPwdLen) * 3)
   }"

section \<open>Sending\<close>

definition guide_code :: "u16 list" where
  "guide_code = [515, 514, 513, 512]"

definition getNextDatagramCount :: "int \<Rightarrow> int \<times> int" where
  "getNextDatagramCount datagramCount = (1 + datagramCount mod 100, datagramCount + 1)"

text \<open>
  A datagram is its target \<^verbatim>\<open>234.n.n.n\<close>, given as \<open>n\<close>, and its bytes, a prefix of \<^verbatim>\<open>_code\<close>. \<open>host_ok\<close> and \<open>sockfd\<close> are what
  \<^verbatim>\<open>gethostbyname\<close> and \<^verbatim>\<open>open_udp_clientfd\<close> returned.
\<close>

definition send_body :: "int \<Rightarrow> buf \<Rightarrow> u16 list \<Rightarrow> nat \<Rightarrow> (int \<times> buf) list \<Rightarrow> (int \<times> buf) list option" where
  "send_body host code b cnt out = do {
     n \<leftarrow> arr_get b cnt;
     if length code < unat n then None else Some (out @ [(host, take (unat n) code)])
   }"

definition send_data :: "bool \<Rightarrow> int \<Rightarrow> buf \<Rightarrow> int \<Rightarrow> u16 list \<Rightarrow> nat \<Rightarrow> nat \<Rightarrow> (int \<times> int \<times> (int \<times> buf) list) option" where
  "send_data host_ok sockfd code datagramCount b offset len = do {
     let (host, datagramCount) = getNextDatagramCount datagramCount;
     if \<not> host_ok then Some (- 1, datagramCount, [])
     else if sockfd < 0 then Some (- 2, datagramCount, [])
     else do {
       out \<leftarrow> for_list (send_body host code b) [offset..<offset + len] [];
       Some (0, datagramCount, out)
     }
   }"

section \<open>The checksum is CRC-8\<close>

text \<open>The reference: shift one bit at a time through the reflected polynomial, no table.\<close>

definition crc_shift :: "u8 \<Rightarrow> u8" where
  "crc_shift c = (if bit c 0 then drop_bit 1 c XOR 0x8c else drop_bit 1 c)"

definition crc_ref :: "u8 list \<Rightarrow> u8" where
  "crc_ref bs = fold (\<lambda>b c. (crc_shift ^^ 8) (c XOR b)) bs 0"

lemma crc_step_ucast: "crc_step (ucast c) = ucast (crc_shift c)"
proof -
  have o: "(ucast c :: u16) AND 1 \<noteq> 0 \<longleftrightarrow> bit c 0" 
    using CHECK_BIT_bit [of "ucast c :: u16" 0, unfolded CHECK_BIT_def] by (simp only: push_bit_of_1 power_0 bit_ucast_iff) simp
  have d: "drop_bit 1 (ucast c :: u16) = ucast (drop_bit 1 c)" by (rule bit_word_eqI) (auto simp: bit_simps dest: bit_imp_le_length)
  have x: "(ucast (a XOR b) :: u16) = ucast a XOR ucast b" for a b :: u8 by (rule unsigned_xor_eq)
  show ?thesis using o d x [of "drop_bit 1 c" "0x8c"] by (simp add: crc_step_def crc_shift_def)
qed

lemma crc_steps_ucast: "(crc_step ^^ n) (ucast c) = ucast ((crc_shift ^^ n) c)"
  by (induction n) (simp_all add: crc_step_ucast)

lemma crcTable_nth: "arr_get init_crcTable (unat (ucast (c :: u8) :: u16)) = Some (ucast ((crc_shift ^^ 8) c))"
proof -
  have l: "unat c < 256" using unsigned_less [of c] by simp
  then have u: "unat (ucast c :: u16) = unat c" by (simp add: unsigned_ucast_eq take_bit_nat_eq_self)
  with l show ?thesis using crc_steps_ucast [of 8 c]
    by (simp add: init_crcTable_def u del: funpow.simps upt_rec_numeral)
qed

lemma low_byte: "v AND 0xff = ucast (ucast (v :: u16) :: u8)"
proof -
  have "v AND 0xff = take_bit 8 v" by (simp add: take_bit_eq_mask mask_eq_exp_minus_1)
  also have "\<dots> = ucast (ucast v :: u8)" by (rule bit_word_eqI) (auto simp: bit_simps)
  finally show ?thesis .
qed

lemma crc8_pass:
  assumes "offset + cnt < length b"
  shows "runs (crc8_body init_crcTable b offset cnt v) (\<lambda>w. ucast w = (crc_shift ^^ 8) (ucast v XOR b ! (offset + cnt)))"
proof -
  have x: "(ucast (ucast (b ! (offset + cnt)) XOR v :: u16) :: u8) = ucast v XOR b ! (offset + cnt)"
    by (rule bit_word_eqI) (auto simp: bit_simps)
  have l: "(ucast (ucast c XOR push_bit 8 v :: u16) :: u8) = c" for c
    by (rule bit_word_eqI) (auto simp: bit_simps dest: bit_imp_le_length)
  show ?thesis using assms by (simp add: crc8_body_def low_byte x crcTable_nth l del: funpow.simps)
qed

lemma crc8_eq:
  assumes "offset + len \<le> length b"
  shows "crc8 init_crcTable b offset len = Some (crc_ref (take len (drop offset b)))"
proof -
  have "runs (for_list (crc8_body init_crcTable b offset) [0..<len] 0) (\<lambda>w. ucast w = crc_ref (take len (drop offset b)))"
    using assms
  proof (induction len)
    case (Suc len)
    then obtain v where v: "for_list (crc8_body init_crcTable b offset) [0..<len] 0 = Some v"
      "ucast v = crc_ref (take len (drop offset b))" by (auto elim!: runsE)
    have "take (Suc len) (drop offset b) = take len (drop offset b) @ [b ! (offset + len)]"
      using Suc.prems by (simp add: take_Suc_conv_app_nth)
    then have "crc_ref (take (Suc len) (drop offset b)) = (crc_shift ^^ 8) (ucast v XOR b ! (offset + len))"
      by (simp add: crc_ref_def v(2) del: funpow.simps)
    with crc8_pass [of offset len b v] Suc.prems show ?case by (simp add: for_list_append v(1) del: funpow.simps)
  qed (simp add: crc_ref_def)
  moreover have "(ucast (v AND 0xff :: u16) :: u8) = ucast v" for v
    unfolding low_byte by (rule bit_word_eqI) (auto simp: bit_simps)
  ultimately show ?thesis by (auto simp: crc8_def elim!: runsE)
qed

section \<open>What a receiver reads\<close>

text \<open>
  A receiver takes 40 off the three lengths of a code, joins the nibbles and accepts the byte and its index if the
  lengths are in range and the checksum is that of the two.
\<close>

definition read_code :: "u16 \<Rightarrow> u16 \<Rightarrow> u16 \<Rightarrow> (u8 \<times> u8) option" where
  "read_code a b c =
     (let a = a - 40; b = b - 40; c = c - 40;
          data = ucast (push_bit 4 (a AND 0xF) OR (c AND 0xF));
          crc = ucast ((a AND 0xF0) OR drop_bit 4 c);
          index = ucast b
      in if a \<le> 0xFF \<and> b \<le> 0x1FF \<and> c \<le> 0xFF \<and> b AND 0x100 \<noteq> 0 \<and> crc_ref [data, index] = crc then Some (data, index) else None)"

definition code_at :: "u16 list \<Rightarrow> nat \<Rightarrow> (u8 \<times> u8) option" where
  "code_at dc k = read_code (dc ! (3 * k)) (dc ! (3 * k + 1)) (dc ! (3 * k + 2))"

lemma nibbles:
  fixes data :: u16 and crc :: u8
  defines "a \<equiv> push_bit 4 (ucast (drop_bit 4 (crc AND 0xF0))) OR drop_bit 4 (data AND 0xF0)"
    and "c \<equiv> push_bit 4 (ucast (crc AND 0xF)) OR (data AND 0xF)"
  shows "ucast (push_bit 4 (a AND 0xF) OR (c AND 0xF)) = (ucast data :: u8)"
    and "ucast ((a AND 0xF0) OR drop_bit 4 c) = crc"
  unfolding a_def c_def
  by (rule bit8_eqI; elim insertE emptyE; simp add: bit_simps bit8_high)+

lemma index_code: "ucast (0x100 OR ucast (i :: u8) :: u16) = i" "(0x100 OR ucast i :: u16) AND 0x100 \<noteq> 0"
proof -
  show "ucast (0x100 OR ucast i :: u16) = i"
    by (rule bit8_eqI; elim insertE emptyE; simp add: bit_simps)
  have "bit ((0x100 OR ucast i :: u16) AND 0x100) 8" by (simp add: bit_simps)
  then show "(0x100 OR ucast i :: u16) AND 0x100 \<noteq> 0" by (metis bit_0_eq bot_apply bot_bool_def)
qed

lemma short_code:
  fixes x :: u16
  assumes "\<And>m. bit x m \<Longrightarrow> m < n"
  shows "x \<le> mask n"
proof -
  have "take_bit n x = x" using assms by (intro bit_word_eqI) (auto simp: bit_simps)
  then show ?thesis by (metis take_bit_eq_mask and.commute word_and_le1)
qed

lemma code_range:
  fixes data :: u16 and crc i :: u8
  shows "push_bit 4 (ucast (drop_bit 4 (crc AND 0xF0))) OR drop_bit 4 (data AND 0xF0) \<le> 0xFF"
    and "push_bit 4 (ucast (crc AND 0xF)) OR (data AND 0xF) \<le> 0xFF"
    and "0x100 OR ucast i \<le> (0x1FF :: u16)"
proof -
  have e: "(0xF0 :: u16) = push_bit 4 (mask 4)" "(0xF :: u16) = mask 4" "(0xF :: u8) = mask 4" "(0x100 :: u16) = push_bit 8 1"
    by (simp_all add: mask_eq_exp_minus_1)
  have "bit (push_bit 4 (mask 4) :: u16) m \<Longrightarrow> m < 8" "bit (mask 4 :: u16) m \<Longrightarrow> m < 4" "bit (mask 4 :: u8) m \<Longrightarrow> m < 4"
    "bit (push_bit 8 1 :: u16) m \<Longrightarrow> m < 9" for m
    by (auto simp only: bit_push_bit_iff bit_mask_iff bit_1_iff)
  note q = this [folded e]
  have m: "(0xFF :: u16) = mask 8" "(0x1FF :: u16) = mask 9" by (simp_all add: mask_eq_exp_minus_1)
  show "push_bit 4 (ucast (drop_bit 4 (crc AND 0xF0))) OR drop_bit 4 (data AND 0xF0) \<le> 0xFF"
    unfolding m by (rule short_code,
      auto simp only: bit_or_iff bit_push_bit_iff bit_drop_bit_eq o_apply bit_and_iff bit_ucast_iff dest!: q(1), auto dest!: bit_imp_le_length)
  show "push_bit 4 (ucast (crc AND 0xF)) OR (data AND 0xF) \<le> 0xFF"
    unfolding m by (rule short_code,
      auto simp only: bit_or_iff bit_push_bit_iff bit_and_iff bit_ucast_iff dest!: q(2,3))
  show "0x100 OR ucast i \<le> (0x1FF :: u16)"
    unfolding m by (rule short_code,
      auto simp only: bit_or_iff bit_ucast_iff dest!: q(4), auto dest!: bit_imp_le_length)
qed

lemma make_data_code_eq:
  assumes "3 * unat index + 2 < length dc"
  shows "runs (make_data_code init_crcTable data index dc) (\<lambda>dc'. length dc' = length dc \<and>
    code_at dc' (unat index) = Some (ucast data, index) \<and> (\<forall>k. k \<noteq> unat index \<longrightarrow> code_at dc' k = code_at dc k))"
proof -
  let ?crc = "crc_ref [ucast data, index]"
  have "crc8 init_crcTable [ucast data, index] 0 2 = Some ?crc" by (subst crc8_eq) simp_all
  moreover have "k \<noteq> unat index \<Longrightarrow> 3 * k + d \<noteq> 3 * unat index + e" if "d < 3" "e < 3" for k d e
    using that by presburger
  note this [of 0] this [of 1] this [of 2]
  ultimately show ?thesis using assms nibbles [of ?crc data] index_code [of index] code_range(1,2) [of ?crc data] code_range(3) [of index]
    by (simp add: make_data_code_def code_at_def read_code_def Let_def mult.commute [of _ 3] add.commute)
qed

lemma ucast_up_down [simp]: "ucast (ucast (b :: u8) :: u16) = b"
  by (rule bit_word_eqI) (auto simp: bit_simps)

text \<open>A code array and the bytes it carries, by index.\<close>

definition holds :: "u16 list \<Rightarrow> (nat \<rightharpoonup> u8) \<Rightarrow> bool" where
  "holds dc m \<longleftrightarrow> length dc = 1024 \<and> (\<forall>k b. m k = Some b \<longrightarrow> code_at dc k = Some (b, of_nat k))"

lemma holds_put:
  assumes "holds dc m"
  shows "runs (make_data_code init_crcTable data index dc) (\<lambda>dc'. holds dc' (m(unat index \<mapsto> ucast data)))"
proof -
  have "unat index < 256" using unsigned_less [of index] by simp
  then have "3 * unat index + 2 < length dc" using assms by (simp add: holds_def)
  from make_data_code_eq [OF this, of data] show ?thesis
    by (rule runs_mono) (use assms in \<open>auto simp: holds_def\<close>)
qed

definition segment :: "nat \<Rightarrow> buf \<Rightarrow> nat \<rightharpoonup> u8" where
  "segment base bs k = (if base \<le> k \<and> k < base + length bs then Some (bs ! (k - base)) else None)"

definition xor_all :: "u8 list \<Rightarrow> u16 \<Rightarrow> u16" where
  "xor_all bs x = fold (\<lambda>b x. x XOR ucast b) bs x"

lemma xor_all_low: "ucast (xor_all bs x) = fold (XOR) bs (ucast x :: u8)"
proof (induction bs arbitrary: x)
  case (Cons b bs)
  have "(ucast (x XOR ucast b) :: u8) = b XOR ucast x" by (rule bit_word_eqI) (auto simp: bit_simps)
  with Cons.IH [of "x XOR ucast b"] show ?case by (simp add: xor_all_def)
qed (simp add: xor_all_def)

lemma make_code_prefix:
  assumes "n \<le> length str" and "base + n \<le> 256" and "holds dc m"
  shows "runs (for_list (make_code_body init_crcTable str base) [0..<n] (dc, x))
    (\<lambda>(dc', x'). holds dc' (m ++ segment base (take n str)) \<and> x' = xor_all (take n str) x)"
  using assms
proof (induction n)
  case 0
  have "segment base [] = Map.empty" by (simp add: segment_def fun_eq_iff)
  with 0 show ?case by (simp add: xor_all_def)
next
  case (Suc n)
  then obtain d y where d: "for_list (make_code_body init_crcTable str base) [0..<n] (dc, x) = Some (d, y)"
    "holds d (m ++ segment base (take n str))" "y = xor_all (take n str) x" by (auto elim!: runsE)
  have u: "unat (of_nat (base + n) :: u8) = base + n" using Suc.prems by (simp add: unat_of_nat del: of_nat_add)
  have t: "take (Suc n) str = take n str @ [str ! n]" using Suc.prems(1) by (simp add: take_Suc_conv_app_nth)
  have m: "(m ++ segment base (take n str))(base + n \<mapsto> str ! n) = m ++ segment base (take (Suc n) str)"
    using Suc.prems(1) by (auto simp: fun_eq_iff map_add_def segment_def t nth_append)
  from holds_put [OF d(2), of "ucast (str ! n)" "of_nat (base + n)"] obtain d' where
    d': "make_data_code init_crcTable (ucast (str ! n)) (of_nat (base + n)) d = Some d'" "holds d' (m ++ segment base (take (Suc n) str))"
    unfolding u ucast_up_down m by (auto elim!: runsE)
  have "make_code_body init_crcTable str base n (d, y) = Some (d', y XOR ucast (str ! n))"
    using d'(1) Suc.prems(1) by (simp add: make_code_body_def)
  with d'(2) d(1,3) show ?case by (simp add: for_list_append t xor_all_def)
qed

text \<open>The two steps of \<^verbatim>\<open>make_code\<close>, each with what follows it.\<close>

lemma put_then:
  assumes "holds dc m" and "\<And>dc'. holds dc' (m(unat index \<mapsto> ucast data)) \<Longrightarrow> runs (f dc') P"
  shows "runs (Option.bind (make_data_code init_crcTable data index dc) f) P"
  using runs_mono [OF holds_put [OF assms(1)] assms(2)] by simp

lemma loop_then:
  assumes "holds dc m" and "n = length str" and "base + length str \<le> 256"
    and "\<And>dc'. holds dc' (m ++ segment base str) \<Longrightarrow> runs (f dc' (xor_all str x)) P"
  shows "runs (Option.bind (for_list (make_code_body init_crcTable str base) [0..<n] (dc, x)) (\<lambda>(dc', y). f dc' y)) P"
  using make_code_prefix [OF order_refl assms(3,1), of x] assms(2,4) by (auto elim!: runs_mono)

text \<open>The bytes the code has to carry, in the order of their indices; the fifth makes the XOR of all of them 0.\<close>

definition plan :: "buf \<Rightarrow> buf \<Rightarrow> buf \<Rightarrow> buf \<Rightarrow> u8 list" where
  "plan ssid pwd ip bssid =
     (let pre = [of_nat (9 + length pwd + length ssid), of_nat (length pwd), crc_ref ssid, crc_ref bssid];
          post = ip @ pwd @ ssid
      in pre @ [fold (XOR) (pre @ post) 0] @ post)"

lemma plan_xor: "fold (XOR) (plan ssid pwd ip bssid) 0 = 0"
proof -
  have x: "fold (XOR) bs a = a XOR fold (XOR) bs (0 :: u8)" for bs a
  proof (induction bs arbitrary: a)
    case (Cons b bs)
    from Cons.IH [of "b XOR a"] Cons.IH [of b] show ?case by (simp add: xor.assoc xor.commute xor.left_commute)
  qed simp
  have "fold (XOR) (pre @ [fold (XOR) (pre @ post) 0] @ post) 0 = (0 :: u8)" for pre post
    using x [of post "fold (XOR) (pre @ post) 0 XOR fold (XOR) pre 0"] x [of post "fold (XOR) pre 0"]
    by (simp add: xor.assoc xor.left_commute)
  then show ?thesis unfolding plan_def Let_def by blast
qed

definition plan_map :: "buf \<Rightarrow> buf \<Rightarrow> buf \<Rightarrow> buf \<Rightarrow> nat \<rightharpoonup> u8" where
  "plan_map ssid pwd ip bssid =
     (let pre = [of_nat (9 + length pwd + length ssid), of_nat (length pwd), crc_ref ssid, crc_ref bssid];
          m = Map.empty(0 \<mapsto> pre ! 0, 1 \<mapsto> pre ! 1, 2 \<mapsto> pre ! 2, 3 \<mapsto> pre ! 3)
      in (m ++ segment 5 ip ++ segment 9 pwd ++ segment (9 + length pwd) ssid)(4 \<mapsto> fold (XOR) (pre @ ip @ pwd @ ssid) 0))"

lemma plan_map_nth:
  assumes "length ip = 4" and "k < 9 + length pwd + length ssid"
  shows "plan_map ssid pwd ip bssid k = Some (plan ssid pwd ip bssid ! k)"
proof -
  consider "k = 0" | "k = 1" | "k = 2" | "k = 3" | "k = 4" | "5 \<le> k" by linarith
  then show ?thesis
  proof cases
    case 6
    then have "plan ssid pwd ip bssid ! k = (ip @ pwd @ ssid) ! (k - 5)"
      by (simp add: plan_def Let_def nth_Cons' numeral_eq_Suc)
    moreover have "plan_map ssid pwd ip bssid k = Some ((ip @ pwd @ ssid) ! (k - 5))"
      using assms 6 by (auto simp: plan_map_def Let_def map_add_def segment_def nth_append)
    ultimately show ?thesis by simp
  qed (auto simp: plan_map_def plan_def Let_def map_add_def segment_def)
qed

lemma make_code_eq:
  assumes "length ip = 4" and "length bssid = 6" and "9 + length pwd + length ssid \<le> 256" and "length dc = 1024"
  shows "runs (make_code ssid pwd ip bssid dc) (\<lambda>(dc', n). n = int (3 * (9 + length pwd)) \<and> holds dc' (plan_map ssid pwd ip bssid))"
proof -
  let ?p = "of_nat (length pwd) :: u16" and ?s = "of_nat (length ssid) :: u16" and ?T = "init_crcTable"
  have u: "unat ?p = length pwd" "unat ?s = length ssid" "uint ?p = int (length pwd)" using assms(3)
    by (simp_all add: unat_of_nat uint_nat)
  have c: "crc8 ?T ssid 0 (length ssid) = Some (crc_ref ssid)" "crc8 ?T bssid 0 6 = Some (crc_ref bssid)"
    using crc8_eq [of 0 "length ssid" ssid] crc8_eq [of 0 6 bssid] assms(2) by simp_all
  have h0: "holds dc Map.empty" using assms(4) by (simp add: holds_def)
  let ?x = "(((0 XOR (5 + 4 + ?p + ?s)) XOR ?p) XOR ucast (crc_ref ssid)) XOR ucast (crc_ref bssid)"
  let ?m = "Map.empty(unat (0 :: u8) \<mapsto> ucast (5 + 4 + ?p + ?s), unat (1 :: u8) \<mapsto> ucast ?p, unat (2 :: u8) \<mapsto> ucast (ucast (crc_ref ssid) :: u16),
    unat (3 :: u8) \<mapsto> ucast (ucast (crc_ref bssid) :: u16)) ++ segment 5 ip ++ segment 9 pwd ++ segment (9 + length pwd) ssid"
  let ?y = "xor_all ssid (xor_all pwd (xor_all ip ?x))"
  have w: "(ucast (of_nat k :: u16) :: u8) = of_nat k" for k by (rule bit_word_eqI) (auto simp: bit_simps)
  have t: "5 + 4 + ?p + ?s = of_nat (9 + length pwd + length ssid)" by simp
  have x: "(ucast (a XOR b :: u16) :: u8) = ucast a XOR ucast b" for a b by (rule bit_word_eqI) (auto simp: bit_simps)
  have "(ucast ?y :: u8) = fold (XOR) ([of_nat (9 + length pwd + length ssid), of_nat (length pwd), crc_ref ssid, crc_ref bssid] @ ip @ pwd @ ssid) 0"
    unfolding t by (simp only: xor_all_low x w ucast_up_down fold_append fold.simps id_def o_apply) (simp add: xor.assoc xor.commute xor.left_commute)
  then have last: "?m(unat (4 :: u8) \<mapsto> ucast ?y) = plan_map ssid pwd ip bssid"
    unfolding t plan_map_def Let_def by (simp only: w ucast_up_down) simp
  show ?thesis
    unfolding make_code_def Let_def u c bind.bind_lunit
    by (rule put_then, rule h0, rule put_then, assumption, rule put_then, assumption, rule put_then, assumption,
        rule loop_then, assumption, simp add: assms(1), simp add: assms(1), rule loop_then, assumption, rule refl, use assms(3) in simp,
        rule loop_then, assumption, rule refl, use assms(3) in simp, rule put_then, assumption, simp only: last runs_Some prod.case) simp
qed

section \<open>Properties\<close>

text \<open>
  C31. The table-driven checksum is CRC-8. On any part of a buffer, \<^verbatim>\<open>crc8\<close> with the table of \<^verbatim>\<open>init_crcTable\<close>
  returns what shifting the bytes bit by bit through the polynomial gives; the upper byte that its 16-bit running
  value carries along never shows.
\<close>

theorem crc8_table_correct:
  assumes "offset + len \<le> length b"
  shows "crc8 init_crcTable b offset len = Some (crc_ref (take len (drop offset b)))"
  by (rule crc8_eq [OF assms])

lemma xor_cancel: "a XOR k = b XOR k \<Longrightarrow> a = (b :: u8)" "k XOR a = k XOR b \<Longrightarrow> a = (b :: u8)"
  by (auto simp only: bit_eq_iff bit_xor_iff)

lemma crc_shift_inj: "inj crc_shift"
proof (rule injI)
  fix c d
  assume eq: "crc_shift c = crc_shift d"
  have "bit (crc_shift x) 7 = bit x 0" for x by (simp add: crc_shift_def bit_simps bit8_high)
  with eq have z: "bit c 0 = bit d 0" by metis
  with eq have "drop_bit 1 c = drop_bit 1 d" by (auto simp: crc_shift_def dest!: xor_cancel split: if_splits)
  then have "bit c (Suc n) = bit d (Suc n)" for n by (metis bit_drop_bit_eq comp_apply plus_1_eq_Suc)
  with z show "c = d" by (intro bit_word_eqI) (metis not0_implies_Suc)
qed

lemma crc_fold_inj:
  "fold (\<lambda>b c. (crc_shift ^^ 8) (c XOR b)) bs c = fold (\<lambda>b c. (crc_shift ^^ 8) (c XOR b)) bs d \<Longrightarrow> c = d"
proof (induction bs arbitrary: c d)
  case (Cons b bs)
  then have "(crc_shift ^^ 8) (c XOR b) = (crc_shift ^^ 8) (d XOR b)" by (simp del: funpow.simps)
  then have "c XOR b = d XOR b" using inj_fn [OF crc_shift_inj, of 8] by (simp add: inj_eq del: funpow.simps)
  then show ?case by (rule xor_cancel)
qed simp

text \<open>
  The checksum detects every error that changes one byte: buffers that differ in exactly one byte have different
  \<^verbatim>\<open>crc8\<close> values.
\<close>

theorem crc8_detects_byte:
  assumes "i < length b" and "v \<noteq> b ! i"
  shows "crc8 init_crcTable (b[i := v]) 0 (length b) \<noteq> crc8 init_crcTable b 0 (length b)"
proof
  assume "crc8 init_crcTable (b[i := v]) 0 (length b) = crc8 init_crcTable b 0 (length b)"
  then have "crc_ref (b[i := v]) = crc_ref b" by (simp add: crc8_eq)
  then have eq: "crc_ref (take i b @ v # drop (Suc i) b) = crc_ref (take i b @ b ! i # drop (Suc i) b)"
    using upd_conv_take_nth_drop [OF assms(1), of v] id_take_nth_drop [OF assms(1)] by metis
  let ?c = "crc_ref (take i b)"
  from eq have "(crc_shift ^^ 8) (?c XOR v) = (crc_shift ^^ 8) (?c XOR b ! i)"
    by (simp add: crc_ref_def del: funpow.simps) (blast dest: crc_fold_inj)
  then have "?c XOR v = ?c XOR b ! i" using inj_fn [OF crc_shift_inj, of 8] by (simp add: inj_eq del: funpow.simps)
  then have "v = b ! i" by (rule xor_cancel)
  with assms(2) show False ..
qed

text \<open>
  C30. A receiver of the datagrams gets the configuration back. For a password and a network name of together at most 247
  bytes, \<^verbatim>\<open>make_code\<close> fills the code array without leaving it; each of its codes is accepted and read as the byte of its
  index: the total length, the length of the password, the checksums of name and access point, the XOR of all other
  bytes, the address of the box, the password, the name; and the codes that are sent are those up to the
  end of the password.
\<close>

theorem smart_config_roundtrip:
  assumes "length ip = 4" and "length bssid = 6" and "9 + length pwd + length ssid \<le> 256" and "length dc = 1024"
  shows "runs (make_code ssid pwd ip bssid dc) (\<lambda>(dc', n). n = int (3 * (9 + length pwd)) \<and>
    (\<forall>k < 9 + length pwd + length ssid. read_code (dc' ! (3 * k)) (dc' ! (3 * k + 1)) (dc' ! (3 * k + 2)) =
       Some (plan ssid pwd ip bssid ! k, of_nat k)) \<and>
    fold (XOR) (plan ssid pwd ip bssid) 0 = 0)"
  using make_code_eq [OF assms] plan_map_nth [OF assms(1)]
  by (auto simp: holds_def code_at_def plan_xor elim!: runs_mono)

lemma plus_40: "x - 40 \<le> (0x1FF :: u16) \<Longrightarrow> unat x \<le> 1024"
proof -
  assume "x - 40 \<le> 0x1FF"
  then have "unat (x - 40) \<le> 511" by (simp add: word_le_nat_alt)
  then have "unat ((x - 40) + 40) \<le> 1024" by (simp only: unat_word_ariths(1)) simp
  then show ?thesis by simp
qed

lemma read_code_range: "read_code a b c = Some r \<Longrightarrow> unat a \<le> 1024 \<and> unat b \<le> 1024 \<and> unat c \<le> 1024"
  by (auto simp: read_code_def Let_def split: if_splits intro!: plus_40 order_trans [of "_ - 40" "0xFF" "0x1FF"])

text \<open>
  The sender stays inside its arrays. Every code of the configuration that \<^verbatim>\<open>main\<close> sends, three datagrams at a time, is
  in \<^verbatim>\<open>data_code\<close> and asks for at most the 1024 bytes of \<^verbatim>\<open>_code\<close>; the datagrams go to one multicast group with a
  number from 1 to 100, and their lengths are the code.
\<close>

theorem smart_config_sends:
  assumes "length ip = 4" and "length bssid = 6" and "9 + length pwd + length ssid \<le> 256" and "length dc = 1024"
    and "0 \<le> fd" and "length code = 1024" and "k < 9 + length pwd" and "0 \<le> count"
  shows "runs (do { (dc, n) \<leftarrow> make_code ssid pwd ip bssid dc; r \<leftarrow> send_data True fd code count dc (3 * k) 3; Some (dc, r) })
    (\<lambda>(dc, r, count', out). r = 0 \<and> count' = count + 1 \<and> (\<forall>(host, bytes) \<in> set out. 1 \<le> host \<and> host \<le> 100) \<and>
       map (\<lambda>(host, bytes). length bytes) out = [unat (dc ! (3 * k)), unat (dc ! (3 * k + 1)), unat (dc ! (3 * k + 2))])"
proof -
  from make_code_eq [OF assms(1-4)] plan_map_nth [OF assms(1), of k pwd ssid bssid] assms(7) obtain d n where
    d: "make_code ssid pwd ip bssid dc = Some (d, n)" "length d = 1024" "code_at d k = Some (plan ssid pwd ip bssid ! k, of_nat k)"
    by (auto simp: holds_def elim!: runsE)
  from read_code_range [OF d(3) [unfolded code_at_def]] have
    r: "unat (d ! (3 * k)) \<le> 1024" "unat (d ! (3 * k + 1)) \<le> 1024" "unat (d ! (3 * k + 2)) \<le> 1024" by auto
  have u: "[3 * k..<3 * k + 3] = [3 * k, 3 * k + 1, 3 * k + 2]" by (simp add: upt_conv_Cons)
  have h: "1 \<le> 1 + count mod 100" "1 + count mod 100 \<le> 100" using assms(8) by (simp, presburger)
  show ?thesis using assms(3,5-7) d(2) r h unfolding d(1) bind.bind_lunit prod.case send_data_def u
    by (simp add: getNextDatagramCount_def send_body_def)
qed

section \<open>Witnesses\<close>

theorem crc8_table_correct_witness: "crc8 init_crcTable [9, 1, 2, 3, 7] 1 3 = Some 0xD8"
proof -
  have "crc_ref [1, 2, 3] = 0xD8" by code_simp
  with crc8_table_correct [of 1 3 "[9, 1, 2, 3, 7]"] show ?thesis by (simp add: numeral_eq_Suc)
qed

theorem crc8_detects_byte_witness:
  "crc8 init_crcTable [1, 2, 3] 0 3 \<noteq> crc8 init_crcTable [1, 6, 3] 0 3"
proof -
  have "crc8 init_crcTable ([1, 6, 3][1 := 2]) 0 (length [1, 6, 3 :: u8]) \<noteq> crc8 init_crcTable [1, 6, 3] 0 (length [1, 6, 3 :: u8])"
    by (rule crc8_detects_byte) simp_all
  then show ?thesis by (simp add: numeral_3_eq_3)
qed

theorem smart_config_roundtrip_witness:
  "runs (make_code [110, 101, 116] [115, 101] [192, 168, 1, 9] [1, 2, 3, 4, 5, 6] (replicate 1024 0)) (\<lambda>(dc, n). n = 33 \<and>
    read_code (dc ! 27) (dc ! 28) (dc ! 29) = Some (115, 9))"
proof -
  let ?q = "\<lambda>dc. \<forall>k < 14. read_code (dc ! (3 * k)) (dc ! (3 * k + 1)) (dc ! (3 * k + 2)) =
    Some (plan [110, 101, 116] [115, 101] [192, 168, 1, 9] [1, 2, 3, 4, 5, 6] ! k, of_nat k)"
  have p: "plan [110, 101, 116] [115, 101] [192, 168, 1, 9] [1, 2, 3, 4, 5, 6] ! 9 = 115" by (simp add: plan_def Let_def)
  have "read_code (dc ! 27) (dc ! 28) (dc ! 29) = Some (115, 9)" if "?q dc" for dc
    using that [rule_format, of 9] p by simp
  then show ?thesis
    using smart_config_roundtrip [of "[192, 168, 1, 9]" "[1, 2, 3, 4, 5, 6]" "[115, 101]" "[110, 101, 116]" "replicate 1024 0"]
    by (auto elim!: runs_mono)
qed

theorem smart_config_sends_witness:
  "runs (do { (dc, n) \<leftarrow> make_code [110, 101, 116] [115, 101] [192, 168, 1, 9] [1, 2, 3, 4, 5, 6] (replicate 1024 0);
      r \<leftarrow> send_data True 3 (replicate 1024 0x31) 99 dc (3 * 10) 3; Some (dc, r) })
    (\<lambda>(dc, r, count', out). r = 0 \<and> count' = 100 \<and> map (\<lambda>(host, bytes). length bytes) out = [unat (dc ! 30), unat (dc ! 31), unat (dc ! 32)])"
  by (rule runs_mono [OF smart_config_sends]) auto

end
