(* ===== verification/Smart_Main.thy ===== *)
theory Smart_Main
  imports Smart_Config Sys_Sockets
begin

text \<open>
  The \<^verbatim>\<open>main\<close> of \<^verbatim>\<open>misc/smart_config.c\<close>: arguments, the code, the schedule of the datagrams by the clock, and the
  thread that listens for the devices that have joined. The system is an argument: the time of
  every call of \<^verbatim>\<open>gettimeofday\<close>, counted from 0, and for every call of \<^verbatim>\<open>_send_data\<close>, which \<^verbatim>\<open>_datagramCount\<close>
  counts, whether \<^verbatim>\<open>gethostbyname\<close> finds the host and which socket is opened. Both loops of \<^verbatim>\<open>main\<close> take fuel and end in
  \<^term>\<open>None\<close> without it.
\<close>

section \<open>The sender\<close>

type_synonym u64 = "64 word"

record sc_env =
  time_of_day :: "nat \<Rightarrow> int \<times> int"
  host_found :: "int \<Rightarrow> bool"
  sock_of :: "int \<Rightarrow> int"
  ip_sock :: int
  ip_ioctl :: int
  ip_ifr :: sockaddr_in
  ip_junk :: u32
  thread_created :: bool

record sc_state =
  readings :: nat
  datagramCount :: int
  index :: int
  current_time :: u64
  last_time :: u64
  sent :: "(int \<times> buf) list"

definition get_millisecond :: "sc_env \<Rightarrow> nat \<Rightarrow> u64" where
  "get_millisecond e i = (let (tv_sec, tv_usec) = time_of_day e i in of_int tv_sec * 1000 + of_int (tv_usec div 1000))"

definition tick :: "sc_state \<Rightarrow> sc_state" where
  "tick s = s\<lparr>readings := Suc (readings s)\<rparr>"

text \<open>\<^verbatim>\<open>_code\<close> after the \<^verbatim>\<open>memset\<close> of \<^verbatim>\<open>make_code\<close>. The result of \<^verbatim>\<open>_send_data\<close> is not looked at.\<close>

definition filler :: buf where
  "filler = replicate 1024 0x31"

definition send_codes :: "sc_env \<Rightarrow> u16 list \<Rightarrow> int \<Rightarrow> nat \<Rightarrow> sc_state \<Rightarrow> sc_state option" where
  "send_codes e b offset len s = do {
     (ret, count, out) \<leftarrow> send_data (host_found e (datagramCount s)) (sock_of e (datagramCount s)) filler (datagramCount s) b (nat offset) len;
     Some (s\<lparr>datagramCount := count, sent := sent s @ out\<rparr>)
   }"

fun guide_loop :: "nat \<Rightarrow> sc_env \<Rightarrow> u64 \<Rightarrow> sc_state \<Rightarrow> sc_state option" where
  "guide_loop 0 e start_time s = None"
| "guide_loop (Suc n) e start_time s =
     (let now = get_millisecond e (readings s); s = tick s in
      if now - current_time s < 2000 then do {
        s \<leftarrow> send_codes e guide_code 0 4 s;
        let now = get_millisecond e (readings s);
        let s = tick s;
        if now - start_time > 45000 then Some s else guide_loop n e start_time s
      }
      else Some s)"

fun send_loop :: "nat \<Rightarrow> sc_env \<Rightarrow> u16 list \<Rightarrow> int \<Rightarrow> u64 \<Rightarrow> sc_state \<Rightarrow> sc_state option" where
  "send_loop 0 e data_code dc_len start_time s = None"
| "send_loop (Suc n) e data_code dc_len start_time s = do {
     s \<leftarrow> (if current_time s - last_time s \<ge> 6000 then do {
             s \<leftarrow> guide_loop (Suc n) e start_time s;
             Some (s\<lparr>last_time := current_time s\<rparr>)
           }
           else do {
             s \<leftarrow> send_codes e data_code (index s) 3 s;
             Some (s\<lparr>index := (index s + 3) mod dc_len\<rparr>)
           });
     let s = tick (s\<lparr>current_time := get_millisecond e (readings s)\<rparr>);
     if current_time s - start_time > 45000 then Some s else send_loop n e data_code dc_len start_time s
   }"

section \<open>The program\<close>

definition mac_format :: "fmt list" where
  "mac_format = [PCT_WX 2, LIT CHR '':'', PCT_WX 2, LIT CHR '':'', PCT_WX 2, LIT CHR '':'', PCT_WX 2, LIT CHR '':'',
     PCT_WX 2, LIT CHR '':'', PCT_WX 2]"

text \<open>
  The result of \<^verbatim>\<open>get_ip\<close> is not looked at: when it fails, the address is what the stack held. \<^verbatim>\<open>argv\<close> includes
  the name of the program. What is printed is left out.
\<close>

definition sc_main :: "nat \<Rightarrow> sc_env \<Rightarrow> string list \<Rightarrow> sys \<Rightarrow> (int \<times> (int \<times> buf) list) option" where
  "sc_main fuel e argv y =
     (if length argv < 4 then Some (- 1, [])
      else let (ret, addr, y) = get_ip (ip_sock e) (ip_ioctl e) (ip_ifr e) (ip_junk e) y in do {
        mac_i \<leftarrow> sscanf mac_format (argv ! 3);
        if length mac_i \<noteq> 6 then Some (- 3, [])
        else do {
          let mac = map (\<lambda>i. of_int i AND 0xff) mac_i;
          (data_code, dc_len) \<leftarrow> make_code (bytes (argv ! 1)) (bytes (argv ! 2)) (le32 addr) mac (replicate 1024 0);
          if \<not> thread_created e then Some (- 1, [])
          else do {
            let start_time = get_millisecond e 0;
            s \<leftarrow> send_loop fuel e data_code dc_len start_time
              \<lparr>readings = 1, datagramCount = 0, index = 0, current_time = start_time, last_time = start_time - 6000, sent = []\<rparr>;
            Some (0, sent s)
          }
        }
      })"

section \<open>The listener\<close>

text \<open>What \<^verbatim>\<open>listen_thread\<close> prints in a round.\<close>

datatype printed = Listen_Timeout | Device buf buf | Ret int

record listen_round =
  lr_select :: int
  lr_recv :: int
  lr_buf :: buf

definition listen_dev :: "int \<Rightarrow> buf \<Rightarrow> printed option" where
  "listen_dev ret rbuf =
     (if ret = 11 then
        if length rbuf < 11 then None else Some (Device (take 6 (drop 1 rbuf)) (take 4 (drop 7 rbuf)))
      else Some (Ret ret))"

text \<open>The rounds that come; the flag says whether the thread has ended.\<close>

fun listen_thread :: "listen_round list \<Rightarrow> (bool \<times> printed list) option" where
  "listen_thread [] = Some (False, [])"
| "listen_thread (r # rs) =
     (if lr_select r < 0 then listen_thread rs
      else if lr_select r = 0 then Some (True, [Listen_Timeout])
      else do {
        p \<leftarrow> listen_dev (lr_recv r) (lr_buf r);
        (stop, ps) \<leftarrow> listen_thread rs;
        Some (stop, p # ps)
      })"

section \<open>What is sent\<close>

text \<open>
  A transmission: \<open>True\<close> is a burst of guide codes, \<open>False\<close> the next of \<open>n\<close> data codes, from the \<open>k\<close>-th on,
  beginning again after the last.
\<close>

fun transmission :: "u16 list \<Rightarrow> nat \<Rightarrow> nat \<Rightarrow> bool list \<Rightarrow> u16 list" where
  "transmission dc n k [] = []"
| "transmission dc n k (True # bs) = guide_code @ transmission dc n k bs"
| "transmission dc n k (False # bs) = take 3 (drop (3 * (k mod n)) dc) @ transmission dc n (Suc k) bs"

definition lens :: "sc_state \<Rightarrow> nat list" where
  "lens s = map (\<lambda>(host, b). length b) (sent s)"

definition net_up :: "sc_env \<Rightarrow> bool" where
  "net_up e \<longleftrightarrow> (\<forall>i. host_found e i \<and> 0 \<le> sock_of e i)"

definition short_enough :: "u16 list \<Rightarrow> bool" where
  "short_enough b \<longleftrightarrow> (\<forall>n \<in> set b. unat n \<le> 1024)"

lemma send_body_loop:
  assumes "short_enough (take len (drop offset b))" and "offset + len \<le> length b"
  shows "for_list (send_body host filler b) [offset..<offset + len] out =
    Some (out @ map (\<lambda>n. (host, take (unat n) filler)) (take len (drop offset b)))"
  using assms
proof (induction len)
  case (Suc len)
  have t: "take (Suc len) (drop offset b) = take len (drop offset b) @ [b ! (offset + len)]"
    using Suc.prems(2) by (simp add: take_Suc_conv_app_nth)
  from Suc.prems have "short_enough (take len (drop offset b))" "unat (b ! (offset + len)) \<le> 1024"
    unfolding t by (auto simp: short_enough_def)
  with Suc.IH Suc.prems(2) show ?case unfolding t by (simp add: for_list_append send_body_def filler_def)
qed simp

lemma send_codes_ok:
  assumes "net_up e" and "short_enough (take len (drop (nat offset) b))" and "nat offset + len \<le> length b"
  shows "runs (send_codes e b offset len s) (\<lambda>t. lens t = lens s @ map unat (take len (drop (nat offset) b)) \<and>
    readings t = readings s \<and> index t = index s \<and> current_time t = current_time s)"
proof -
  have "length (take (unat n) filler) = unat n" if "n \<in> set (take len (drop (nat offset) b))" for n
    using assms(2) that by (simp add: short_enough_def filler_def)
  with assms(1) show ?thesis
    by (simp add: send_codes_def send_data_def getNextDatagramCount_def net_up_def send_body_loop [OF assms(2,3)] lens_def
        not_less [symmetric])
qed

definition late_from :: "sc_env \<Rightarrow> nat \<Rightarrow> bool" where
  "late_from e N \<longleftrightarrow> (\<forall>i \<ge> N. get_millisecond e i - get_millisecond e 0 > 45000)"

lemma guide_short: "short_enough guide_code" "length guide_code = 4" "nat 0 + 4 \<le> length guide_code"
  by (simp_all add: short_enough_def guide_code_def)

lemma transmission_guides:
  "transmission dc n k (replicate m True @ bs) = concat (replicate m guide_code) @ transmission dc n k bs"
  by (induction m) simp_all

lemma guide_loop_ends:
  assumes "net_up e" and "late_from e N" and "N - readings s < fuel"
  shows "runs (guide_loop fuel e (get_millisecond e 0) s) (\<lambda>t. (\<exists>m. lens t = lens s @ map unat (concat (replicate m guide_code))) \<and>
    readings s < readings t \<and> index t = index s \<and> current_time t = current_time s)"
  using assms(3)
proof (induction fuel arbitrary: s)
  case (Suc fuel)
  let ?P = "\<lambda>s t. (\<exists>m. lens t = lens s @ map unat (concat (replicate m guide_code))) \<and>
    readings s < readings t \<and> index t = index s \<and> current_time t = current_time s"
  show ?case
  proof (cases "get_millisecond e (readings s) - current_time (tick s) < 2000")
    case True
    have g: "short_enough (take 4 (drop (nat 0) guide_code))" using guide_short by simp
    obtain u where u: "send_codes e guide_code 0 4 (tick s) = Some u" "lens u = lens s @ map unat guide_code"
      "readings u = Suc (readings s)" "index u = index s" "current_time u = current_time s"
      using send_codes_ok [OF assms(1) g guide_short(3), of "tick s"] guide_short(2)
      by (auto simp: tick_def lens_def elim!: runsE)
    have one: "?P s (tick u)" using u by (auto simp: tick_def lens_def intro!: exI [of _ "Suc 0"])
    show ?thesis
    proof (cases "get_millisecond e (readings u) - get_millisecond e 0 > 45000")
      case True
      with \<open>_ < 2000\<close> u(1) one show ?thesis by (simp add: Let_def)
    next
      case False
      then have "readings u < N" using assms(2) by (auto simp: late_from_def not_le [symmetric])
      with Suc.prems u(3) have "N - readings (tick u) < fuel" by (simp add: tick_def)
      from Suc.IH [OF this] have "runs (guide_loop fuel e (get_millisecond e 0) (tick u)) (?P (tick u))" .
      then have "runs (guide_loop fuel e (get_millisecond e 0) (tick u)) (?P s)"
      proof (rule runs_mono, elim conjE exE)
        fix t m assume "lens t = lens (tick u) @ map unat (concat (replicate m guide_code))" and r: "readings (tick u) < readings t"
          "index t = index (tick u)" "current_time t = current_time (tick u)"
        with u(2) have "lens t = lens s @ map unat (concat (replicate (Suc m) guide_code))" by (simp add: tick_def lens_def)
        with r one show "?P s t" by (metis less_trans)
      qed
      with \<open>_ < 2000\<close> False u(1) show ?thesis by (simp add: Let_def)
    qed
  next
    case False
    have "?P s (tick s)" by (auto simp: tick_def lens_def intro!: exI [of _ 0])
    with False show ?thesis by (simp add: Let_def)
  qed
qed simp

lemma next_index:
  assumes "0 < n"
  shows "(int (3 * (k mod n)) + 3) mod int (3 * n) = int (3 * (Suc k mod n))"
proof -
  have "(int (3 * (k mod n)) + 3) mod int (3 * n) = int ((3 * (Suc (k mod n))) mod (3 * n))" by (simp add: zmod_int add.commute)
  then show ?thesis by (simp only: mult_mod_right [symmetric] mod_Suc_eq)
qed

text \<open>One round of the outer loop sends some bursts of guide codes or the next data code.\<close>

definition round_sends :: "u16 list \<Rightarrow> nat \<Rightarrow> nat \<Rightarrow> sc_state \<Rightarrow> sc_state \<Rightarrow> bool" where
  "round_sends dc n k s t \<longleftrightarrow> (\<exists>bs k'. lens t = lens s @ map unat (transmission dc n k bs) \<and> index t = int (3 * (k' mod n)) \<and>
     (\<forall>cs. transmission dc n k (bs @ cs) = transmission dc n k bs @ transmission dc n k' cs))"

lemma round_sends_trans:
  assumes "round_sends dc n k s t" and "\<And>k'. index t = int (3 * (k' mod n)) \<Longrightarrow> \<exists>cs. lens u = lens t @ map unat (transmission dc n k' cs)"
  shows "\<exists>bs. lens u = lens s @ map unat (transmission dc n k bs)"
proof -
  from assms(1) obtain bs k' where b: "lens t = lens s @ map unat (transmission dc n k bs)" "index t = int (3 * (k' mod n))"
    "\<And>cs. transmission dc n k (bs @ cs) = transmission dc n k bs @ transmission dc n k' cs" by (auto simp: round_sends_def)
  from assms(2) [OF b(2)] obtain cs where "lens u = lens t @ map unat (transmission dc n k' cs)" ..
  with b have "lens u = lens s @ map unat (transmission dc n k (bs @ cs))" by simp
  then show ?thesis ..
qed

lemma guide_round:
  assumes "lens t = lens s @ map unat (concat (replicate m guide_code))" and "index t = int (3 * (k mod n))"
  shows "round_sends dc n k s t"
  using assms transmission_guides [of dc n k m "[]"] transmission_guides [of dc n k m]
  by (auto simp: round_sends_def intro!: exI [of _ "replicate m True"] exI [of _ k])

lemma data_round:
  assumes "0 < n" and "lens t = lens s @ map unat (take 3 (drop (3 * (k mod n)) dc))" and "index t = (int (3 * (k mod n)) + 3) mod int (3 * n)"
  shows "round_sends dc n k s t"
  using assms(2,3) unfolding next_index [OF assms(1)]
  by (auto simp: round_sends_def intro!: exI [of _ "[False]"] exI [of _ "Suc k"])

lemma send_loop_ends:
  assumes "net_up e" and "late_from e N" and "0 < n" and "3 * n \<le> length dc" and "short_enough (take (3 * n) dc)"
    and "N - readings s < fuel" and "index s = int (3 * (k mod n))"
  shows "runs (send_loop fuel e dc (int (3 * n)) (get_millisecond e 0) s) (\<lambda>t. \<exists>bs. lens t = lens s @ map unat (transmission dc n k bs))"
  using assms(6,7)
proof (induction fuel arbitrary: s k)
  case (Suc fuel)
  let ?round = "if current_time s - last_time s \<ge> 6000
    then do { s \<leftarrow> guide_loop (Suc fuel) e (get_millisecond e 0) s; Some (s\<lparr>last_time := current_time s\<rparr>) }
    else do { s \<leftarrow> send_codes e dc (index s) 3 s; Some (s\<lparr>index := (index s + 3) mod int (3 * n)\<rparr>) }"
  have "k mod n < n" using assms(3) by simp
  then have room: "3 * (k mod n) + 3 \<le> 3 * n" by simp
  then have "take 3 (drop (3 * (k mod n)) (take (3 * n) dc)) = take 3 (drop (3 * (k mod n)) dc)" by (simp add: drop_take)
  then have short: "short_enough (take 3 (drop (nat (index s)) dc))"
    using assms(5) Suc.prems(2) by (metis (no_types) in_set_dropD in_set_takeD nat_int short_enough_def)
  have "runs ?round (\<lambda>t. round_sends dc n k s t \<and> readings s \<le> readings t)"
  proof (cases "current_time s - last_time s \<ge> 6000")
    case True
    then show ?thesis using guide_loop_ends [OF assms(1,2) Suc.prems(1)] Suc.prems(2)
      by (auto simp: lens_def elim!: runs_mono intro!: guide_round)
  next
    case False
    have "nat (index s) + 3 \<le> length dc" using room assms(4) Suc.prems(2) by simp
    from send_codes_ok [OF assms(1) short this, of s] False Suc.prems(2) show ?thesis
      by (auto simp: lens_def nat_mult_distrib elim!: runs_mono intro!: data_round [OF assms(3)])
  qed
  then obtain t where t: "?round = Some t" "round_sends dc n k s t" "readings s \<le> readings t" by (rule runsE) blast
  let ?t = "tick (t\<lparr>current_time := get_millisecond e (readings t)\<rparr>)"
  have same: "lens ?t = lens t" "index ?t = index t" "current_time ?t = get_millisecond e (readings t)" "readings ?t = Suc (readings t)"
    by (simp_all add: tick_def lens_def)
  show ?case
  proof (cases "get_millisecond e (readings t) - get_millisecond e 0 > 45000")
    case True
    have "\<exists>bs. lens ?t = lens s @ map unat (transmission dc n k bs)" using t(2) same(1) by (auto simp: round_sends_def)
    with True same(3) show ?thesis unfolding send_loop.simps(2) t(1) bind.bind_lunit Let_def by simp
  next
    case False
    then have "readings t < N" using assms(2) by (auto simp: late_from_def not_le [symmetric])
    with Suc.prems(1) t(3) same(4) have "N - readings ?t < fuel" by simp
    from Suc.IH [OF this] have ih: "index t = int (3 * (k' mod n)) \<Longrightarrow>
        runs (send_loop fuel e dc (int (3 * n)) (get_millisecond e 0) ?t) (\<lambda>u. \<exists>cs. lens u = lens t @ map unat (transmission dc n k' cs))" for k'
      using same(1,2) by simp
    from t(2) obtain k' where "index t = int (3 * (k' mod n))" by (auto simp: round_sends_def)
    from ih [OF this] obtain u where u: "send_loop fuel e dc (int (3 * n)) (get_millisecond e 0) ?t = Some u" by (rule runsE)
    with ih have "\<And>k'. index t = int (3 * (k' mod n)) \<Longrightarrow> \<exists>cs. lens u = lens t @ map unat (transmission dc n k' cs)" by simp
    from round_sends_trans [OF t(2) this] False same(3) u show ?thesis unfolding send_loop.simps(2) t(1) bind.bind_lunit Let_def by simp
  qed
qed simp

section \<open>The first cycle\<close>

text \<open>
  Milliseconds since the start at the \<open>i\<close>-th reading of the clock; \<open>paced e D\<close>: it never goes back behind the start, and
  at most \<open>D\<close> milliseconds pass from one reading to the next.
\<close>

definition elapsed :: "sc_env \<Rightarrow> nat \<Rightarrow> nat" where
  "elapsed e i = unat (get_millisecond e i - get_millisecond e 0)"

definition paced :: "sc_env \<Rightarrow> nat \<Rightarrow> bool" where
  "paced e D \<longleftrightarrow> (\<forall>i. elapsed e (Suc i) \<le> elapsed e i + D)"

lemma elapsed_simps:
  "get_millisecond e i - get_millisecond e 0 < numeral c \<longleftrightarrow> elapsed e i < unat (numeral c :: u64)"
  "numeral c < get_millisecond e i - get_millisecond e 0 \<longleftrightarrow> unat (numeral c :: u64) < elapsed e i"
  "numeral c \<le> get_millisecond e i - get_millisecond e 0 \<longleftrightarrow> unat (numeral c :: u64) \<le> elapsed e i"
  by (simp_all add: elapsed_def word_less_nat_alt word_le_nat_alt)

lemma late_fromD: "late_from e N \<Longrightarrow> N \<le> i \<Longrightarrow> 45000 < elapsed e i"
  by (simp add: late_from_def elapsed_simps)

text \<open>The guide phase of the start lasts two seconds and at most three readings more.\<close>

lemma first_guides:
  assumes "net_up e" and "paced e D" and "D < 2000" and "elapsed e (readings s) < 2000 + 2 * D" and "current_time s = get_millisecond e 0"
    and "guide_loop fuel e (get_millisecond e 0) s = Some t"
  shows "(\<exists>m. lens t = lens s @ map unat (concat (replicate m guide_code)) \<and> (elapsed e (readings s) < 2000 \<longrightarrow> 0 < m)) \<and>
    elapsed e (readings t) < 2000 + 3 * D"
  using assms(4-)
proof (induction fuel arbitrary: s)
  case (Suc fuel)
  have step: "elapsed e (Suc i) \<le> elapsed e i + D" for i using assms(2) by (simp add: paced_def)
  show ?case
  proof (cases "elapsed e (readings s) < 2000")
    case True
    have g: "short_enough (take 4 (drop (nat 0) guide_code))" using guide_short by simp
    obtain u where u: "send_codes e guide_code 0 4 (tick s) = Some u" "lens u = lens s @ map unat guide_code"
      "readings u = Suc (readings s)" "current_time u = current_time s"
      using send_codes_ok [OF assms(1) g guide_short(3), of "tick s"] guide_short(2)
      by (auto simp: tick_def lens_def elim!: runsE)
    have soon: "elapsed e (Suc (readings s)) < 2000 + D" "elapsed e (Suc (Suc (readings s))) < 2000 + 2 * D"
      using True step [of "readings s"] step [of "Suc (readings s)"] by simp_all
    have now: "get_millisecond e (readings s) - current_time (tick s) < 2000"
      "\<not> 45000 < get_millisecond e (readings u) - get_millisecond e 0"
      using True soon(1) Suc.prems(2) assms(3) u(3) by (simp_all add: elapsed_simps tick_def)
    with Suc.prems(3) u(1) have "guide_loop fuel e (get_millisecond e 0) (tick u) = Some t" by (simp add: Let_def)
    with Suc.IH [of "tick u"] soon(2) u(3,4) Suc.prems(2) obtain m where
      m: "lens t = lens (tick u) @ map unat (concat (replicate m guide_code))" "elapsed e (readings t) < 2000 + 3 * D"
      by (auto simp: tick_def)
    then have "lens t = lens s @ map unat (concat (replicate (Suc m) guide_code))" using u(2) by (simp add: tick_def lens_def)
    with m(2) show ?thesis by blast
  next
    case False
    then have "\<not> get_millisecond e (readings s) - current_time (tick s) < 2000" using Suc.prems(2) by (simp add: elapsed_simps tick_def)
    with Suc.prems(3) have "t = tick s" by (simp add: Let_def)
    then have "lens t = lens s @ map unat (concat (replicate 0 guide_code))" "elapsed e (readings t) < 2000 + 3 * D"
      using step [of "readings s"] Suc.prems(1) by (simp_all add: tick_def lens_def)
    with False show ?thesis by blast
  qed
qed simp

text \<open>Until six seconds after the start data codes follow each other.\<close>

lemma data_rounds:
  assumes "net_up e" and "late_from e N" and "paced e D" and "D < 2000" and "0 < n" and "3 * n \<le> length dc" and "short_enough (take (3 * n) dc)"
    and "k + j \<le> n" and "current_time s = get_millisecond e r" and "readings s = Suc r" and "last_time s = get_millisecond e 0"
    and "index s = int (3 * (k mod n))" and "elapsed e r + j * D < 6000 + D" and "N - readings s < fuel"
  shows "runs (send_loop fuel e dc (int (3 * n)) (get_millisecond e 0) s)
    (\<lambda>t. \<exists>bs. lens t = lens s @ map unat (transmission dc n k (replicate j False @ bs)))"
  using assms(8-)
proof (induction j arbitrary: k s r fuel)
  case 0
  then show ?case using send_loop_ends [OF assms(1,2,5,6,7) 0(7,5)] by simp
next
  case (Suc j)
  then have k: "k mod n = k" "index s = int (3 * k)" by simp_all
  then have room: "nat (index s) + 3 \<le> 3 * n" using Suc.prems(1) by simp
  have "take 3 (drop (3 * k) (take (3 * n) dc)) = take 3 (drop (3 * k) dc)" using room k(2) by (simp add: drop_take)
  then have "short_enough (take 3 (drop (nat (index s)) dc))"
    using assms(7) k(2) by (metis (no_types) in_set_dropD in_set_takeD nat_int short_enough_def)
  from send_codes_ok [OF assms(1) this, of s] room assms(6) obtain u where
    u: "send_codes e dc (index s) 3 s = Some u" "lens u = lens s @ map unat (take 3 (drop (3 * k) dc))" "readings u = Suc r"
    using Suc.prems(3) k(2) by (auto simp: nat_mult_distrib elim!: runsE)
  have last: "last_time u = get_millisecond e 0" using u(1) Suc.prems(4) by (auto simp: send_codes_def split: Option.bind_splits)
  let ?u = "tick (u\<lparr>index := (index s + 3) mod int (3 * n), current_time := get_millisecond e (Suc r)\<rparr>)"
  have step: "elapsed e (Suc r) \<le> elapsed e r + D" using assms(3) by (simp add: paced_def)
  have early: "elapsed e r < 6000" using Suc.prems(6) by simp
  have not_late: "elapsed e (Suc r) \<le> 45000" using step early assms(4) by simp
  have eq: "send_loop fuel e dc (int (3 * n)) (get_millisecond e 0) s = send_loop (fuel - 1) e dc (int (3 * n)) (get_millisecond e 0) ?u"
  proof (cases fuel)
    case (Suc f)
    have "index u = index s" using u(1) by (auto simp: send_codes_def split: Option.bind_splits)
    then show ?thesis using Suc Suc.prems(2,4) u(1,3) early not_late
      by (simp add: elapsed_simps Let_def tick_def not_less not_le)
  qed (use Suc.prems(7) in simp)
  have "Suc r < N" using late_fromD [OF assms(2)] not_late by (auto simp: not_le [symmetric])
  then have "N - readings ?u < fuel - 1" using Suc.prems(3,7) u(3) by (simp add: tick_def)
  moreover have "index ?u = int (3 * (Suc k mod n))" using next_index [OF assms(5), of k] k by (simp add: tick_def)
  ultimately have "runs (send_loop (fuel - 1) e dc (int (3 * n)) (get_millisecond e 0) ?u)
      (\<lambda>t. \<exists>bs. lens t = lens ?u @ map unat (transmission dc n (Suc k) (replicate j False @ bs)))"
    using Suc.prems(1,6) last u(3) step by (intro Suc.IH [of "Suc k" ?u "Suc r"]) (simp_all add: tick_def)
  moreover have "lens ?u = lens s @ map unat (take 3 (drop (3 * k) dc))" using u(2) by (simp add: tick_def lens_def)
  ultimately show ?case unfolding eq using k(1) by (auto elim!: runs_mono)
qed

lemma first_cycle:
  assumes "net_up e" and "late_from e N" and "paced e D" and "(n + 2) * D \<le> 4000" and "0 < n" and "3 * n \<le> length dc"
    and "short_enough (take (3 * n) dc)" and "N < fuel"
    and "s = \<lparr>readings = 1, datagramCount = 0, index = 0, current_time = get_millisecond e 0, last_time = get_millisecond e 0 - 6000, sent = []\<rparr>"
  shows "runs (send_loop fuel e dc (int (3 * n)) (get_millisecond e 0) s)
    (\<lambda>t. \<exists>g bs. 0 < g \<and> lens t = map unat (transmission dc n 0 (replicate g True @ replicate n False @ bs)))"
proof -
  have "3 * D \<le> (n + 2) * D" using assms(5) by (intro mult_le_mono1) simp
  from le_trans [OF this assms(4)] have D: "D < 2000" by simp
  have start: "elapsed e 0 = 0" "elapsed e 1 < 2000"
    using assms(3) D by (auto simp: elapsed_def paced_def dest: spec [of _ 0])
  have f: "N - readings s < fuel" "current_time s = get_millisecond e 0" "readings s = 1" "index s = 0" "lens s = []"
    "current_time s - last_time s = 6000" using assms(8,9) by (simp_all add: lens_def)
  obtain t where t: "guide_loop fuel e (get_millisecond e 0) s = Some t" "1 < readings t" "index t = 0" "current_time t = get_millisecond e 0"
    using guide_loop_ends [OF assms(1,2) f(1)] f(2-4) by (auto elim!: runsE)
  from first_guides [OF assms(1,3) D _ f(2) t(1)] start(2) f(3,5) obtain g where
    g: "0 < g" "lens t = map unat (concat (replicate g guide_code))" "elapsed e (readings t) < 2000 + 3 * D" by auto
  let ?r = "readings t"
  let ?t = "tick (t\<lparr>last_time := get_millisecond e 0, current_time := get_millisecond e ?r\<rparr>)"
  have not_late: "elapsed e ?r \<le> 45000" using g(3) D by simp
  have eq: "send_loop fuel e dc (int (3 * n)) (get_millisecond e 0) s = send_loop (fuel - 1) e dc (int (3 * n)) (get_millisecond e 0) ?t"
    using t(1,4) f(1,6) not_late by (cases fuel) (simp_all add: elapsed_simps Let_def tick_def not_less)
  have "?r < N" using late_fromD [OF assms(2)] not_late by (auto simp: not_le [symmetric])
  then have "N - readings ?t < fuel - 1" using assms(8) t(2) by (simp add: tick_def)
  moreover have "elapsed e ?r + n * D < 6000 + D" using g(3) assms(4) by (simp add: algebra_simps)
  ultimately have "runs (send_loop (fuel - 1) e dc (int (3 * n)) (get_millisecond e 0) ?t)
      (\<lambda>u. \<exists>bs. lens u = lens ?t @ map unat (transmission dc n 0 (replicate n False @ bs)))"
    using t(3) by (intro data_rounds [OF assms(1-3) D assms(5-7)]) (simp_all add: tick_def)
  moreover have "lens ?t = map unat (concat (replicate g guide_code))" using g(2) by (simp add: tick_def lens_def)
  ultimately show ?thesis unfolding eq
  proof (elim runs_mono exE)
    fix u bs assume "lens u = lens ?t @ map unat (transmission dc n 0 (replicate n False @ bs))"
      and "lens ?t = map unat (concat (replicate g guide_code))"
    then have "lens u = map unat (transmission dc n 0 (replicate g True @ replicate n False @ bs))" by (simp add: transmission_guides)
    with g(1) show "\<exists>g bs. 0 < g \<and> lens u = map unat (transmission dc n 0 (replicate g True @ replicate n False @ bs))" by blast
  qed
qed

section \<open>Properties\<close>

lemma holds_short:
  assumes "holds dc (plan_map ssid pwd ip bssid)" and "length ip = 4" and "9 + length pwd + length ssid \<le> 256"
  shows "\<forall>k < 9 + length pwd. code_at dc k = Some (plan ssid pwd ip bssid ! k, of_nat k)"
    and "3 * (9 + length pwd) \<le> length dc" and "short_enough (take (3 * (9 + length pwd)) dc)"
proof -
  show c: "\<forall>k < 9 + length pwd. code_at dc k = Some (plan ssid pwd ip bssid ! k, of_nat k)"
    using assms(1) plan_map_nth [OF assms(2)] by (simp add: holds_def)
  show l: "3 * (9 + length pwd) \<le> length dc" using assms(1,3) by (simp add: holds_def)
  show "short_enough (take (3 * (9 + length pwd)) dc)"
    unfolding short_enough_def
  proof
    fix v assume "v \<in> set (take (3 * (9 + length pwd)) dc)"
    then obtain i where i: "i < 3 * (9 + length pwd)" "v = dc ! i" using l by (auto simp: in_set_conv_nth)
    define k where "k = i div 3"
    with i(1) have "k < 9 + length pwd" "i = 3 * k \<or> i = 3 * k + 1 \<or> i = 3 * k + 2" by auto
    with c read_code_range [of "dc ! (3 * k)" "dc ! (3 * k + 1)" "dc ! (3 * k + 2)"] i(2) show "unat v \<le> 1024"
      unfolding code_at_def by blast
  qed
qed

text \<open>
  C39. The tool ends and sends what it should. The conditions: a password and a network name of together at most 247 bytes, a
  readable address of the access point, a working network, a clock that never goes behind the start and from its \<open>N\<close>-th reading on is more than
  45 seconds past it, and steps between its readings short enough, \<open>D\<close> milliseconds, that all \<open>n\<close> codes fit into the four
  seconds after the guide codes. Then \<^verbatim>\<open>main\<close> returns 0, and the lengths of its datagrams are: first some bursts of guide codes, at least one; then
  the codes of length, checksums, address and password, every one of them, in order; and then, until the 45 seconds
  are over, bursts of guide codes and codes, going on in order and from the first again. Each code is one that a receiver accepts and reads as the byte
  it carries.
\<close>

theorem smart_config_transmits:
  assumes "9 + length pwd + length ssid \<le> 256" and "sscanf mac_format mac = Some ms" and "length ms = 6"
    and "thread_created e" and "net_up e" and "0 \<le> ip_sock e" and "0 \<le> ip_ioctl e" and "late_from e N" and "N < fuel"
    and "n = 9 + length pwd" and "paced e D" and "(n + 2) * D \<le> 4000"
  shows "\<exists>dc g bs. (\<forall>k < n. code_at dc k =
      Some (plan (bytes ssid) (bytes pwd) (le32 (sin_addr (ip_ifr e))) (map of_int ms) ! k, of_nat k)) \<and> 0 < g \<and>
    runs (sc_main fuel e [prog, ssid, pwd, mac] y) (\<lambda>(ret, out). ret = 0 \<and>
      map (\<lambda>(host, b). length b) out = map unat (transmission dc n 0 (replicate g True @ replicate n False @ bs)))"
proof -
  let ?ip = "le32 (sin_addr (ip_ifr e))" and ?ms = "map of_int ms :: buf"
  have mac: "map (\<lambda>i. of_int i AND 0xff :: u8) ms = ?ms"
  proof -
    have "(0xff :: u8) = - 1" by simp
    then have "x AND 0xff = (x :: u8)" for x by (simp only: and.right_neutral)
    then show ?thesis by simp
  qed
  have l: "length (bytes pwd) = length pwd" "9 + length (bytes pwd) + length (bytes ssid) \<le> 256" using assms(1) by (simp_all add: bytes_def)
  obtain dc where code: "make_code (bytes ssid) (bytes pwd) ?ip ?ms (replicate 1024 0) = Some (dc, int (3 * n))"
    "holds dc (plan_map (bytes ssid) (bytes pwd) ?ip ?ms)"
    using make_code_eq [of ?ip ?ms "bytes pwd" "bytes ssid" "replicate 1024 0"] l assms(3,10) by (auto elim!: runsE)
  note h = holds_short [OF code(2) length_le32 l(2), unfolded l(1), folded assms(10)]
  have "0 < n" using assms(10) by simp
  from first_cycle [OF assms(5,8,11,12) this h(2,3) assms(9) refl] obtain t g bs where
    t: "send_loop fuel e dc (int (3 * n)) (get_millisecond e 0)
      \<lparr>readings = 1, datagramCount = 0, index = 0, current_time = get_millisecond e 0, last_time = get_millisecond e 0 - 6000, sent = []\<rparr> = Some t"
    "0 < g" "lens t = map unat (transmission dc n 0 (replicate g True @ replicate n False @ bs))" by (elim runsE exE conjE) rule
  have "sc_main fuel e [prog, ssid, pwd, mac] y = Some (0, sent t)"
    using assms(2,3,4,6,7) code(1) t(1) by (simp add: sc_main_def get_ip_def Let_def mac)
  with h(1) t(2,3) show ?thesis by (intro exI [of _ dc] exI [of _ g] exI [of _ bs]) (simp add: lens_def)
qed

text \<open>Without a readable address or enough arguments nothing is sent.\<close>

lemma smart_config_refuses:
  "length argv < 4 \<Longrightarrow> sc_main fuel e argv y = Some (- 1, [])"
  "4 \<le> length argv \<Longrightarrow> sscanf mac_format (argv ! 3) = Some ms \<Longrightarrow> length ms \<noteq> 6 \<Longrightarrow> sc_main fuel e argv y = Some (- 3, [])"
  by (simp_all add: sc_main_def split: prod.split)

text \<open>The listener prints one line per datagram, in order, until the first time-out, and never leaves its buffer.\<close>

lemma listen_thread_prints:
  assumes "\<forall>r \<in> set rs. length (lr_buf r) = 1024"
  shows "runs (listen_thread rs) (\<lambda>(stop, ps). stop = (\<exists>r \<in> set rs. lr_select r = 0) \<and>
    length ps = length (filter (\<lambda>r. 0 < lr_select r) (takeWhile (\<lambda>r. lr_select r \<noteq> 0) rs)) + (if stop then 1 else 0))"
  using assms
proof (induction rs)
  case (Cons r rs)
  then have "runs (listen_dev (lr_recv r) (lr_buf r)) (\<lambda>p. True)" by (simp add: listen_dev_def)
  with Cons show ?case by (auto elim!: runsE)
qed simp

section \<open>Witness\<close>

text \<open>A reading every 300 milliseconds, for a minute.\<close>

definition demo_sc_env :: sc_env where
  "demo_sc_env = \<lparr>time_of_day = (\<lambda>i. let ms = 300 * int (min i 200) in (ms div 1000, ms mod 1000 * 1000)), host_found = (\<lambda>i. True), sock_of = (\<lambda>i. 3), ip_sock = 4,
     ip_ioctl = 0, ip_ifr = \<lparr>sin_family = 2, sin_port = 0, sin_addr = 0x0901A8C0\<rparr>, ip_junk = 0, thread_created = True\<rparr>"

lemma demo_sc_clock: "elapsed demo_sc_env i = 300 * min i 200"
proof -
  have ms: "get_millisecond demo_sc_env i = of_nat (300 * min i 200)" for i
  proof -
    let ?m = "300 * int (min i 200)"
    have "get_millisecond demo_sc_env i = of_int (?m div 1000 * 1000 + ?m mod 1000)"
      by (simp only: get_millisecond_def demo_sc_env_def sc_env.simps Let_def case_prod_conv of_int_add of_int_mult of_int_numeral
          nonzero_mult_div_cancel_right zero_neq_numeral not_False_eq_True)
    also have "\<dots> = of_int (int (300 * min i 200))" by (simp only: div_mult_mod_eq of_nat_mult of_nat_numeral)
    finally show ?thesis by (simp only: of_int_of_nat_eq)
  qed
  have "300 * min i 200 < 2 ^ 64" by (rule le_less_trans [of _ 60000]) simp_all
  then have "unat (of_nat (300 * min i 200) :: u64) = 300 * min i 200" by (simp only: unat_of_nat) simp
  moreover have "get_millisecond demo_sc_env 0 = 0" unfolding ms by simp
  ultimately show ?thesis by (simp only: elapsed_def ms [of i] diff_zero)
qed

theorem smart_config_transmits_witness:
  "\<exists>dc g bs. code_at dc 9 = Some (115, 9) \<and> 0 < g \<and>
    runs (sc_main 152 demo_sc_env [''smart_config'', ''net'', ''se'', ''01:02:03:04:05:06''] \<lparr>open_fds = {}, nonblock = {}, ttys = (\<lambda>fd. undefined), files = Map.empty\<rparr>)
      (\<lambda>(ret, out). ret = 0 \<and> map (\<lambda>(host, b). length b) out = map unat (transmission dc 11 0 (replicate g True @ replicate 11 False @ bs)))"
proof -
  have m: "sscanf mac_format ''01:02:03:04:05:06'' = Some [1, 2, 3, 4, 5, 6]" by code_simp
  have n: "net_up demo_sc_env" "thread_created demo_sc_env" "0 \<le> ip_sock demo_sc_env" "0 \<le> ip_ioctl demo_sc_env"
    by (simp_all add: net_up_def demo_sc_env_def)
  have t: "late_from demo_sc_env 151" "paced demo_sc_env 300" by (auto simp: late_from_def elapsed_simps paced_def demo_sc_clock)
  have a: "9 + length ''se'' + length ''net'' \<le> 256" "length [1, 2, 3, 4, 5, 6 :: int] = 6" "(151 :: nat) < 152" "11 = 9 + length ''se''"
    "(11 + 2) * 300 \<le> (4000 :: nat)" by simp_all
  have p: "plan (bytes ''net'') (bytes ''se'') (le32 (sin_addr (ip_ifr demo_sc_env))) (map of_int [1, 2, 3, 4, 5, 6]) ! 9 = 115"
    by (simp add: plan_def Let_def bytes_def nth_append)
  let ?y = "\<lparr>open_fds = {}, nonblock = {}, ttys = (\<lambda>fd. undefined), files = Map.empty\<rparr>"
  obtain dc g bs where d: "\<forall>k < 11. code_at dc k =
      Some (plan (bytes ''net'') (bytes ''se'') (le32 (sin_addr (ip_ifr demo_sc_env))) (map of_int [1, 2, 3, 4, 5, 6]) ! k, of_nat k)" "0 < g"
    and r: "runs (sc_main 152 demo_sc_env [''smart_config'', ''net'', ''se'', ''01:02:03:04:05:06''] ?y) (\<lambda>(ret, out). ret = 0 \<and>
      map (\<lambda>(host, b). length b) out = map unat (transmission dc 11 0 (replicate g True @ replicate 11 False @ bs)))"
    using smart_config_transmits [OF a(1) m a(2) n(2,1,3,4) t(1) a(3,4) t(2) a(5), of "''smart_config''" ?y] by blast
  from d(1) [rule_format, of 9] d(2) p r show ?thesis by (intro exI [of _ dc] exI [of _ g] exI [of _ bs]) simp
qed

end
