(* ===== verification/Debug_Log.thy ===== *)
theory Debug_Log
  imports C_Lib
begin

text \<open>
  The message function of \<^verbatim>\<open>lib/debug.c\<close>. A program whose standard input is a terminal or a file prints its messages, a
  program in the background hands them to \<^verbatim>\<open>syslog\<close>. What \<^verbatim>\<open>readlink\<close> returns for the program and for its standard
  input, the clock and the formatted message are arguments.
\<close>

section \<open>Strings\<close>

text \<open>\<^verbatim>\<open>basename\<close> of \<^verbatim>\<open>libgen.h\<close>, and whether \<^verbatim>\<open>strstr\<close> finds a string.\<close>

definition basename :: "string \<Rightarrow> string" where
  "basename s = (if s = [] then ''.'' else
     let t = dropWhile (\<lambda>c. c = CHR ''/'') (rev s)
     in if t = [] then ''/'' else rev (takeWhile (\<lambda>c. c \<noteq> CHR ''/'') t))"

fun strstr :: "string \<Rightarrow> string \<Rightarrow> bool" where
  "strstr [] n \<longleftrightarrow> n = []"
| "strstr (c # cs) n \<longleftrightarrow> take (length n) (c # cs) = n \<or> strstr cs n"

section \<open>Messages\<close>

datatype log_line = Printed string | Logged string

text \<open>
  \<open>exe\<close> and \<open>stdin\<close> are the targets of the two links, \<^term>\<open>None\<close> when \<^verbatim>\<open>readlink\<close> fails. \<^verbatim>\<open>readlink\<close> stores at most
  the size of its buffer and no terminating 0: \<^verbatim>\<open>name\<close> was cleared before, \<^verbatim>\<open>buf\<close> holds \<open>junk\<close> behind the link.
\<close>

definition read_name :: "string \<Rightarrow> string option" where
  "read_name exe = map_option basename (c_string (front (replicate 128 0) (bytes (take 128 exe))))"

definition is_console :: "string option \<Rightarrow> buf \<Rightarrow> bool option" where
  "is_console stdin junk = (case stdin of
     None \<Rightarrow> Some False
   | Some link \<Rightarrow> if link = [] then Some False
       else map_option (\<lambda>s. \<not> strstr s ''/dev/null'') (c_string (front junk (bytes (take 1024 link)))))"

text \<open>
  The second \<^verbatim>\<open>snprintf\<close> starts behind the name but may write the size of the whole buffer, since \<^verbatim>\<open>strlen(ptr)\<close> is 0
  there: what ends behind the 1024 bytes is undefined.
\<close>

definition syslog_line :: "string \<Rightarrow> string \<Rightarrow> string option" where
  "syslog_line name msg =
     (let hd = take 1023 (name @ '' : ''); tl = take (1024 - 1) msg
      in if 1024 < length hd + length tl + 1 then None else Some (hd @ tl))"

definition hsb_message :: "string option \<Rightarrow> string option \<Rightarrow> buf \<Rightarrow> int \<Rightarrow> string \<Rightarrow> (int \<times> log_line option) option" where
  "hsb_message exe stdin junk now msg = (case exe of
     None \<Rightarrow> Some (- 1, None)
   | Some path \<Rightarrow> do {
       name \<leftarrow> read_name path;
       console \<leftarrow> is_console stdin junk;
       if console then Some (0, Some (Printed (name @ ''('' @ show_int now @ ''): '' @ msg)))
       else do {
         line \<leftarrow> syslog_line name msg;
         Some (0, Some (Logged line))
       }
     })"

text \<open>The macros \<^verbatim>\<open>hsb_critical\<close>, \<^verbatim>\<open>hsb_warning\<close> and \<^verbatim>\<open>hsb_debug\<close>: levels 1, 2 and 3.\<close>

definition hsb_log :: "int \<Rightarrow> int \<Rightarrow> (int \<times> log_line option) option \<Rightarrow> log_line option option" where
  "hsb_log level debug_verbose message = (if level \<le> debug_verbose then map_option snd message else Some None)"

section \<open>Which messages are safe\<close>

lemma read_name_eq:
  assumes "CHR 0x00 \<notin> set exe" and "length exe < 128"
  shows "read_name exe = Some (basename exe)"
proof -
  obtain k where "128 - length exe = Suc k" using assms(2) by (metis Suc_diff_Suc)
  then have "front (replicate 128 0) (bytes exe) = bytes exe @ 0 # replicate k 0"
    by (simp add: front_def bytes_def)
  with c_string_bytes [OF assms(1)] assms(2) show ?thesis by (simp add: read_name_def)
qed

lemma basename_length: "length (basename exe) \<le> max 1 (length exe)"
proof -
  have "length (takeWhile P (dropWhile Q (rev exe))) \<le> length exe" for P Q
    by (rule order_trans [OF length_takeWhile_le]) (use length_dropWhile_le [of Q "rev exe"] in simp)
  then show ?thesis by (simp add: basename_def Let_def le_max_iff_disj)
qed

text \<open>
  A background program of a path shorter than 128 characters writes its messages as long as name, separator and
  message fit the line buffer; a longer one is written behind it.
\<close>

lemma hsb_message_background:
  assumes "CHR 0x00 \<notin> set exe" and "length exe < 128" and "is_console stdin junk = Some False"
  shows "hsb_message (Some exe) stdin junk now msg =
    (if length (basename exe) + length msg < 1021 then Some (0, Some (Logged (basename exe @ '' : '' @ msg))) else None)"
proof -
  have n: "length (basename exe) < 128" using basename_length [of exe] assms(2) by simp
  then have "take 1023 (basename exe @ '' : '') = basename exe @ '' : ''" by simp
  then show ?thesis
    using assms(3) n by (auto simp: hsb_message_def read_name_eq [OF assms(1,2)] syslog_line_def Let_def)
qed

lemma quiet_log: "debug_verbose < level \<Longrightarrow> hsb_log level debug_verbose message = Some None"
  by (simp add: hsb_log_def)

end
