(* ===== verification/Small_Tools.thy ===== *)
theory Small_Tools
  imports Smart_Config Sys_Sockets
begin

text \<open>
  The small tools: \<^verbatim>\<open>misc/un_send.c\<close> sends a line to the control socket of a daemon, \<^verbatim>\<open>misc/udp_listen.c\<close>
  prints the datagrams of the multicast groups that the provisioning tool sends to, and \<^verbatim>\<open>misc/zigbee_sim.c\<close> is the frame of
  a simulator whose handlers are empty.
\<close>

section \<open>\<^verbatim>\<open>un_send\<close>\<close>

text \<open>\<open>sent\<close> and \<open>reply\<close>: what \<^verbatim>\<open>sendto\<close> and \<^verbatim>\<open>recvfrom\<close> returned; \<open>name\<close> what \<^verbatim>\<open>getsockname\<close> did. Printed are the result and the reply.\<close>

datatype un_line = Send_Error | Send_Bytes int | Reply string

definition read_reply :: "int \<Rightarrow> int \<times> buf \<Rightarrow> buf \<Rightarrow> un_line list option" where
  "read_reply read reply junk = (case reply of (nread, data) \<Rightarrow>
     if read > 0 \<and> nread > 0 then do {
       b \<leftarrow> put_nul (front junk (take (nat nread) data)) nread;
       s \<leftarrow> c_string b;
       Some [Reply s]
     }
     else Some [])"

definition mysend :: "unix_env \<Rightarrow> int \<times> string \<Rightarrow> bool \<Rightarrow> int \<Rightarrow> int \<times> buf \<Rightarrow> buf \<Rightarrow> string option \<Rightarrow> string \<Rightarrow> int \<Rightarrow> sys \<Rightarrow>
    (un_line list \<times> sys) option" where
  "mysend e name unlink_ok sent reply junk un_path send_str read y = do {
     (fd, y) \<leftarrow> unix_socket_new_listen e None y;
     ret \<leftarrow> unix_socket_send_to fd un_path (Some (bytes send_str)) sent;
     out \<leftarrow> read_reply read (if fd < 0 then (- 1, []) else reply) junk;
     let y = unix_socket_free name unlink_ok fd y;
     Some ((if ret < 0 then Send_Error else Send_Bytes ret) # out, y)
   }"

text \<open>\<^verbatim>\<open>argv\<close> with the program's name; without two arguments \<^verbatim>\<open>strlen\<close> gets no string.\<close>

definition un_send_main :: "unix_env \<Rightarrow> int \<times> string \<Rightarrow> bool \<Rightarrow> int \<Rightarrow> int \<times> buf \<Rightarrow> buf \<Rightarrow> string list \<Rightarrow> sys \<Rightarrow> (un_line list \<times> sys) option" where
  "un_send_main e name unlink_ok sent reply junk argv y =
     (if length argv < 3 then None
      else do {
        read \<leftarrow> (if 3 < length argv then atoi (argv ! 3) else Some 0);
        mysend e name unlink_ok sent reply junk (Some (argv ! 1)) (argv ! 2) read y
      })"

section \<open>\<^verbatim>\<open>udp_listen\<close>\<close>

definition group_name :: "int \<Rightarrow> string" where
  "group_name cnt = ''234.'' @ show_int cnt @ ''.'' @ show_int cnt @ ''.'' @ show_int cnt"

text \<open>\<open>join_ok\<close> says for each group whether it can be joined. The result is the groups joined and whether all were.\<close>

fun join_groups :: "(int \<Rightarrow> bool) \<Rightarrow> int list \<Rightarrow> string list \<times> bool" where
  "join_groups join_ok [] = ([], True)"
| "join_groups join_ok (cnt # cs) =
     (if join_ok cnt then let (gs, ok) = join_groups join_ok cs in (group_name cnt # gs, ok) else ([], False))"

datatype udp_line = Reuse_Failed | Join_Failed | Listening u16 | Select_Ret int | Timed_Out | Received int u32

record udp_round =
  ur_select :: int
  ur_recv :: int
  ur_from :: u32

fun udp_rounds :: "udp_round list \<Rightarrow> udp_line list" where
  "udp_rounds [] = []"
| "udp_rounds (r # rs) =
     (if ur_select r < 0 then Select_Ret (ur_select r) # udp_rounds rs
      else if ur_select r = 0 then [Timed_Out]
      else Received (ur_recv r) (ur_from r) # udp_rounds rs)"

definition udp_listen_main :: "bool \<Rightarrow> (int \<Rightarrow> bool) \<Rightarrow> udp_round list \<Rightarrow> u16 \<Rightarrow> string list \<times> udp_line list" where
  "udp_listen_main reuse_ok join_ok rounds port =
     (if \<not> reuse_ok then ([], [Reuse_Failed])
      else let (groups, ok) = join_groups join_ok [1..100] in
        if \<not> ok then (groups, [Join_Failed]) else (groups, Listening port # udp_rounds rounds))"

section \<open>\<^verbatim>\<open>zigbee_sim\<close>\<close>

record zs_round =
  zs_select :: int
  zs_sock :: bool
  zs_input :: bool
  zs_recv :: "int \<times> buf"
  zs_read :: "int \<times> buf"

definition deal_sock_cmd :: "buf \<Rightarrow> int \<Rightarrow> int" where
  "deal_sock_cmd b len = 0"

definition deal_input_cmd :: "buf \<Rightarrow> int" where
  "deal_input_cmd b = 0"

text \<open>A pass through the loop, with the buffer that the next pass finds.\<close>

definition zs_pass :: "zs_round \<Rightarrow> buf \<Rightarrow> buf option" where
  "zs_pass r b =
     (if zs_select r \<le> 0 then Some b
      else let b = (if zs_sock r then front b (snd (zs_recv r)) else b) in
        if zs_input r then put_nul (front b (snd (zs_read r))) (fst (zs_read r)) else Some b)"

section \<open>What the tools do\<close>

text \<open>\<^verbatim>\<open>un_send\<close> closes its socket again and removes the temporary name it was bound to.\<close>

lemma mysend_balanced:
  assumes "u_socket e \<notin> open_fds y" and "hsb_mkstemp (u_mkstemp e) (u_now e) (u_counter e) ''/tmp/.hsb_unXXXXXX'' = Some (fd, tried)"
    and "fd \<notin> open_fds y" and "fd \<noteq> u_socket e" and "mysend e name unlink_ok sent reply junk un_path send_str read y = Some (out, y')"
  shows "open_fds y' = open_fds y"
proof -
  from assms(5) obtain r z where z: "unix_socket_new_listen e None y = Some (r, z)" "y' = unix_socket_free name unlink_ok r z"
    by (auto simp: mysend_def Let_def split: Option.bind_splits)
  from listen_temporary [OF assms(1) z(1) assms(3,2,4)] have b: "balanced (u_socket e) y (r, z)" .
  have f: "open_fds (unix_socket_free name unlink_ok r z) = (if r = - 1 then open_fds z else open_fds z - {r})"
    by (auto simp: unix_socket_free_def sys_close_def sys_unlink_def Let_def split: prod.split)
  show ?thesis using b assms(1) unfolding z(2) f by (auto simp: balanced_def split: if_splits)
qed

text \<open>A reply that fills the buffer is closed behind it.\<close>

lemma read_reply_bound:
  assumes "length junk = 1024" and "0 < read" and "int (length data) = n" and "0 < n" and "n \<le> 1024"
  shows "read_reply read (n, data) junk = None \<longleftrightarrow> n = 1024"
proof -
  have l: "length (front junk data) = 1024" using assms by simp
  show ?thesis
  proof (cases "n = 1024")
    case True
    with assms l show ?thesis by (simp add: read_reply_def put_nul_def arr_set_def)
  next
    case False
    with assms l have "nat n < length (front junk data)" by simp
    then have "(0 :: u8) \<in> set ((front junk data)[nat n := 0])" by (rule set_update_memI)
    with False assms l show ?thesis by (auto simp: read_reply_def put_nul_def arr_set_def c_string_def)
  qed
qed

text \<open>The groups that are joined are those that \<^verbatim>\<open>smart_config\<close> sends to, whatever its count of datagrams.\<close>

lemma join_groups_all:
  assumes "\<forall>c. join_ok c"
  shows "join_groups join_ok cs = (map group_name cs, True)"
  using assms by (induction cs) simp_all

lemma sender_in_groups:
  assumes "\<forall>c. join_ok c" and "0 \<le> count"
  shows "group_name (fst (getNextDatagramCount count)) \<in> set (fst (udp_listen_main True join_ok rounds port))"
proof -
  have "1 + count mod 100 \<in> set [1..100]" by simp
  with assms(1) show ?thesis by (simp add: udp_listen_main_def join_groups_all getNextDatagramCount_def)
qed

text \<open>The listener prints one line per datagram until \<^verbatim>\<open>select\<close> times out, which without a time limit it never does.\<close>

lemma udp_rounds_all: "\<forall>r \<in> set rs. 0 < ur_select r \<Longrightarrow> udp_rounds rs = map (\<lambda>r. Received (ur_recv r) (ur_from r)) rs"
  by (induction rs) simp_all

end
