(* ===== verification/Spec2Isabelle.thy ===== *)
theory Spec2Isabelle
  imports Demo_Tools Base64 Smart_Main Debug_Log Small_Tools
begin

text \<open>
  The Home Security Box: a verification library for the daemon (\<^verbatim>\<open>src/core_daemon\<close>), its support library
  (\<^verbatim>\<open>src/lib\<close>, \<^verbatim>\<open>src/include\<close>) and the tools beside it (\<^verbatim>\<open>src/misc\<close>).

  \<^bold>\<open>The program.\<close> The box connects Wi-Fi switches and Zigbee devices with clients (pads) over TCP. The
  daemon is one process with seven kinds of thread around three blocks of global state.

    \<^item> The device control block of \<^verbatim>\<open>device.c\<close> holds the online and offline devices, the registered drivers, the work mode and
      the queue of requests. Each device carries 32 timers, 8 delays and 8 linkages.
    \<^item> The driver contexts of \<^verbatim>\<open>driver_virtual_switch.c\<close> and \<^verbatim>\<open>driver_cg_zigbee.c\<close> map device ids to addresses; the Zigbee
      context also holds the frame to be sent and the answer that is waited for.
    \<^item> The client pool of \<^verbatim>\<open>network.c\<close> holds a context and a message queue for each of at most 5 clients.

  The main thread (\<^verbatim>\<open>core_daemon.c\<close>) waits on a control socket and every second runs the scheduler, which queues the
  actions of timers that are due. The request thread takes requests off the queue, calls the driver of the device
  and posts the result to the client that asked. The two monitor threads receive what devices send: a report
  becomes an event, an event is posted to every client and triggers the linkages of its device, a device that
  is silent too long goes offline. The TCP listener hands connections to client threads, which decode packets, change slots, queue
  requests and write out the messages of their queue. The UDP thread answers the search for the box.

  \<^bold>\<open>How it is modelled.\<close> Definitions are executable HOL functions in the order and with the names of the code. The state of the
  daemon is the record \<open>box\<close> (\<open>Hsb_State\<close>): control block, a heap of device objects indexed by pointers, both
  driver contexts, client pool, mutexes as flags, and the list of everything sent. Integers are words of their
  width. Operations return in the option monad: \<^term>\<open>None\<close> is undefined behaviour (an access
  outside an array, a dangling pointer, an uninitialised length, locking a mutex that is held), so \<open>runs m P\<close> says that \<open>m\<close> is
  defined and its result satisfies \<open>P\<close>. Error codes are the integers of the code. What system calls, devices, the clock and uninitialised
  memory give is an argument (\<open>drv_env\<close>, \<open>client_io\<close>, \<open>uart_rx\<close>, \<open>clock\<close>, \<open>select_in\<close>, \<open>sc_env\<close> and others): the theorems hold
  for all of it, or under named conditions on it. GLib's key files are the parameter \<open>keyfile\<close> with the laws \<open>keyfile_laws\<close>.
  A thread's pass through its loop is one atomic step; passes interleave in any order (\<open>reach\<close> in \<open>Core_Daemon\<close>).

  \<^bold>\<open>The theories.\<close>

    \<^item> \<open>Hsb_Prelude\<close>: words, arrays with bounds, the option monad and its rules, loops over lists, \<^verbatim>\<open>GQueue\<close>, \<^verbatim>\<open>CHECK_BIT\<close>.
      \<open>Cmd_Field\<close>: \<^verbatim>\<open>GET_CMD_FIELD\<close> and \<^verbatim>\<open>SET_CMD_FIELD\<close> of \<^verbatim>\<open>network_utils.h\<close>; the locale \<open>cmd_field\<close> is their contract, interpreted at the
      three widths. \<open>C_Lib\<close>: what is used of the C library (\<^verbatim>\<open>%d\<close>, \<^verbatim>\<open>atoi\<close>, \<^verbatim>\<open>sscanf\<close>, \<^verbatim>\<open>fgets\<close>, strings in buffers).
    \<^item> \<open>Hsb_Types\<close>, \<open>Hsb_State\<close>: the structs, enums and limits of \<^verbatim>\<open>device.h\<close>, \<^verbatim>\<open>hsb_device.h\<close>, \<^verbatim>\<open>hsb_error.h\<close>,
      \<^verbatim>\<open>hsb_config.h\<close>; the state, and the request queue of \<^verbatim>\<open>thread_utils.c\<close>.
    \<^item> \<open>Client_Pool\<close>: contexts and message queues of \<^verbatim>\<open>network.c\<close>; locale \<open>mailboxes\<close>.
    \<^item> \<open>Dev_Registry\<close>: \<^verbatim>\<open>device.c\<close>, the life of devices: \<^verbatim>\<open>dev_online\<close>, \<^verbatim>\<open>dev_offline\<close>, drivers, ids, events, linkage. \<open>Registry_Spec\<close>
      gives the abstract registry of three plain lists that it refines. \<open>Dev_Slots\<close>: get, set and
      delete of timers, delays and linkages; locale \<open>slot_store\<close>, interpreted for each of the three. \<open>Dev_Scheduler\<close>:
      \<^verbatim>\<open>check_timer_and_delay\<close>; locale \<open>slot_loop\<close> for its three loops.
    \<^item> \<open>Driver_Table\<close>: the common part of the two drivers as the locale \<open>driver_table\<close>. \<open>Drv_Virtual_Switch\<close>, \<open>Drv_Cg_Zigbee\<close>:
      the drivers; \<open>Vs_Monitor\<close>: the keep-alive monitor. \<open>Dev_Async\<close>: the request thread,
      module initialisation, and the contract \<open>device_driver\<close>, interpreted for both drivers. \<open>Box_Frame\<close>: what each operation leaves alone.
    \<^item> \<open>Remote_Ctl\<close>: the key tables of \<^verbatim>\<open>remote_ctl.c\<close>. \<open>Net_Codec\<close>, \<open>Net_Server\<close>, \<open>Net_Client\<close>: packets, every command of \<^verbatim>\<open>deal_tcp_packet\<close>, discovery, and
      the loops of the listen and client threads; locales \<open>slot_codec\<close> and \<open>slot_service\<close>, a slot behind the network.
    \<^item> \<open>Core_Daemon\<close>: the daemon as an event system (locale \<open>event_system\<close>), its invariant and what every
      reachable state satisfies. \<open>Core_Main\<close>: \<^verbatim>\<open>main\<close> with its command line over the box and the system.
    \<^item> \<open>Config_File\<close> (\<^verbatim>\<open>hsb_param.c\<close>, pid files), \<open>Io_Utils\<close> (\<^verbatim>\<open>io_utils.c\<close>, parts of \<^verbatim>\<open>utils.c\<close>), \<open>Sys_Sockets\<close> (\<^verbatim>\<open>network_utils.c\<close>,
      \<^verbatim>\<open>unix_socket.c\<close>, \<^verbatim>\<open>daemon_control.c\<close>), \<open>Serial_Port\<close> (\<^verbatim>\<open>serial_utils.c\<close>), \<open>Debug_Log\<close> (\<^verbatim>\<open>debug.c\<close>), \<open>Base64\<close>: the library.
      The state here is the record \<open>sys\<close>: open descriptors, non-blocking flags, terminal settings, files.
    \<^item> \<open>Switch_Sim\<close>, \<open>Pad_Sim\<close>, \<open>Smart_Config\<close> and \<open>Smart_Main\<close>, \<open>Small_Tools\<close>: the programs of \<^verbatim>\<open>src/misc\<close>.
    \<^item> \<open>Demo_Box\<close>, \<open>Demo_Net\<close>, \<open>Demo_Daemon\<close>, \<open>Demo_Tools\<close>: a concrete box with devices, timers, linkages and clients, on
      which every theorem with hypotheses is applied.

  \<^bold>\<open>What is shown.\<close>

    \<^item> The whole daemon, with an open serial port: start-up establishes the invariant (registry, driver tables in step with the
      registry, queues, buffers, locks free); any interleaving of passes within the limits listed below keeps it, and
      every next pass within them is defined. Without a serial port \<^verbatim>\<open>init_dev_module\<close> still succeeds, with the Wi-Fi driver only. When every
      system call succeeds, \<^verbatim>\<open>main\<close> comes up from its command line with exactly the descriptors and files it should hold.
    \<^item> Devices: the registry refines its specification; a device that comes back has its old id and slots; silent
      devices go offline and no others; slots return what was stored; the scheduler queues exactly
      what is due, once.
    \<^item> Requests and network: every request is taken off, carried out by its driver and answered exactly once; a timer set by a packet is read
      back by the next; handling of complete packets is defined, terminates, and is independent of how reads are cut; messages leave in order.
    \<^item> Tools against the daemon: the switch simulator obeys the driver, in frames that differ from the Wi-Fi protocol document, and
      its changes reach every client; the pad reads what the daemon writes and keeps to its buffer except for \<^verbatim>\<open>set timer\<close>; the
      provisioning codes are readable by a receiver and all sent, after guide codes, in order and cyclically.
    \<^item> Library: Base64 and CRC-8 equal their reference definitions, configuration values survive the file, timed reads
      and writes end, descriptors are neither lost nor leaked where that holds.
    \<^item> Where the code misbehaves, the misbehaviour is proved: re-arming of timers for the first device only, transaction id 0, packets of length 0, a
      short SET_STATUS, SET_STATUS swallowing the next packet, more than 128 devices, mail inherited
      with a client context, delays that never start, serial frames and control datagrams that overrun their buffers. Weekday bits of
      timers and result codes of Wi-Fi devices are those of the code, which are not those of the protocol documents.

  \<^bold>\<open>Bounds and fuel.\<close> \<open>tcp_packets\<close> runs with fuel; any fuel of at least the number of complete packets of a read gives the result. The search
  for silent devices runs one round more than there are devices. The timed loops of \<open>Io_Utils\<close> recurse over the list of rounds of
  \<^verbatim>\<open>select\<close>, which \<open>time_ends\<close> says uses up the time; \<^verbatim>\<open>hsb_mkstemp\<close> tries 100 names as in the code. The loops of
  \<open>Smart_Main\<close> take fuel, and any fuel above the reading at which the clock passes 45 seconds is enough; that all codes are sent is shown for a
  clock whose readings are close enough together for the codes to fit into the four seconds after the guide codes.

  \<^bold>\<open>Limits of the code.\<close> The statements on the whole daemon are about passes within \<open>box_limits\<close> (\<open>Core_Daemon\<close>). Beyond these
  limits the code is undefined or does not return: for the first, the fourth and the sixth (a frame that nobody waits for) this is part of the
  statement on the whole daemon, for the second and third there are statements of their own in \<open>Net_Client\<close>.

    \<^item> A control datagram is shorter than the line buffer of 1024 bytes.
    \<^item> A client sends complete packets that carry the fields of their commands.
    \<^item> At most 128 devices are online when a client is served.
    \<^item> The notification socket of a client could be opened.
    \<^item> No more than \<open>2 ^ 32 - 1\<close> devices were ever created.
    \<^item> A frame on the serial line has at most 256 bytes; a longer one overruns \<^verbatim>\<open>rbuf\<close> of the Zigbee monitor.

  Beside these, \<open>box_world\<close> says what the interfaces promise: sizes of receive buffers, results of system calls within the size asked for, a
  clock of 24 hours, 60 minutes and 60 seconds. Start-up takes every \<^verbatim>\<open>pthread_create\<close> of \<^verbatim>\<open>init_dev_module\<close> to succeed.

  \<^bold>\<open>Not modelled.\<close> Memory orders and interleavings inside a pass: a pass is atomic, so races between threads that share data without a lock
  are out of sight, while lock errors within a pass are in sight. Log output of the daemon is dropped where it happens (\<open>Debug_Log\<close>
  models the function that would write it). Text that tools print is modelled as values, not characters, where it has a
  structure. \<^verbatim>\<open>switch_probe.c\<close> is commented out of the build and does not fit the library's
  signatures. \<^verbatim>\<open>release_client_pool\<close> and other functions with an empty body or without a caller have no definition.
\<close>

end
